(* ===== verification/Smp_Prelude.thy ===== *)
theory Smp_Prelude
  imports Main "HOL-Library.Word" "HOL-Library.Monad_Syntax"
begin

text \<open>
  The machine the library runs on, as the other theories use it: bytes, \<open>size_t\<close> (64 bits,
  the LP64 build), memory objects and pointers into them, the little- and big-endian
  representation of a word in memory, and the lemmas about them that the components share.

  A pointer into a memory object is the list of the bytes of the object from the pointed-to
  byte to the end of the object; \<open>NULL\<close> is \<^const>\<open>None\<close> where the code can pass it. A read or
  a write outside the object is the value \<^const>\<open>None\<close> of the option type: undefined
  behaviour is a value of the model, so that its absence can be proved.
\<close>

unbundle bit_operations_syntax

section \<open>Types\<close>

type_synonym byte = "8 word"
type_synonym u16 = "16 word"
type_synonym u32 = "32 word"
type_synonym u64 = "64 word"
type_synonym size_t = "64 word"
type_synonym mem = "byte list"

named_theorems mem_simps \<open>reading and writing memory objects\<close>
named_theorems wire_simps \<open>byte representation of fixed-width words\<close>

section \<open>Memory objects\<close>

text \<open>No C object is larger than \<open>PTRDIFF_MAX\<close> bytes.\<close>

definition PTRDIFF_MAX :: nat where
  "PTRDIFF_MAX = 2 ^ 63 - 1"

definition mem_get :: "mem \<Rightarrow> nat \<Rightarrow> byte option" where
  "mem_get m i = (if i < length m then Some (m ! i) else None)"

definition mem_read :: "mem \<Rightarrow> nat \<Rightarrow> nat \<Rightarrow> byte list option" where
  "mem_read m off n = (if off + n \<le> length m then Some (take n (drop off m)) else None)"

definition mem_write :: "mem \<Rightarrow> nat \<Rightarrow> byte list \<Rightarrow> mem option" where
  "mem_write m off bs =
     (if off + length bs \<le> length m
      then Some (take off m @ bs @ drop (off + length bs) m) else None)"

text \<open>Pointer arithmetic: \<open>p + off\<close> is defined up to one past the end of the object.\<close>

definition ptr_add :: "mem \<Rightarrow> size_t \<Rightarrow> mem option" where
  "ptr_add p off =
     (if length p \<le> PTRDIFF_MAX \<and> unat off \<le> length p then Some (drop (unat off) p) else None)"

text \<open>The C library's \<open>strlen\<close>: it reads up to the first nul byte, which must be inside the object.\<close>

definition c_strlen :: "mem \<Rightarrow> size_t option" where
  "c_strlen p =
     (let n = length (takeWhile (\<lambda>b. b \<noteq> 0) p)
      in if n < length p \<and> length p \<le> PTRDIFF_MAX then Some (of_nat n) else None)"

lemma mem_write_length [mem_simps]: "mem_write m off bs = Some m' \<Longrightarrow> length m' = length m"
  by (auto simp: mem_write_def split: if_splits)

lemma mem_write_Some_iff: "(\<exists>m'. mem_write m off bs = Some m') \<longleftrightarrow> off + length bs \<le> length m"
  by (auto simp: mem_write_def)

lemma mem_write_prefix [mem_simps]:
  "length pre = off \<Longrightarrow> length old = length bs \<Longrightarrow>
   mem_write (pre @ old @ post) off bs = Some (pre @ bs @ post)"
  by (auto simp: mem_write_def)

lemma mem_read_0 [mem_simps]: "n \<le> length m \<Longrightarrow> mem_read m 0 n = Some (take n m)"
  by (simp add: mem_read_def)

lemma mem_read_written:
  "mem_write m off bs = Some m' \<Longrightarrow> mem_read m' off (length bs) = Some bs"
  by (auto simp: mem_write_def mem_read_def split: if_splits)

lemma mem_get_written:
  "mem_write m off bs = Some m' \<Longrightarrow> i < off \<Longrightarrow> mem_get m' i = mem_get m i"
  by (auto simp: mem_write_def mem_get_def nth_append split: if_splits)

text \<open>
  Writing one block after another is writing their concatenation: the shape of every encoder
  of the library.
\<close>

lemma mem_write_append:
  assumes "mem_write m off bs = Some m1" and "mem_write m1 (off + length bs) cs = Some m2"
  shows "mem_write m off (bs @ cs) = Some m2"
  using assms by (auto simp: mem_write_def ac_simps split: if_splits)

lemma mem_write_appendI:
  assumes "off + length (bs @ cs) \<le> length m"
  obtains m1 where "mem_write m off bs = Some m1"
    and "mem_write m1 (off + length bs) cs = mem_write m off (bs @ cs)"
proof -
  from assms obtain m1 where m1: "mem_write m off bs = Some m1"
    by (auto simp: mem_write_def)
  then have "length m1 = length m" by (rule mem_write_length)
  with assms obtain m2 where m2: "mem_write m1 (off + length bs) cs = Some m2"
    by (auto simp: mem_write_def)
  with m1 have "mem_write m off (bs @ cs) = Some m2" by (rule mem_write_append)
  with m1 m2 show ?thesis using that by simp
qed

section \<open>Lists\<close>

lemma map_eq_appendE:
  assumes "map f xs = ys @ zs"
  obtains us vs where "xs = us @ vs" and "map f us = ys" and "map f vs = zs"
  using assms by (auto simp: map_eq_append_conv)

lemma map_filter_append [simp]:
  "List.map_filter f (xs @ ys) = List.map_filter f xs @ List.map_filter f ys"
  by (simp add: map_filter_def)

section \<open>Words of the machine\<close>

lemma unat_less_2_64: "unat (w :: size_t) < 2 ^ 64"
proof -
  have "unat w < 2 ^ LENGTH(64)" by (rule unsigned_less)
  then show ?thesis by simp
qed

lemma unat_of_nat_size [simp]: "n < 2 ^ 64 \<Longrightarrow> unat (of_nat n :: size_t) = n"
  by (simp add: unat_of_nat take_bit_eq_mod)

lemma unat_add_size:
  "unat (a :: size_t) + unat b < 2 ^ 64 \<Longrightarrow> unat (a + b) = unat a + unat b"
  by (simp add: unat_word_ariths)

lemma unat_ucast_u16 [simp]: "unat (ucast (w :: u16) :: size_t) = unat w"
proof -
  have "unat w < 2 ^ LENGTH(16)" by (rule unsigned_less)
  then show ?thesis by (simp add: unsigned_ucast_eq take_bit_nat_eq_self)
qed

lemma unat_ucast_u32 [simp]: "unat (ucast (w :: u32) :: size_t) = unat w"
proof -
  have "unat w < 2 ^ LENGTH(32)" by (rule unsigned_less)
  then show ?thesis by (simp add: unsigned_ucast_eq take_bit_nat_eq_self)
qed

lemma unat_ucast_byte_u32 [simp]: "unat (ucast (w :: byte) :: u32) = unat w"
proof -
  have "unat w < 2 ^ LENGTH(8)" by (rule unsigned_less)
  then show ?thesis by (simp add: unsigned_ucast_eq take_bit_nat_eq_self)
qed

lemma unat_u16_less: "unat (w :: u16) < 65536"
proof -
  have "unat w < 2 ^ LENGTH(16)" by (rule unsigned_less)
  then show ?thesis by simp
qed

section \<open>The bytes of a word\<close>

text \<open>
  \<open>memcpy\<close> between a fixed-width integer and a buffer (and the unaligned load or store that
  replaces it on some hosts) copies the object representation of the integer, in the byte
  order of the host.
\<close>

datatype byte_order = LittleEndian | BigEndian

definition word_bytes :: "nat \<Rightarrow> 'a::len word \<Rightarrow> byte list" where
  "word_bytes n w = map (\<lambda>i. ucast (drop_bit (8 * i) w)) [0..<n]"

definition bytes_word :: "byte list \<Rightarrow> 'a::len word" where
  "bytes_word bs = foldr (\<lambda>b w. ucast b OR push_bit 8 w) bs 0"

definition object_bytes :: "byte_order \<Rightarrow> nat \<Rightarrow> 'a::len word \<Rightarrow> byte list" where
  "object_bytes bo n w =
     (case bo of LittleEndian \<Rightarrow> word_bytes n w | BigEndian \<Rightarrow> rev (word_bytes n w))"

definition object_word :: "byte_order \<Rightarrow> byte list \<Rightarrow> 'a::len word" where
  "object_word bo bs =
     (case bo of LittleEndian \<Rightarrow> bytes_word bs | BigEndian \<Rightarrow> bytes_word (rev bs))"

lemma length_word_bytes [simp]: "length (word_bytes n w) = n"
  by (simp add: word_bytes_def)

lemma length_object_bytes [simp]: "length (object_bytes bo n w) = n"
  by (simp add: object_bytes_def split: byte_order.split)

lemma bit_bytes_word:
  "bit (bytes_word bs :: 'a::len word) i \<longleftrightarrow>
     i < LENGTH('a) \<and> i div 8 < length bs \<and> bit (bs ! (i div 8)) (i mod 8)"
proof (induction bs arbitrary: i)
  case Nil
  then show ?case by (simp add: bytes_word_def)
next
  case (Cons b bs)
  have step: "(bytes_word (b # bs) :: 'a word) = ucast b OR push_bit 8 (bytes_word bs)"
    by (simp add: bytes_word_def)
  show ?case
  proof (cases "i < 8")
    case True
    then show ?thesis by (auto simp: step bit_simps)
  next
    case False
    then obtain j where j: "i = j + 8"
      by (metis le_add_diff_inverse2 not_less)
    then have "i div 8 = Suc (j div 8)" and "i mod 8 = j mod 8"
      by simp_all
    moreover have "\<not> bit b i"
      using j bit_imp_le_length [of b i] by auto
    ultimately show ?thesis
      using j by (auto simp: step bit_simps Cons.IH)
  qed
qed

lemma bytes_word_word_bytes:
  assumes "LENGTH('a::len) = 8 * n"
  shows "bytes_word (word_bytes n w) = (w :: 'a word)"
proof (rule bit_eqI)
  fix i
  assume "possible_bit TYPE('a word) i"
  then have i: "i < 8 * n" by (simp add: possible_bit_word assms)
  then have "i div 8 < n" by (simp add: less_mult_imp_div_less mult.commute)
  then show "bit (bytes_word (word_bytes n w) :: 'a word) i \<longleftrightarrow> bit w i"
    using i by (simp add: bit_bytes_word word_bytes_def assms bit_simps)
qed

lemma object_word_object_bytes [wire_simps]:
  "LENGTH('a::len) = 8 * n \<Longrightarrow> object_word bo (object_bytes bo n w) = (w :: 'a word)"
  by (cases bo) (simp_all add: object_word_def object_bytes_def bytes_word_word_bytes)

section \<open>The interface of a fixed-width field\<close>

text \<open>
  What the message codec relies on for every fixed-width field it stores: the bytes \<open>enc x\<close>
  of a value, a load \<open>rd\<close> through a pointer and a store \<open>wr\<close> at an offset of an object.
\<close>

locale wire_word =
  fixes width :: nat
    and enc :: "'a \<Rightarrow> byte list"
    and rd :: "mem \<Rightarrow> 'a option"
    and wr :: "mem \<Rightarrow> nat \<Rightarrow> 'a \<Rightarrow> mem option"
  assumes enc_length: "length (enc x) = width"
    and rd_enc: "rd (enc x @ rest) = Some x"
    and rd_short: "length p < width \<Longrightarrow> rd p = None"
    and rd_defined: "width \<le> length p \<Longrightarrow> \<exists>x. rd p = Some x"
    and wr_enc: "wr m off x = mem_write m off (enc x)"
begin

lemma rd_None_iff: "rd p = None \<longleftrightarrow> length p < width"
  using rd_short [of p] rd_defined [of p] by (cases "length p < width") auto

lemma enc_inject: "enc x @ xs = enc y @ ys \<longleftrightarrow> x = y \<and> xs = ys"
proof
  assume eq: "enc x @ xs = enc y @ ys"
  then have "rd (enc x @ xs) = rd (enc y @ ys)" by simp
  then have "x = y" by (simp add: rd_enc)
  with eq show "x = y \<and> xs = ys" by simp
qed simp

lemma wr_defined_iff: "(\<exists>m'. wr m off x = Some m') \<longleftrightarrow> off + width \<le> length m"
  by (simp add: wr_enc mem_write_Some_iff enc_length)

lemma rd_after_wr: "wr m off x = Some m' \<Longrightarrow> rd (drop off m') = Some x"
  by (auto simp: wr_enc mem_write_def rd_enc split: if_splits)

lemma wr_keeps_length: "wr m off x = Some m' \<Longrightarrow> length m' = length m"
  by (simp add: wr_enc mem_write_length)

end

end
