(* ===== verification/Smp_Error.thy ===== *)
theory Smp_Error
  imports Smp_Prelude
begin

text \<open>
  The error enumeration of \<open>include/libsmp.h\<close> and \<open>smp_error_to_string\<close> of
  \<open>src/libsmp.c\<close>. A function of the library that returns 0 (or a count) or a negative
  \<open>SmpError\<close> has a result of type \<open>smp_error + 'a\<close> in the model, \<^const>\<open>Inl\<close> the error.
\<close>

section \<open>The enumeration\<close>

datatype smp_error =
    SMP_ERROR_NONE
  | SMP_ERROR_INVALID_PARAM
  | SMP_ERROR_NO_MEM
  | SMP_ERROR_NO_DEVICE
  | SMP_ERROR_NOT_FOUND
  | SMP_ERROR_BUSY
  | SMP_ERROR_PERM
  | SMP_ERROR_BAD_FD
  | SMP_ERROR_NOT_SUPPORTED
  | SMP_ERROR_WOULD_BLOCK
  | SMP_ERROR_IO
  | SMP_ERROR_EXIST
  | SMP_ERROR_TOO_BIG
  | SMP_ERROR_TIMEDOUT
  | SMP_ERROR_OVERFLOW
  | SMP_ERROR_BAD_MESSAGE
  | SMP_ERROR_BAD_TYPE
  | SMP_ERROR_PIPE
  | SMP_ERROR_OTHER

fun error_code :: "smp_error \<Rightarrow> int" where
  "error_code SMP_ERROR_NONE = 0"
| "error_code SMP_ERROR_INVALID_PARAM = -1"
| "error_code SMP_ERROR_NO_MEM = -2"
| "error_code SMP_ERROR_NO_DEVICE = -3"
| "error_code SMP_ERROR_NOT_FOUND = -4"
| "error_code SMP_ERROR_BUSY = -5"
| "error_code SMP_ERROR_PERM = -6"
| "error_code SMP_ERROR_BAD_FD = -7"
| "error_code SMP_ERROR_NOT_SUPPORTED = -8"
| "error_code SMP_ERROR_WOULD_BLOCK = -9"
| "error_code SMP_ERROR_IO = -10"
| "error_code SMP_ERROR_EXIST = -11"
| "error_code SMP_ERROR_TOO_BIG = -12"
| "error_code SMP_ERROR_TIMEDOUT = -13"
| "error_code SMP_ERROR_OVERFLOW = -14"
| "error_code SMP_ERROR_BAD_MESSAGE = -15"
| "error_code SMP_ERROR_BAD_TYPE = -16"
| "error_code SMP_ERROR_PIPE = -17"
| "error_code SMP_ERROR_OTHER = -100"

text \<open>The C code compares errors as integers; the order of the type is that of the codes.\<close>

lemma error_code_inject [simp]: "error_code e = error_code e' \<longleftrightarrow> e = e'"
  by (cases e; cases e') simp_all

instantiation smp_error :: linorder
begin

definition less_eq_smp_error :: "smp_error \<Rightarrow> smp_error \<Rightarrow> bool" where
  "less_eq_smp_error e e' \<longleftrightarrow> error_code e \<le> error_code e'"

definition less_smp_error :: "smp_error \<Rightarrow> smp_error \<Rightarrow> bool" where
  "less_smp_error e e' \<longleftrightarrow> error_code e < error_code e'"

instance
  by standard (auto simp: less_eq_smp_error_def less_smp_error_def)

end

section \<open>Error strings\<close>

definition errstr :: "string list" where
  "errstr =
    [''none'', ''invalid parameter'', ''no more memory'', ''no such device'',
     ''entity not found'', ''device busy'', ''permission denied'', ''bad file descriptor'',
     ''operation not supported'', ''operation would block'', ''io error'',
     ''entity already exist'', ''too big'', ''operation timed out'', ''overflow'',
     ''bad message'', ''bad field type'', ''broken pipe'']"

definition ERR_STR_ARRAY_SIZE :: int where
  "ERR_STR_ARRAY_SIZE = (- error_code SMP_ERROR_PIPE) + 1"

text \<open>
  The parameter has an enumeration type, so a caller can pass any \<open>int\<close>. \<^const>\<open>None\<close> is a
  read of the table out of its bounds.
\<close>

definition smp_error_to_string :: "int \<Rightarrow> string option" where
  "smp_error_to_string error =
     (if error \<le> 0 \<and> error \<ge> - ERR_STR_ARRAY_SIZE
      then (if nat (- error) < length errstr then Some (errstr ! nat (- error)) else None)
      else if error = error_code SMP_ERROR_OTHER then Some ''other error''
      else Some ''unknown'')"

lemma errstr_facts:
  "length errstr = 18" "distinct errstr" "''other error'' \<notin> set errstr"
  by (simp_all add: errstr_def)

lemma error_to_string_enum:
  "smp_error_to_string (error_code e) =
     Some (if e = SMP_ERROR_OTHER then ''other error'' else errstr ! nat (- error_code e))"
  by (cases e) (simp_all add: smp_error_to_string_def ERR_STR_ARRAY_SIZE_def errstr_facts)

lemma error_code_index: "e \<noteq> SMP_ERROR_OTHER \<Longrightarrow> error_code e \<le> 0 \<and> nat (- error_code e) < 18"
  by (cases e) simp_all

text \<open>
  Every value of the error enumeration has its own text: the lookup never reads outside
  the table, and two different errors never share a text.
\<close>

theorem error_strings_distinct:
  "smp_error_to_string (error_code e) \<noteq> None \<and>
   (smp_error_to_string (error_code e) = smp_error_to_string (error_code e') \<longleftrightarrow> e = e')"
proof -
  have other: "errstr ! nat (- error_code x) \<noteq> ''other error''" if "x \<noteq> SMP_ERROR_OTHER" for x
    using error_code_index [OF that] errstr_facts by (metis nth_mem)
  have "errstr ! nat (- error_code e) = errstr ! nat (- error_code e') \<longleftrightarrow> e = e'"
    if "e \<noteq> SMP_ERROR_OTHER" "e' \<noteq> SMP_ERROR_OTHER"
    using error_code_index [OF that(1)] error_code_index [OF that(2)]
    by (auto simp: nth_eq_iff_index_eq [OF errstr_facts(2)] errstr_facts(1) nat_eq_iff)
  then show ?thesis
    using other [of e] other [of e'] by (auto simp: error_to_string_enum)
qed

text \<open>
  C34: The lookup is defined for every integer except -18, one past the last entry of the
  table: there the bounds test lets the index 18 through and the read is out of bounds.
\<close>

theorem error_to_string_out_of_bounds_iff:
  "smp_error_to_string c = None \<longleftrightarrow> c = -18"
  by (auto simp: smp_error_to_string_def ERR_STR_ARRAY_SIZE_def errstr_facts)

end
