(* ===== verification/Smp_Buffer.thy ===== *)
theory Smp_Buffer
  imports Smp_Error
begin

text \<open>
  \<open>src/buffer.c\<close> and \<open>src/buffer.h\<close>: the transmit buffers of a context. The structure is a
  record; releasing a buffer is modelled by the list of the releases it performs, in order.
  An allocation request is answered by a predicate on its size, an argument of the operation
  (\<^const>\<open>True\<close>: the C library returns a block of that size).
\<close>

section \<open>State\<close>

text \<open>
  \<open>SmpBufferFreeFunc\<close> is a function pointer: \<open>NULL\<close>, the default of \<open>buffer.c\<close>, or a function
  of the application, which is known by a number only.
\<close>

datatype free_func = NoFree | FreeDefault | UserFree nat

record smp_buffer =
  buf_data :: mem
  buf_maxsize :: size_t
  buf_free :: free_func
  buf_static :: bool

text \<open>What releasing a buffer does: \<open>free(data)\<close>, a call of the application's function, \<open>free(buffer)\<close>.\<close>

datatype release = ReleaseData | CallUserFree nat | ReleaseStruct

definition SIZEOF_BUFFER :: size_t where
  "SIZEOF_BUFFER = 32"

section \<open>Operations\<close>

definition smp_buffer_init :: "mem \<Rightarrow> size_t \<Rightarrow> free_func \<Rightarrow> bool \<Rightarrow> smp_buffer" where
  "smp_buffer_init data maxsize free_func statically_allocated =
     \<lparr>buf_data = data, buf_maxsize = maxsize, buf_free = free_func,
      buf_static = statically_allocated\<rparr>"

definition smp_buffer_free_default :: "smp_buffer \<Rightarrow> release list" where
  "smp_buffer_free_default b = [ReleaseData]"

text \<open>
  The two allocations (the structure, then the zeroed data) are answered separately. On
  failure of the second one the structure is released again.
\<close>

definition smp_buffer_new_allocate ::
  "(size_t \<Rightarrow> bool) \<Rightarrow> (size_t \<Rightarrow> bool) \<Rightarrow> size_t \<Rightarrow> smp_buffer option \<times> release list" where
  "smp_buffer_new_allocate alloc_struct alloc_data sz =
     (if \<not> alloc_struct SIZEOF_BUFFER then (None, [])
      else if \<not> alloc_data sz then (None, [ReleaseStruct])
      else (Some (smp_buffer_init (replicate (unat sz) 0) sz FreeDefault False), []))"

definition smp_buffer_new_from_static ::
  "bool \<Rightarrow> size_t \<Rightarrow> mem option \<Rightarrow> size_t \<Rightarrow> free_func \<Rightarrow> smp_buffer option" where
  "smp_buffer_new_from_static sbuffer_non_null struct_size data maxsize free_func =
     (if \<not> sbuffer_non_null then None
      else if \<not> struct_size \<ge> SIZEOF_BUFFER then None
      else case data of
        None \<Rightarrow> None
      | Some d \<Rightarrow>
          if \<not> maxsize > 0 then None
          else Some (smp_buffer_init d maxsize free_func True))"

definition smp_buffer_free :: "smp_buffer option \<Rightarrow> release list" where
  "smp_buffer_free buffer =
     (case buffer of
        None \<Rightarrow> []
      | Some b \<Rightarrow>
          (case buf_free b of
             NoFree \<Rightarrow> []
           | FreeDefault \<Rightarrow> smp_buffer_free_default b
           | UserFree k \<Rightarrow> [CallUserFree k])
          @ (if buf_static b then [] else [ReleaseStruct]))"

section \<open>Properties\<close>

text \<open>A buffer the library may write \<open>maxsize\<close> bytes of.\<close>

definition buffer_wf :: "smp_buffer \<Rightarrow> bool" where
  "buffer_wf b \<longleftrightarrow> unat (buf_maxsize b) \<le> length (buf_data b)"

lemma buffer_wf_new_allocate:
  "smp_buffer_new_allocate al1 al2 n = (Some b, rel) \<Longrightarrow> buffer_wf b \<and> buf_maxsize b = n \<and> rel = []"
  by (auto simp: smp_buffer_new_allocate_def smp_buffer_init_def buffer_wf_def split: if_splits)

text \<open>
  A buffer the library allocates is released exactly once: whatever \<open>smp_buffer_new_allocate\<close>
  returns, the releases it performs itself together with those of a later \<open>smp_buffer_free\<close> of
  its result give back each block that was obtained, data before structure, and nothing else.
\<close>

theorem buffer_allocate_free_balanced:
  "(case smp_buffer_new_allocate al1 al2 n of (b, rel) \<Rightarrow> rel @ smp_buffer_free b) =
     (if \<not> al1 SIZEOF_BUFFER then []
      else if \<not> al2 n then [ReleaseStruct]
      else [ReleaseData, ReleaseStruct])"
  by (simp add: smp_buffer_new_allocate_def smp_buffer_free_def smp_buffer_init_def
      smp_buffer_free_default_def)

end
