(* ===== verification/Smp_Serial_Protocol.thy ===== *)
theory Smp_Serial_Protocol
  imports Smp_Error
begin

text \<open>
  \<open>src/serial-protocol.c\<close>: the framing of a payload on the serial line. The decoder is a
  record with the fields of \<open>SmpSerialProtocolDecoder\<close>; each C function is one definition.
  The answer of \<open>realloc\<close>, \<open>calloc\<close> and \<open>malloc\<close> to a request is a predicate on its size,
  an argument of the operation that makes the request. An array parameter \<open>(buf, size)\<close> of a
  helper is the list of those \<open>size\<close> bytes.
\<close>

section \<open>State\<close>

definition START_BYTE :: byte where "START_BYTE = 0x10"
definition END_BYTE :: byte where "END_BYTE = 0xFF"
definition ESC_BYTE :: byte where "ESC_BYTE = 0x1B"

definition DEFAULT_BUFFER_SIZE :: size_t where
  "DEFAULT_BUFFER_SIZE = 1024"

text \<open>The limit of a decoder that allocates its buffer; \<open>avr\<close> says whether \<open>__AVR\<close> is defined.\<close>

definition DEFAULT_MAXIMUM_DECODER_BUFFER_SIZE :: "bool \<Rightarrow> size_t" where
  "DEFAULT_MAXIMUM_DECODER_BUFFER_SIZE avr = (if avr then 512 else 1 * 1024 * 1024)"

definition SIZEOF_DECODER :: size_t where
  "SIZEOF_DECODER = 48"

datatype decoder_state = WAIT_HEADER | IN_FRAME | IN_FRAME_ESC

record decoder =
  dec_state :: decoder_state
  dec_buf :: mem
  dec_bufsize :: size_t
  dec_offset :: size_t
  dec_maxsize :: size_t
  dec_static :: bool

type_synonym allocator = "size_t \<Rightarrow> bool"
type_synonym ret = "smp_error + unit"

abbreviation (input) ok :: ret where
  "ok \<equiv> Inr ()"

section \<open>Helpers\<close>

definition is_magic_byte :: "byte \<Rightarrow> bool" where
  "is_magic_byte b \<longleftrightarrow> b = START_BYTE \<or> b = END_BYTE \<or> b = ESC_BYTE"

definition compute_payload_size :: "byte list \<Rightarrow> size_t" where
  "compute_payload_size buf =
     foldl (\<lambda>ret b. if is_magic_byte b then ret + 1 else ret) (of_nat (length buf) + 4) buf"

definition compute_checksum :: "byte list \<Rightarrow> byte" where
  "compute_checksum buf = foldl (\<lambda>checksum b. checksum XOR b) 0 buf"

section \<open>The decoder\<close>

text \<open>\<open>realloc\<close> keeps the old contents; the code zeroes the bytes that are new.\<close>

definition decoder_set_capacity :: "allocator \<Rightarrow> decoder \<Rightarrow> size_t \<Rightarrow> ret \<times> decoder" where
  "decoder_set_capacity alloc d capacity =
     (if dec_static d then (Inl SMP_ERROR_TOO_BIG, d)
      else if capacity > dec_maxsize d then (Inl SMP_ERROR_TOO_BIG, d)
      else if \<not> alloc capacity then (Inl SMP_ERROR_NO_MEM, d)
      else
        (let new_ptr =
           (if capacity > dec_bufsize d
            then take (unat (dec_bufsize d)) (dec_buf d)
                 @ replicate (unat (capacity - dec_bufsize d)) 0
            else take (unat capacity) (dec_buf d))
         in (ok, d\<lparr>dec_buf := new_ptr, dec_bufsize := capacity\<rparr>)))"

definition decoder_store :: "decoder \<Rightarrow> byte \<Rightarrow> (ret \<times> decoder) option" where
  "decoder_store d b =
     do {
       buf \<leftarrow> mem_write (dec_buf d) (unat (dec_offset d)) [b];
       Some (ok, d\<lparr>dec_buf := buf, dec_offset := dec_offset d + 1\<rparr>)
     }"

definition decoder_put_byte :: "allocator \<Rightarrow> decoder \<Rightarrow> byte \<Rightarrow> (ret \<times> decoder) option" where
  "decoder_put_byte alloc d b =
     (if dec_offset d \<ge> dec_bufsize d then
        (let new_size = dec_bufsize d + DEFAULT_BUFFER_SIZE in
         if new_size < dec_bufsize d then Some (Inl SMP_ERROR_OVERFLOW, d)
         else case decoder_set_capacity alloc d new_size of
             (Inl e, d') \<Rightarrow> Some (Inl e, d')
           | (Inr _, d') \<Rightarrow> decoder_store d' b)
      else decoder_store d b)"

text \<open>
  The out-parameters \<open>*frame\<close> and \<open>*framesize\<close> are passed in and returned; \<open>*frame\<close> is the
  object \<open>decoder->buf\<close> when a frame is complete.
\<close>

definition process_byte_inframe ::
  "allocator \<Rightarrow> decoder \<Rightarrow> byte \<Rightarrow> mem option \<Rightarrow> size_t
   \<Rightarrow> (ret \<times> mem option \<times> size_t \<times> decoder) option" where
  "process_byte_inframe alloc d byte frame framesize =
     (if byte = START_BYTE then
        Some (Inl SMP_ERROR_BAD_MESSAGE, frame, framesize, d\<lparr>dec_offset := 0\<rparr>)
      else if byte = ESC_BYTE then
        Some (ok, frame, framesize, d\<lparr>dec_state := IN_FRAME_ESC\<rparr>)
      else if byte = END_BYTE then
        (if dec_offset d < 1 then
           Some (Inl SMP_ERROR_BAD_MESSAGE, frame, framesize, d\<lparr>dec_state := WAIT_HEADER\<rparr>)
         else do {
           let framesize = dec_offset d - 1;
           payload \<leftarrow> mem_read (dec_buf d) 0 (unat framesize);
           crc \<leftarrow> mem_get (dec_buf d) (unat (dec_offset d - 1));
           Some (if compute_checksum payload \<noteq> crc
                 then (Inl SMP_ERROR_BAD_MESSAGE, frame, framesize,
                       d\<lparr>dec_state := WAIT_HEADER\<rparr>)
                 else (ok, Some (dec_buf d), framesize, d\<lparr>dec_state := WAIT_HEADER\<rparr>))
         })
      else do {
        (ret, d') \<leftarrow> decoder_put_byte alloc d byte;
        Some (ret, frame, framesize, d')
      })"

definition decoder_dispatch ::
  "allocator \<Rightarrow> decoder \<Rightarrow> byte \<Rightarrow> (ret \<times> mem option \<times> size_t \<times> decoder) option" where
  "decoder_dispatch alloc d byte =
     (case dec_state d of
        WAIT_HEADER \<Rightarrow>
          Some (ok, None, 0,
            if byte = START_BYTE then d\<lparr>dec_state := IN_FRAME, dec_offset := 0\<rparr> else d)
      | IN_FRAME \<Rightarrow> process_byte_inframe alloc d byte None 0
      | IN_FRAME_ESC \<Rightarrow>
          do {
            (ret, d') \<leftarrow> decoder_put_byte alloc d byte;
            Some (case ret of
                Inl e \<Rightarrow> (Inl e, None, 0, d')
              | Inr _ \<Rightarrow> (ok, None, 0, d'\<lparr>dec_state := IN_FRAME\<rparr>))
          })"

text \<open>
  The body of \<open>smp_serial_protocol_decoder_process_byte\<close> after its checks of the arguments:
  the switch on the state, then the reset on error.
\<close>

definition process_byte ::
  "allocator \<Rightarrow> decoder \<Rightarrow> byte \<Rightarrow> (ret \<times> mem option \<times> size_t \<times> decoder) option" where
  "process_byte alloc d byte =
     do {
       (ret, frame, framesize, d') \<leftarrow> decoder_dispatch alloc d byte;
       Some (ret, frame, framesize,
         if ret \<noteq> ok \<and> byte \<noteq> START_BYTE then d'\<lparr>dec_state := WAIT_HEADER\<rparr> else d')
     }"

text \<open>
  The whole function: \<^const>\<open>None\<close> for a null decoder, and whether the two out-parameters are
  non-null. On \<open>SMP_ERROR_INVALID_PARAM\<close> nothing is written.
\<close>

definition smp_serial_protocol_decoder_process_byte ::
  "allocator \<Rightarrow> decoder option \<Rightarrow> byte \<Rightarrow> bool \<Rightarrow> bool
   \<Rightarrow> (ret \<times> (mem option \<times> size_t) option \<times> decoder option) option" where
  "smp_serial_protocol_decoder_process_byte alloc decoder byte frame_non_null framesize_non_null =
     (case decoder of
        None \<Rightarrow> Some (Inl SMP_ERROR_INVALID_PARAM, None, None)
      | Some d \<Rightarrow>
          if \<not> frame_non_null then Some (Inl SMP_ERROR_INVALID_PARAM, None, Some d)
          else if \<not> framesize_non_null then Some (Inl SMP_ERROR_INVALID_PARAM, None, Some d)
          else do {
            (ret, frame, framesize, d') \<leftarrow> process_byte alloc d byte;
            Some (ret, Some (frame, framesize), Some d')
          })"

text \<open>
  \<open>smp_serial_protocol_decoder_init\<close> writes into the given structure: the fields it does not
  set keep what the storage held.
\<close>

definition decoder_init ::
  "bool \<Rightarrow> allocator \<Rightarrow> decoder \<Rightarrow> mem option \<Rightarrow> size_t \<Rightarrow> bool \<Rightarrow> ret \<times> decoder" where
  "decoder_init avr alloc d buf bufsize statically_allocated =
     (let d1 = d\<lparr>dec_state := WAIT_HEADER, dec_static := statically_allocated\<rparr> in
      case buf of
        None \<Rightarrow>
          decoder_set_capacity alloc
            (d1\<lparr>dec_maxsize := DEFAULT_MAXIMUM_DECODER_BUFFER_SIZE avr\<rparr>) bufsize
      | Some b \<Rightarrow> (ok, d1\<lparr>dec_buf := b, dec_bufsize := bufsize, dec_maxsize := bufsize\<rparr>))"

definition zeroed_decoder :: decoder where
  "zeroed_decoder =
     \<lparr>dec_state = WAIT_HEADER, dec_buf = [], dec_bufsize = 0, dec_offset = 0, dec_maxsize = 0,
      dec_static = False\<rparr>"

definition smp_serial_protocol_decoder_new ::
  "bool \<Rightarrow> allocator \<Rightarrow> allocator \<Rightarrow> size_t \<Rightarrow> decoder option" where
  "smp_serial_protocol_decoder_new avr alloc_struct alloc_buf bufsize =
     (if \<not> alloc_struct SIZEOF_DECODER then None
      else
        (let bufsize = (if bufsize = 0 then DEFAULT_BUFFER_SIZE else bufsize) in
         case decoder_init avr alloc_buf zeroed_decoder None bufsize False of
           (Inl _, _) \<Rightarrow> None
         | (Inr _, d) \<Rightarrow> Some d))"

definition smp_serial_protocol_decoder_new_from_static ::
  "bool \<Rightarrow> decoder option \<Rightarrow> size_t \<Rightarrow> mem option \<Rightarrow> size_t \<Rightarrow> decoder option" where
  "smp_serial_protocol_decoder_new_from_static avr sdec struct_size buf bufsize =
     (case sdec of
        None \<Rightarrow> None
      | Some storage \<Rightarrow>
          if \<not> struct_size \<ge> SIZEOF_DECODER then None
          else if buf = None then None
          else if \<not> bufsize \<noteq> 0 then None
          else case decoder_init avr (\<lambda>_. False) storage buf bufsize True of
              (Inl _, _) \<Rightarrow> None
            | (Inr _, d) \<Rightarrow> Some d)"

text \<open>The blocks \<open>smp_serial_protocol_decoder_free\<close> gives back: the buffer, then the structure.\<close>

datatype decoder_release = FreeDecoderBuf | FreeDecoder

definition smp_serial_protocol_decoder_free :: "decoder option \<Rightarrow> decoder_release list" where
  "smp_serial_protocol_decoder_free decoder =
     (case decoder of
        None \<Rightarrow> []
      | Some d \<Rightarrow> if dec_static d then [] else [FreeDecoderBuf, FreeDecoder])"

definition smp_serial_protocol_decoder_set_maximum_capacity ::
  "decoder option \<Rightarrow> size_t \<Rightarrow> ret \<times> decoder option" where
  "smp_serial_protocol_decoder_set_maximum_capacity decoder cap =
     (case decoder of
        None \<Rightarrow> (Inl SMP_ERROR_INVALID_PARAM, None)
      | Some d \<Rightarrow>
          if \<not> cap \<ge> 5 then (Inl SMP_ERROR_INVALID_PARAM, Some d)
          else (ok, Some (d\<lparr>dec_maxsize := cap\<rparr>)))"

section \<open>The encoder\<close>

text \<open>Returns the number of bytes written at \<open>dest\<close>, here the object and an offset into it.\<close>

definition serial_write_byte :: "mem \<Rightarrow> size_t \<Rightarrow> byte \<Rightarrow> (size_t \<times> mem) option" where
  "serial_write_byte dest off byte =
     (if is_magic_byte byte then do {
        dest1 \<leftarrow> mem_write dest (unat off) [ESC_BYTE];
        dest2 \<leftarrow> mem_write dest1 (unat (off + 1)) [byte];
        Some (2, dest2)
      } else do {
        dest1 \<leftarrow> mem_write dest (unat off) [byte];
        Some (1, dest1)
      })"

fun serial_write_payload :: "mem \<Rightarrow> size_t \<Rightarrow> byte list \<Rightarrow> (size_t \<times> mem) option" where
  "serial_write_payload txbuf off [] = Some (off, txbuf)"
| "serial_write_payload txbuf off (b # bs) =
     do {
       (n, txbuf') \<leftarrow> serial_write_byte txbuf off b;
       serial_write_payload txbuf' (off + n) bs
     }"

definition serial_write_frame :: "mem \<Rightarrow> byte list \<Rightarrow> (size_t \<times> mem) option" where
  "serial_write_frame txbuf inbuf =
     do {
       txbuf1 \<leftarrow> mem_write txbuf 0 [START_BYTE];
       (off, txbuf2) \<leftarrow> serial_write_payload txbuf1 1 inbuf;
       (n, txbuf3) \<leftarrow> serial_write_byte txbuf2 off (compute_checksum inbuf);
       txbuf4 \<leftarrow> mem_write txbuf3 (unat (off + n)) [END_BYTE];
       Some (off + n + 1, txbuf4)
     }"

text \<open>
  \<open>outbuf\<close> is null, or points to a pointer that is null (the buffer is allocated; \<open>junk\<close> is
  what \<open>malloc\<close> left in it) or to the caller's buffer. The result is the number of bytes of
  the frame, and the buffer \<open>*outbuf\<close> holds afterwards.
\<close>

definition smp_serial_protocol_encode ::
  "allocator \<Rightarrow> (nat \<Rightarrow> byte) \<Rightarrow> mem option \<Rightarrow> size_t \<Rightarrow> mem option option \<Rightarrow> size_t
   \<Rightarrow> ((smp_error + size_t) \<times> mem option option) option" where
  "smp_serial_protocol_encode alloc junk inbuf insize outbuf outsize =
     (case inbuf of
        None \<Rightarrow> Some (Inl SMP_ERROR_INVALID_PARAM, outbuf)
      | Some inp \<Rightarrow> (case outbuf of
          None \<Rightarrow> Some (Inl SMP_ERROR_INVALID_PARAM, outbuf)
        | Some out \<Rightarrow>
            if \<not> (out = None \<or> outsize > 0) then Some (Inl SMP_ERROR_INVALID_PARAM, outbuf)
            else do {
              payload \<leftarrow> mem_read inp 0 (unat insize);
              let payload_size = compute_payload_size payload;
              case out of
                None \<Rightarrow>
                  if \<not> alloc payload_size then Some (Inl SMP_ERROR_NO_MEM, outbuf)
                  else do {
                    (n, txbuf) \<leftarrow> serial_write_frame (map junk [0..<unat payload_size]) payload;
                    Some (Inr n, Some (Some txbuf))
                  }
              | Some txbuf \<Rightarrow>
                  if outsize < payload_size then Some (Inl SMP_ERROR_OVERFLOW, outbuf)
                  else do {
                    (n, txbuf') \<leftarrow> serial_write_frame txbuf payload;
                    Some (Inr n, Some (Some txbuf'))
                  }
            }))"

end
