(* ===== verification/Smp_Machine.thy ===== *)
theory Smp_Machine
  imports Smp_Prelude
begin

text \<open>
  Components that consume a sequence of inputs one at a time: the run of a step function that
  may fault, and the interfaces of such a machine that clients rely on. \<open>safe_machine\<close> is a
  machine with an invariant under which no step faults; \<open>framing\<close> is a machine that cuts
  frames out of a byte stream.
\<close>

section \<open>Runs\<close>

fun run_steps :: "('s \<Rightarrow> 'i \<Rightarrow> ('o \<times> 's) option) \<Rightarrow> 's \<Rightarrow> 'i list \<Rightarrow> ('o list \<times> 's) option" where
  "run_steps f s [] = Some ([], s)"
| "run_steps f s (i # is) =
     (case f s i of
        None \<Rightarrow> None
      | Some (out, s') \<Rightarrow>
          (case run_steps f s' is of
             None \<Rightarrow> None
           | Some (outs, s'') \<Rightarrow> Some (out # outs, s'')))"

lemma run_steps_append:
  "run_steps f s (is @ js) =
     (case run_steps f s is of
        None \<Rightarrow> None
      | Some (outs, s') \<Rightarrow>
          (case run_steps f s' js of
             None \<Rightarrow> None
           | Some (outs', s'') \<Rightarrow> Some (outs @ outs', s'')))"
  by (induction "is" arbitrary: s) (auto split: option.splits prod.splits)

lemma run_steps_appendE:
  assumes "run_steps f s (is @ js) = Some (outs, s')"
  obtains outs1 outs2 s1 where "run_steps f s is = Some (outs1, s1)"
    and "run_steps f s1 js = Some (outs2, s')" and "outs = outs1 @ outs2"
  using assms by (auto simp: run_steps_append split: option.splits)

lemma run_steps_ConsE:
  assumes "run_steps f s (i # is) = Some (outs, s')"
  obtains out s1 outs' where "f s i = Some (out, s1)"
    and "run_steps f s1 is = Some (outs', s')" and "outs = out # outs'"
  using assms by (auto split: option.splits)

lemma run_steps_length: "run_steps f s is = Some (outs, s') \<Longrightarrow> length outs = length is"
  by (induction "is" arbitrary: s outs) (auto elim!: run_steps_ConsE simp del: run_steps.simps(2))

section \<open>Machines with an invariant\<close>

locale safe_machine =
  fixes step :: "'s \<Rightarrow> 'i \<Rightarrow> ('o \<times> 's) option"
    and inv :: "'s \<Rightarrow> bool"
  assumes progress: "inv s \<Longrightarrow> \<exists>out s'. step s i = Some (out, s') \<and> inv s'"
begin

lemma step_inv: "inv s \<Longrightarrow> step s i = Some (out, s') \<Longrightarrow> inv s'"
  using progress [of s i] by auto

lemma run_progress: "inv s \<Longrightarrow> \<exists>outs s'. run_steps step s is = Some (outs, s') \<and> inv s'"
proof (induction "is" arbitrary: s)
  case Nil
  then show ?case by simp
next
  case (Cons i "is")
  from progress [OF Cons.prems] obtain out s1
    where "step s i = Some (out, s1)" and "inv s1" by blast
  with Cons.IH [OF \<open>inv s1\<close>] show ?case by auto
qed

lemma run_inv: "inv s \<Longrightarrow> run_steps step s is = Some (outs, s') \<Longrightarrow> inv s'"
  using run_progress [of s "is"] by auto

end

section \<open>Machines that cut frames out of a byte stream\<close>

text \<open>
  \<open>idle\<close>: between two frames. \<open>report out\<close>: what an output tells the client, if anything. \<open>frame f\<close>:
  the bytes of the frame \<open>f\<close>; \<open>result f\<close>: the only report of it. \<open>fits s is n\<close>: from state \<open>s\<close>, with
  inputs \<open>is\<close>, a payload of \<open>n\<close> bytes has room. \<open>noise\<close>: a byte that cannot begin a frame.
\<close>

locale framing = safe_machine step inv
  for step :: "'s \<Rightarrow> 'i \<Rightarrow> ('o \<times> 's) option" and inv :: "'s \<Rightarrow> bool" +
  fixes idle :: "'s \<Rightarrow> bool"
    and fits :: "'s \<Rightarrow> 'i list \<Rightarrow> nat \<Rightarrow> bool"
    and byte_of :: "'i \<Rightarrow> byte"
    and report :: "'o \<Rightarrow> 'r option"
    and frame :: "'f \<Rightarrow> byte list"
    and frame_size :: "'f \<Rightarrow> nat"
    and result :: "'f \<Rightarrow> 'r"
    and noise :: "byte \<Rightarrow> bool"
  assumes quiet: "inv s \<Longrightarrow> idle s \<Longrightarrow> noise (byte_of i) \<Longrightarrow> step s i = Some (out, s') \<Longrightarrow>
      idle s' \<and> report out = None"
    and frame_run: "inv s \<Longrightarrow> idle s \<Longrightarrow> fits s is (frame_size f) \<Longrightarrow> map byte_of is = frame f \<Longrightarrow>
      run_steps step s is = Some (outs, s') \<Longrightarrow>
      idle s' \<and> List.map_filter report outs = [result f]"
    and fits_prefix: "fits s (is @ js) n \<Longrightarrow> fits s is n"
    and fits_run: "inv s \<Longrightarrow> fits s (is @ js) n \<Longrightarrow> run_steps step s is = Some (outs, s') \<Longrightarrow>
      fits s' js n"
begin

lemma quiet_run:
  "inv s \<Longrightarrow> idle s \<Longrightarrow> \<forall>i\<in>set is. noise (byte_of i) \<Longrightarrow> run_steps step s is = Some (outs, s') \<Longrightarrow>
   idle s' \<and> List.map_filter report outs = []"
proof (induction "is" arbitrary: s outs)
  case Nil
  then show ?case by (simp add: map_filter_simps)
next
  case (Cons i "is")
  from Cons.prems(4) obtain out s1 outs' where st: "step s i = Some (out, s1)"
    and rn: "run_steps step s1 is = Some (outs', s')" and outs: "outs = out # outs'"
    by (rule run_steps_ConsE)
  from Cons.prems st have "idle s1 \<and> report out = None" by (intro quiet) auto
  moreover from Cons.prems(1) st have "inv s1" by (rule step_inv)
  ultimately show ?case
    using Cons.IH [OF _ _ _ rn] Cons.prems(3) by (simp add: outs map_filter_simps)
qed

text \<open>A stream of frames with noise before each of them yields exactly their results.\<close>

lemma stream_run:
  "inv s \<Longrightarrow> idle s \<Longrightarrow> \<forall>(ns, f)\<in>set segs. (\<forall>b\<in>set ns. noise b) \<and> fits s is (frame_size f) \<Longrightarrow>
   map byte_of is = concat (map (\<lambda>(ns, f). ns @ frame f) segs) \<Longrightarrow>
   run_steps step s is = Some (outs, s') \<Longrightarrow>
   idle s' \<and> List.map_filter report outs = map (\<lambda>(ns, f). result f) segs"
proof (induction segs arbitrary: s "is" outs)
  case Nil
  then show ?case by (simp add: map_filter_simps)
next
  case (Cons seg segs)
  obtain ns f where seg: "seg = (ns, f)" by (cases seg)
  from Cons.prems(4) obtain is1 is2 is3 where "is": "is = is1 @ is2 @ is3"
    and m1: "map byte_of is1 = ns" and m2: "map byte_of is2 = frame f"
    and m3: "map byte_of is3 = concat (map (\<lambda>(ns, f). ns @ frame f) segs)"
    by (auto simp: seg map_eq_append_conv append_eq_map_conv)
  from Cons.prems(5) obtain o1 o2 o3 s1 s2
    where r1: "run_steps step s is1 = Some (o1, s1)"
      and r2: "run_steps step s1 is2 = Some (o2, s2)"
      and r3: "run_steps step s2 is3 = Some (o3, s')"
      and outs: "outs = o1 @ o2 @ o3"
    unfolding "is" by (elim run_steps_appendE) auto
  have i1: "inv s1" using Cons.prems(1) r1 by (rule run_inv)
  have i2: "inv s2" using i1 r2 by (rule run_inv)
  have noise1: "\<forall>i\<in>set is1. noise (byte_of i)"
    using Cons.prems(3) m1 by (auto simp: seg)
  have q1: "idle s1 \<and> List.map_filter report o1 = []"
    using Cons.prems(1,2) noise1 r1 by (rule quiet_run)
  have fits1: "fits s1 (is2 @ is3) n" if "fits s is n" for n
    using fits_run [OF Cons.prems(1) _ r1] that by (simp add: "is")
  have fits2: "fits s2 is3 n" if "fits s is n" for n
    using fits_run [OF i1 fits1 [OF that] r2] .
  have "fits s1 is2 (frame_size f)"
    using fits_prefix [OF fits1] Cons.prems(3) by (auto simp: seg)
  then have q2: "idle s2 \<and> List.map_filter report o2 = [result f]"
    using frame_run [OF i1 _ _ m2 r2] q1 by blast
  have "\<forall>(ns, f)\<in>set segs. (\<forall>b\<in>set ns. noise b) \<and> fits s2 is3 (frame_size f)"
    using Cons.prems(3) fits2 by fastforce
  then have "idle s' \<and> List.map_filter report o3 = map (\<lambda>(ns, f). result f) segs"
    using Cons.IH [OF i2 _ _ m3 r3] q2 by blast
  with q1 q2 show ?case
    by (auto simp: outs seg map_filter_def)
qed

end

end
