(* ===== verification/Smp_Serial_Decoder.thy ===== *)
theory Smp_Serial_Decoder
  imports Smp_Serial_Protocol Smp_Machine
begin

text \<open>
  The decoder of \<open>src/serial-protocol.c\<close> against its specification: an abstract machine that
  collects the unescaped bytes of a frame. The invariant keeps every access of the decoder
  inside its buffer; under it each step of the code is one step of the abstract machine.
\<close>

section \<open>Invariant\<close>

text \<open>
  The offset means something inside a frame only: \<open>decoder_init\<close> does not set it, so in static
  storage it holds what the storage held until the first start byte.
\<close>

definition decoder_inv :: "decoder \<Rightarrow> bool" where
  "decoder_inv d \<longleftrightarrow> unat (dec_bufsize d) \<le> length (dec_buf d) \<and>
     (dec_state d \<noteq> WAIT_HEADER \<longrightarrow> dec_offset d \<le> dec_bufsize d)"

section \<open>The abstract decoder\<close>

datatype abs_decoder = Idle | Receiving "byte list" | Escaping "byte list"

definition abs_decoder :: "decoder \<Rightarrow> abs_decoder" where
  "abs_decoder d =
     (let received = take (unat (dec_offset d)) (dec_buf d) in
      case dec_state d of
        WAIT_HEADER \<Rightarrow> Idle
      | IN_FRAME \<Rightarrow> Receiving received
      | IN_FRAME_ESC \<Rightarrow> Escaping received)"

text \<open>
  \<open>room\<close> is the outcome of making room for one more byte. A frame is complete at the end byte
  when the exclusive or of all collected bytes, the checksum included, is zero.
\<close>

fun abs_step :: "ret \<Rightarrow> abs_decoder \<Rightarrow> byte \<Rightarrow> (smp_error + byte list option) \<times> abs_decoder" where
  "abs_step room Idle b = (Inr None, if b = START_BYTE then Receiving [] else Idle)"
| "abs_step room (Receiving xs) b =
     (if b = START_BYTE then (Inl SMP_ERROR_BAD_MESSAGE, Receiving [])
      else if b = ESC_BYTE then (Inr None, Escaping xs)
      else if b = END_BYTE then
        (if xs \<noteq> [] \<and> compute_checksum xs = 0 then (Inr (Some (butlast xs)), Idle)
         else (Inl SMP_ERROR_BAD_MESSAGE, Idle))
      else case room of
          Inl e \<Rightarrow> (Inl e, Idle)
        | Inr _ \<Rightarrow> (Inr None, Receiving (xs @ [b])))"
| "abs_step room (Escaping xs) b =
     (case room of
        Inl e \<Rightarrow> (Inl e, if b = START_BYTE then Escaping xs else Idle)
      | Inr _ \<Rightarrow> (Inr None, Receiving (xs @ [b])))"

definition decoder_room :: "allocator \<Rightarrow> decoder \<Rightarrow> ret" where
  "decoder_room alloc d =
     (if dec_offset d < dec_bufsize d then ok
      else if dec_bufsize d + DEFAULT_BUFFER_SIZE < dec_bufsize d then Inl SMP_ERROR_OVERFLOW
      else if dec_static d \<or> dec_bufsize d + DEFAULT_BUFFER_SIZE > dec_maxsize d
        then Inl SMP_ERROR_TOO_BIG
      else if \<not> alloc (dec_bufsize d + DEFAULT_BUFFER_SIZE) then Inl SMP_ERROR_NO_MEM
      else ok)"

text \<open>What a caller observes of a step: the error, or the payload of a complete frame.\<close>

fun observed :: "ret \<times> mem option \<times> size_t \<Rightarrow> smp_error + byte list option" where
  "observed (Inl e, frame, n) = Inl e"
| "observed (Inr _, frame, n) = Inr (map_option (take (unat n)) frame)"

section \<open>Checksum\<close>

lemma compute_checksum_foldl: "foldl (\<lambda>checksum b. checksum XOR b) c bs = c XOR compute_checksum bs"
proof (induction bs arbitrary: c)
  case Nil
  then show ?case by (simp add: compute_checksum_def)
next
  case (Cons b bs)
  have "compute_checksum (b # bs) = b XOR compute_checksum bs"
    using Cons [of b] by (simp add: compute_checksum_def)
  then show ?case by (simp add: Cons xor.assoc)
qed

lemma compute_checksum_Nil [simp]: "compute_checksum [] = 0"
  by (simp add: compute_checksum_def)

lemma compute_checksum_append [simp]:
  "compute_checksum (xs @ ys) = compute_checksum xs XOR compute_checksum ys"
  using compute_checksum_foldl [of "compute_checksum xs" ys] by (simp add: compute_checksum_def)

lemma compute_checksum_single [simp]: "compute_checksum [b] = b"
  by (simp add: compute_checksum_def)

lemma xor_eq_0_iff: "(a XOR b = 0) \<longleftrightarrow> (a = (b :: 'a::len word))"
  by (metis xor.left_neutral xor.assoc xor_self_eq xor.right_neutral)

section \<open>Making room\<close>

lemma decoder_store_fits:
  assumes "unat (dec_bufsize d) \<le> length (dec_buf d)" and "dec_offset d < dec_bufsize d"
  shows "\<exists>buf. decoder_store d b = Some (ok, d\<lparr>dec_buf := buf, dec_offset := dec_offset d + 1\<rparr>) \<and>
    length buf = length (dec_buf d) \<and>
    take (unat (dec_offset d + 1)) buf = take (unat (dec_offset d)) (dec_buf d) @ [b]"
proof -
  from assms have off: "unat (dec_offset d) < length (dec_buf d)"
    by (simp add: word_less_nat_alt)
  have "unat (dec_offset d) + 1 \<le> unat (dec_bufsize d)"
    using assms(2) by (simp add: word_less_nat_alt)
  also have "\<dots> < 2 ^ 64" by (rule unat_less_2_64)
  finally have "unat (dec_offset d + 1) = Suc (unat (dec_offset d))"
    by (simp add: unat_add_size)
  with off show ?thesis
    by (intro exI [of _ "take (unat (dec_offset d)) (dec_buf d) @ b #
        drop (Suc (unat (dec_offset d))) (dec_buf d)"])
       (simp add: decoder_store_def mem_write_def)
qed

lemma offset_below:
  "(a :: size_t) < b \<Longrightarrow> a + 1 \<le> b"
  by (rule inc_le)

text \<open>What \<open>decoder_put_byte\<close> does, given the outcome of making room.\<close>

lemma put_byte_room:
  assumes "unat (dec_bufsize d) \<le> length (dec_buf d)" and "dec_offset d \<le> dec_bufsize d"
  shows "case decoder_room alloc d of
      Inl e \<Rightarrow> decoder_put_byte alloc d b = Some (Inl e, d)
    | Inr _ \<Rightarrow> \<exists>d'. decoder_put_byte alloc d b = Some (ok, d') \<and>
        unat (dec_bufsize d') \<le> length (dec_buf d') \<and>
        dec_offset d' = dec_offset d + 1 \<and> dec_offset d' \<le> dec_bufsize d' \<and>
        take (unat (dec_offset d')) (dec_buf d') = take (unat (dec_offset d)) (dec_buf d) @ [b] \<and>
        dec_state d' = dec_state d \<and> dec_static d' = dec_static d \<and>
        dec_maxsize d' = dec_maxsize d \<and> dec_bufsize d \<le> dec_bufsize d'"
proof (cases "dec_offset d < dec_bufsize d")
  case True
  with decoder_store_fits [OF assms(1) True, of b] assms(1) show ?thesis
    by (auto simp: decoder_room_def decoder_put_byte_def offset_below)
next
  case False
  let ?new = "dec_bufsize d + DEFAULT_BUFFER_SIZE"
  have full: "dec_offset d = dec_bufsize d" using False assms(2) by simp
  show ?thesis
  proof (cases "decoder_room alloc d")
    case (Inl e)
    then show ?thesis using False
      by (auto simp: decoder_room_def decoder_put_byte_def decoder_set_capacity_def Let_def
          split: if_splits)
  next
    case (Inr u)
    have new: "\<not> ?new < dec_bufsize d" "\<not> dec_static d" "\<not> ?new > dec_maxsize d" "alloc ?new"
      using Inr False by (auto simp: decoder_room_def split: if_splits)
    have gt: "dec_bufsize d < ?new"
      using new(1) by (simp add: DEFAULT_BUFFER_SIZE_def order.strict_iff_order not_less)
    define d1 where "d1 = d\<lparr>dec_buf := take (unat (dec_bufsize d)) (dec_buf d) @
        replicate (unat (?new - dec_bufsize d)) 0, dec_bufsize := ?new\<rparr>"
    have "unat (?new - dec_bufsize d) = unat ?new - unat (dec_bufsize d)"
      using gt by (intro unat_sub) simp
    then have len: "length (dec_buf d1) = unat ?new"
      using assms(1) gt by (simp add: d1_def word_less_nat_alt)
    have "decoder_put_byte alloc d b = decoder_store d1 b"
      using full new gt
      by (simp add: decoder_put_byte_def decoder_set_capacity_def d1_def Let_def)
    with decoder_store_fits [of d1 b] len gt full assms(1) Inr show ?thesis
      by (auto simp: d1_def offset_below)
  qed
qed

section \<open>Refinement\<close>

definition decoder_step ::
  "decoder \<Rightarrow> allocator \<times> byte \<Rightarrow> ((ret \<times> mem option \<times> size_t) \<times> decoder) option" where
  "decoder_step d i =
     map_option (\<lambda>(ret, frame, framesize, d'). ((ret, frame, framesize), d'))
       (process_byte (fst i) d (snd i))"

text \<open>
  One step of the code against one step of the abstract decoder. Besides the refinement it
  says what no step changes, and that an error never comes with a frame.
\<close>

definition step_refines ::
  "allocator \<Rightarrow> decoder \<Rightarrow> byte \<Rightarrow> ret \<times> mem option \<times> size_t \<Rightarrow> decoder \<Rightarrow> bool" where
  "step_refines alloc d b out d' \<longleftrightarrow>
     decoder_inv d' \<and>
     (observed out, abs_decoder d') = abs_step (decoder_room alloc d) (abs_decoder d) b \<and>
     (fst out \<noteq> ok \<longrightarrow> fst (snd out) = None) \<and>
     dec_static d' = dec_static d \<and> dec_maxsize d' = dec_maxsize d \<and>
     dec_bufsize d \<le> dec_bufsize d'"

lemma magic_distinct [simp]:
  "START_BYTE \<noteq> END_BYTE" "END_BYTE \<noteq> START_BYTE" "START_BYTE \<noteq> ESC_BYTE"
  "ESC_BYTE \<noteq> START_BYTE" "END_BYTE \<noteq> ESC_BYTE" "ESC_BYTE \<noteq> END_BYTE"
  by (simp_all add: START_BYTE_def END_BYTE_def ESC_BYTE_def)

lemma step_refines_put:
  assumes inv: "decoder_inv d" and state: "dec_state d \<noteq> WAIT_HEADER"
    and plain: "dec_state d = IN_FRAME \<Longrightarrow> \<not> is_magic_byte b"
  shows "\<exists>out d'. decoder_step d (alloc, b) = Some (out, d') \<and> step_refines alloc d b out d'"
proof -
  have room: "unat (dec_bufsize d) \<le> length (dec_buf d)" "dec_offset d \<le> dec_bufsize d"
    using inv state by (simp_all add: decoder_inv_def)
  show ?thesis
    using put_byte_room [OF room, of alloc b] inv state plain
    by (cases "decoder_room alloc d"; cases "dec_state d")
       (auto simp: decoder_step_def process_byte_def decoder_dispatch_def step_refines_def
        process_byte_inframe_def is_magic_byte_def abs_decoder_def Let_def decoder_inv_def)
qed

lemma step_refines_end:
  assumes inv: "decoder_inv d" and state: "dec_state d = IN_FRAME"
  shows "\<exists>out d'. decoder_step d (alloc, END_BYTE) = Some (out, d') \<and>
    step_refines alloc d END_BYTE out d'"
proof (cases "dec_offset d < 1")
  case True
  then have "dec_offset d = 0" by (simp add: word_less_1)
  then show ?thesis using inv state
    by (simp add: decoder_step_def process_byte_def decoder_dispatch_def step_refines_def
        process_byte_inframe_def abs_decoder_def Let_def decoder_inv_def)
next
  case False
  let ?n = "unat (dec_offset d - 1)" and ?buf = "dec_buf d"
  have pos: "0 < dec_offset d" using False by (simp add: word_less_1 word_neq_0_conv)
  have off: "unat (dec_offset d) = Suc ?n"
    using pos by (simp add: unat_minus_one word_neq_0_conv [symmetric] unat_gt_0)
  have "unat (dec_offset d) \<le> length ?buf"
    using inv state by (simp add: decoder_inv_def word_le_nat_alt)
  then have n: "?n < length ?buf" using off by simp
  have received: "take (unat (dec_offset d)) ?buf = take ?n ?buf @ [?buf ! ?n]"
    using n off by (simp add: take_Suc_conv_app_nth)
  have "compute_checksum (take ?n ?buf) = ?buf ! ?n \<longleftrightarrow>
      compute_checksum (take (unat (dec_offset d)) ?buf) = 0"
    by (simp add: received xor_eq_0_iff)
  then show ?thesis using inv state False n received
    by (simp add: decoder_step_def process_byte_def decoder_dispatch_def step_refines_def
        process_byte_inframe_def abs_decoder_def Let_def decoder_inv_def mem_read_def
        mem_get_def butlast_append)
qed

lemma decoder_step_refines:
  assumes inv: "decoder_inv d"
  shows "\<exists>out d'. decoder_step d (alloc, b) = Some (out, d') \<and> step_refines alloc d b out d'"
proof (cases "dec_state d")
  case WAIT_HEADER
  with inv show ?thesis
    by (auto simp: decoder_step_def process_byte_def decoder_dispatch_def step_refines_def
        abs_decoder_def Let_def decoder_inv_def)
next
  case IN_FRAME_ESC
  with inv show ?thesis by (intro step_refines_put) auto
next
  case IN_FRAME
  consider "b = START_BYTE" | "b = ESC_BYTE" | "b = END_BYTE" | "\<not> is_magic_byte b"
    by (auto simp: is_magic_byte_def)
  then show ?thesis
  proof cases
    case 3
    with step_refines_end [OF inv IN_FRAME, of alloc] show ?thesis by simp
  next
    case 4
    with inv IN_FRAME show ?thesis by (intro step_refines_put) auto
  qed (use inv IN_FRAME in \<open>auto simp: decoder_step_def process_byte_def decoder_dispatch_def
      step_refines_def process_byte_inframe_def abs_decoder_def Let_def decoder_inv_def\<close>)
qed

interpretation decoder_machine: safe_machine decoder_step decoder_inv
proof
  fix d :: decoder and i :: "allocator \<times> byte"
  assume "decoder_inv d"
  then show "\<exists>out d'. decoder_step d i = Some (out, d') \<and> decoder_inv d'"
    using decoder_step_refines [of d "fst i" "snd i"] by (auto simp: step_refines_def)
qed

end
