(* ===== verification/Smp_Serial_Framing.thy ===== *)
theory Smp_Serial_Framing
  imports Smp_Serial_Decoder
begin

text \<open>
  The frame format of \<open>docs/protocols/serial-protocol.rst\<close> as a function of the payload, the
  encoder of \<open>src/serial-protocol.c\<close> against it, and the decoder run over encoded frames.
\<close>

section \<open>The frame of a payload\<close>

definition escape :: "byte list \<Rightarrow> byte list" where
  "escape bs = concat (map (\<lambda>b. if is_magic_byte b then [ESC_BYTE, b] else [b]) bs)"

definition serial_frame :: "byte list \<Rightarrow> byte list" where
  "serial_frame p = [START_BYTE] @ escape p @ escape [compute_checksum p] @ [END_BYTE]"

lemma escape_simps [simp]:
  "escape [] = []"
  "escape (b # bs) = (if is_magic_byte b then [ESC_BYTE, b] else [b]) @ escape bs"
  by (simp_all add: escape_def)

lemma escape_append [simp]: "escape (xs @ ys) = escape xs @ escape ys"
  by (simp add: escape_def)

lemma length_escape: "length (escape bs) = length bs + length (filter is_magic_byte bs)"
  by (induction bs) auto

lemma length_serial_frame:
  "length (serial_frame p) =
     length p + length (filter is_magic_byte p) + (if is_magic_byte (compute_checksum p) then 4 else 3)"
  by (simp add: serial_frame_def length_escape)

section \<open>The encoder writes the frame\<close>

lemma compute_payload_size_eq:
  "compute_payload_size bs = of_nat (length bs + 4 + length (filter is_magic_byte bs))"
proof -
  have "foldl (\<lambda>ret b. if is_magic_byte b then ret + 1 else ret) (c :: size_t) bs =
      c + of_nat (length (filter is_magic_byte bs))" for c
    by (induction bs arbitrary: c) (simp_all add: ac_simps)
  then show ?thesis by (simp add: compute_payload_size_def)
qed

lemma unat_compute_payload_size:
  assumes "2 * length p + 4 < 2 ^ 64"
  shows "unat (compute_payload_size p) = length p + 4 + length (filter is_magic_byte p)"
proof -
  have "length p + 4 + length (filter is_magic_byte p) < 2 ^ 64"
    using assms length_filter_le [of is_magic_byte p] by linarith
  then show ?thesis unfolding compute_payload_size_eq by (rule unat_of_nat_size)
qed

lemma serial_write_byte_escape:
  assumes "unat off + length (escape [b]) \<le> length m" and "length m < 2 ^ 64"
  shows "\<exists>m'. serial_write_byte m off b = Some (of_nat (length (escape [b])), m') \<and>
    mem_write m (unat off) (escape [b]) = Some m'"
proof (cases "is_magic_byte b")
  case True
  then have "unat (off + 1) = unat off + 1"
    using assms by (intro trans [OF unat_add_size]) simp_all
  moreover obtain m1 where "mem_write m (unat off) [ESC_BYTE] = Some m1"
    and "mem_write m1 (unat off + 1) [b] = mem_write m (unat off) [ESC_BYTE, b]"
    using mem_write_appendI [of "unat off" "[ESC_BYTE]" "[b]" m] assms(1) True by auto
  ultimately show ?thesis
    using True assms(1) mem_write_Some_iff [of m "unat off" "[ESC_BYTE, b]"]
    by (auto simp: serial_write_byte_def)
next
  case False
  then show ?thesis
    using assms(1) mem_write_Some_iff [of m "unat off" "[b]"] by (auto simp: serial_write_byte_def)
qed

lemma serial_write_payload_escape:
  "unat off + length (escape bs) \<le> length m \<Longrightarrow> length m < 2 ^ 64 \<Longrightarrow>
   \<exists>m'. serial_write_payload m off bs = Some (off + of_nat (length (escape bs)), m') \<and>
     mem_write m (unat off) (escape bs) = Some m'"
proof (induction bs arbitrary: m off)
  case Nil
  then show ?case by (simp add: mem_write_def)
next
  case (Cons b bs)
  let ?e = "escape [b]"
  have split: "escape (b # bs) = ?e @ escape bs" by simp
  have fit: "unat off + length ?e + length (escape bs) \<le> length m"
    using Cons.prems(1) unfolding split by simp
  then obtain m1 where w: "serial_write_byte m off b = Some (of_nat (length ?e), m1)"
    and m1: "mem_write m (unat off) ?e = Some m1"
    using serial_write_byte_escape [of off b m] Cons.prems(2) by auto
  have len: "length m1 = length m" using m1 by (rule mem_write_length)
  have off: "unat (off + of_nat (length ?e)) = unat off + length ?e"
    using fit Cons.prems(2) by (subst unat_add_size) simp_all
  obtain m2 where p: "serial_write_payload m1 (off + of_nat (length ?e)) bs =
        Some (off + of_nat (length ?e) + of_nat (length (escape bs)), m2)"
    and m2: "mem_write m1 (unat off + length ?e) (escape bs) = Some m2"
    using Cons.IH [of "off + of_nat (length ?e)" m1] fit Cons.prems(2) len off by auto
  have "mem_write m (unat off) (?e @ escape bs) = Some m2"
    using m1 m2 by (rule mem_write_append)
  moreover have "off + of_nat (length ?e) + of_nat (length (escape bs)) =
      off + of_nat (length (escape (b # bs)))"
    unfolding split by (simp only: length_append of_nat_add ac_simps)
  ultimately show ?case using w p unfolding split by simp
qed

lemma mem_write_block:
  assumes "mem_write m 0 pre = Some m1" and "length pre + length bs \<le> length m"
  obtains m2 where "mem_write m1 (length pre) bs = Some m2" and "mem_write m 0 (pre @ bs) = Some m2"
proof -
  have "length m1 = length m" using assms(1) by (rule mem_write_length)
  with assms(2) obtain m2 where m2: "mem_write m1 (length pre) bs = Some m2"
    by (auto simp: mem_write_def)
  with assms(1) have "mem_write m 0 (pre @ bs) = Some m2"
    using mem_write_append [of m 0 pre m1 bs m2] by simp
  with m2 show ?thesis by (rule that)
qed

lemma serial_write_frame_eq:
  assumes fit: "length (serial_frame p) \<le> length m" and small: "length m < 2 ^ 64"
  shows "serial_write_frame m p =
    Some (of_nat (length (serial_frame p)), serial_frame p @ drop (length (serial_frame p)) m)"
proof -
  let ?e = "escape p" and ?c = "escape [compute_checksum p]"
  have total: "length (serial_frame p) = 1 + length ?e + length ?c + 1"
    by (simp add: serial_frame_def)
  obtain m1 where m1: "mem_write m 0 [START_BYTE] = Some m1"
    using fit total by (auto simp: mem_write_def)
  have l1: "length m1 = length m" using m1 by (rule mem_write_length)
  obtain m2 where p2: "serial_write_payload m1 1 p = Some (1 + of_nat (length ?e), m2)"
    and w2: "mem_write m1 1 ?e = Some m2"
    using serial_write_payload_escape [of 1 p m1] fit small total l1 by auto
  have m2: "mem_write m 0 ([START_BYTE] @ ?e) = Some m2"
    using mem_write_append [OF m1, of ?e m2] w2 by simp
  have l2: "length m2 = length m" using m2 by (rule mem_write_length)
  have o2: "unat (1 + of_nat (length ?e) :: size_t) = 1 + length ?e"
    using fit small total by (subst unat_add_size) simp_all
  obtain m3 where p3: "serial_write_byte m2 (1 + of_nat (length ?e)) (compute_checksum p) =
        Some (of_nat (length ?c), m3)"
    and w3: "mem_write m2 (1 + length ?e) ?c = Some m3"
    using serial_write_byte_escape [of "1 + of_nat (length ?e)" "compute_checksum p" m2]
      fit small total l2 o2 by auto
  have m3: "mem_write m 0 (([START_BYTE] @ ?e) @ ?c) = Some m3"
    using mem_write_append [OF m2, of ?c m3] w3 by simp
  have o3: "unat (1 + of_nat (length ?e) + of_nat (length ?c) :: size_t) = 1 + length ?e + length ?c"
    using fit small total o2 by (subst unat_add_size) simp_all
  obtain m4 where w4: "mem_write m3 (1 + length ?e + length ?c) [END_BYTE] = Some m4"
    and m4: "mem_write m 0 ((([START_BYTE] @ ?e) @ ?c) @ [END_BYTE]) = Some m4"
    using mem_write_block [OF m3, of "[END_BYTE]"] fit total by auto
  have "mem_write m 0 (serial_frame p) = Some m4"
    using m4 by (simp add: serial_frame_def)
  then have "m4 = serial_frame p @ drop (length (serial_frame p)) m"
    using fit by (simp add: mem_write_def)
  moreover have "1 + of_nat (length ?e) + of_nat (length ?c) + 1 =
      (of_nat (length (serial_frame p)) :: size_t)"
    unfolding total by (simp add: ac_simps)
  ultimately show ?thesis
    by (simp only: serial_write_frame_def m1 p2 p3 o3 w4 bind.bind_lunit prod.case)
qed

lemma serial_frame_fits:
  "length (serial_frame p) \<le> length p + 4 + length (filter is_magic_byte p)"
  by (simp add: length_serial_frame)

text \<open>
  The whole encoder on a payload \<open>p\<close> and a caller's buffer: an error that leaves the buffer
  as it was, or the frame at the start of the buffer and nothing else touched.
\<close>

lemma encode_caller_buffer:
  assumes "2 * length p + 4 < 2 ^ 64" and "unat outsize \<le> length buf" and "length buf < 2 ^ 64"
  shows "smp_serial_protocol_encode alloc junk (Some (p @ rest)) (of_nat (length p))
      (Some (Some buf)) outsize =
    Some (if outsize = 0 then (Inl SMP_ERROR_INVALID_PARAM, Some (Some buf))
          else if outsize < compute_payload_size p then (Inl SMP_ERROR_OVERFLOW, Some (Some buf))
          else (Inr (of_nat (length (serial_frame p))),
                Some (Some (serial_frame p @ drop (length (serial_frame p)) buf))))"
proof -
  have len: "unat (of_nat (length p) :: size_t) = length p"
    using assms(1) by (intro unat_of_nat_size) simp
  have "length (serial_frame p) \<le> length buf" if "compute_payload_size p \<le> outsize"
  proof -
    have "length (serial_frame p) \<le> unat (compute_payload_size p)"
      using serial_frame_fits [of p] unat_compute_payload_size [OF assms(1)] by simp
    also have "\<dots> \<le> unat outsize" using that by (simp add: word_le_nat_alt)
    finally show ?thesis using assms(2) by simp
  qed
  then show ?thesis using assms(3)
    by (auto simp: smp_serial_protocol_encode_def mem_read_def len serial_write_frame_eq
        word_gt_0 not_less)
qed

lemma encode_allocated_buffer:
  assumes "2 * length p + 4 < 2 ^ 64"
  shows "smp_serial_protocol_encode alloc junk (Some (p @ rest)) (of_nat (length p))
      (Some None) outsize =
    Some (if \<not> alloc (compute_payload_size p) then (Inl SMP_ERROR_NO_MEM, Some None)
          else (Inr (of_nat (length (serial_frame p))),
                Some (Some (serial_frame p @
                  map junk [length (serial_frame p)..<unat (compute_payload_size p)]))))"
proof -
  let ?n = "unat (compute_payload_size p)"
  have len: "unat (of_nat (length p) :: size_t) = length p"
    using assms by (intro unat_of_nat_size) simp
  have "length (serial_frame p) \<le> ?n"
    using serial_frame_fits [of p] unat_compute_payload_size [OF assms] by simp
  then have "serial_write_frame (map junk [0..<?n]) p = Some (of_nat (length (serial_frame p)),
      serial_frame p @ drop (length (serial_frame p)) (map junk [0..<?n]))"
    using unat_less_2_64 [of "compute_payload_size p"] by (intro serial_write_frame_eq) simp_all
  then show ?thesis
    by (simp add: smp_serial_protocol_encode_def mem_read_def len drop_map)
qed

section \<open>The decoder on encoded frames\<close>

text \<open>
  A payload of \<open>n\<close> bytes and its checksum have room: they fit in the buffer as it is, or the
  buffer may grow (by 1024 bytes at a time) and every request for memory succeeds.
\<close>

definition decoder_fits :: "decoder \<Rightarrow> (allocator \<times> byte) list \<Rightarrow> nat \<Rightarrow> bool" where
  "decoder_fits d is n \<longleftrightarrow> n < unat (dec_bufsize d) \<or>
     (\<not> dec_static d \<and> n + 1024 \<le> unat (dec_maxsize d) \<and> (\<forall>i\<in>set is. \<forall>k. fst i k))"

definition decoder_idle :: "decoder \<Rightarrow> bool" where
  "decoder_idle d \<longleftrightarrow> dec_state d = WAIT_HEADER"

fun decoder_payload :: "ret \<times> mem option \<times> size_t \<Rightarrow> byte list option" where
  "decoder_payload out = (case observed out of Inl _ \<Rightarrow> None | Inr p \<Rightarrow> p)"

fun decoder_failed :: "ret \<times> mem option \<times> size_t \<Rightarrow> bool" where
  "decoder_failed out \<longleftrightarrow> fst out \<noteq> ok"

declare decoder_payload.simps [simp del] decoder_failed.simps [simp del]

lemma decoder_stepD:
  "decoder_inv d \<Longrightarrow> decoder_step d i = Some (out, d') \<Longrightarrow> step_refines (fst i) d (snd i) out d'"
  using decoder_step_refines [of d "fst i" "snd i"] by auto

lemma decoder_fits_step:
  "step_refines alloc d b out d' \<Longrightarrow> decoder_fits d (i # is) n \<Longrightarrow> decoder_fits d' is n"
  by (auto simp: step_refines_def decoder_fits_def word_le_nat_alt)

lemma decoder_fits_run:
  "decoder_inv d \<Longrightarrow> decoder_fits d (is @ js) n \<Longrightarrow>
   run_steps decoder_step d is = Some (outs, d') \<Longrightarrow> decoder_fits d' js n"
proof (induction "is" arbitrary: d outs)
  case Nil
  then show ?case by simp
next
  case (Cons i "is")
  from Cons.prems(3) obtain out d1 outs' where st: "decoder_step d i = Some (out, d1)"
    and rn: "run_steps decoder_step d1 is = Some (outs', d')" by (rule run_steps_ConsE)
  have "step_refines (fst i) d (snd i) out d1"
    using Cons.prems(1) st by (rule decoder_stepD)
  then show ?case
    using Cons.IH [OF _ _ rn] Cons.prems(2) decoder_fits_step [of _ d _ out d1 i "is @ js"]
    by (auto simp: step_refines_def)
qed

lemma abs_decoder_Idle [simp]: "abs_decoder d = Idle \<longleftrightarrow> decoder_idle d"
  by (simp add: abs_decoder_def decoder_idle_def Let_def split: decoder_state.split)

lemma abs_decoder_offset:
  assumes "decoder_inv d" and "abs_decoder d = Receiving xs \<or> abs_decoder d = Escaping xs"
  shows "unat (dec_offset d) = length xs \<and> dec_offset d \<le> dec_bufsize d"
  using assms
  by (auto simp: abs_decoder_def decoder_inv_def Let_def word_le_nat_alt
      split: decoder_state.splits)

lemma decoder_room_fits:
  assumes "decoder_inv d" and "abs_decoder d = Receiving xs \<or> abs_decoder d = Escaping xs"
    and "length xs \<le> n" and "decoder_fits d (i # is) n"
  shows "decoder_room (fst i) d = ok"
proof (cases "dec_offset d < dec_bufsize d")
  case True
  then show ?thesis by (simp add: decoder_room_def)
next
  case False
  have off: "unat (dec_offset d) = length xs" "dec_offset d \<le> dec_bufsize d"
    using abs_decoder_offset [OF assms(1,2)] by auto
  with False have full: "unat (dec_bufsize d) = length xs" by simp
  with assms(3,4) have grow: "\<not> dec_static d" "n + 1024 \<le> unat (dec_maxsize d)" "\<forall>k. fst i k"
    by (auto simp: decoder_fits_def)
  have "unat (dec_bufsize d + DEFAULT_BUFFER_SIZE) = unat (dec_bufsize d) + 1024"
    using full assms(3) grow(2) unat_less_2_64 [of "dec_maxsize d"]
    by (simp add: DEFAULT_BUFFER_SIZE_def unat_add_size)
  with grow full assms(3) show ?thesis
    by (simp add: decoder_room_def word_less_nat_alt)
qed

text \<open>One byte of the payload, escaped or not, is collected without any output.\<close>

lemma decoder_collects_byte:
  assumes "decoder_inv d" and "abs_decoder d = Receiving xs" and "length xs \<le> n"
    and "decoder_fits d is n" and "map snd is = escape [b]"
    and "run_steps decoder_step d is = Some (outs, d')"
  shows "abs_decoder d' = Receiving (xs @ [b]) \<and> (\<forall>out\<in>set outs. observed out = Inr None)"
proof (cases "is_magic_byte b")
  case False
  with assms(5) obtain al where "is": "is = [(al, b)]" by auto
  with assms(6) obtain out where "decoder_step d (al, b) = Some (out, d')" and outs: "outs = [out]"
    by (auto split: option.splits)
  then have "step_refines al d b out d'" using decoder_stepD [OF assms(1)] by fastforce
  moreover have "decoder_room al d = ok"
    using decoder_room_fits [of d xs n "(al, b)" "[]"] assms by (simp add: "is")
  ultimately show ?thesis
    using assms(2) False by (auto simp: step_refines_def is_magic_byte_def outs)
next
  case True
  with assms(5) obtain al1 al2 where "is": "is = [(al1, ESC_BYTE), (al2, b)]" by auto
  with assms(6) obtain o1 o2 d1 where s1: "decoder_step d (al1, ESC_BYTE) = Some (o1, d1)"
    and s2: "decoder_step d1 (al2, b) = Some (o2, d')" and outs: "outs = [o1, o2]"
    by (auto split: option.splits)
  have r1: "step_refines al1 d ESC_BYTE o1 d1" using decoder_stepD [OF assms(1) s1] by simp
  then have d1: "abs_decoder d1 = Escaping xs" "observed o1 = Inr None" "decoder_inv d1"
    using assms(2) by (auto simp: step_refines_def)
  have r2: "step_refines al2 d1 b o2 d'" using decoder_stepD [OF d1(3) s2] by simp
  have "decoder_fits d1 [(al2, b)] n" using decoder_fits_step [OF r1] assms(4) by (simp add: "is")
  then have "decoder_room al2 d1 = ok"
    using decoder_room_fits [of d1 xs n "(al2, b)" "[]"] d1 assms(3) by simp
  with r2 d1 show ?thesis by (auto simp: step_refines_def outs)
qed

lemma decoder_collects:
  "decoder_inv d \<Longrightarrow> abs_decoder d = Receiving xs \<Longrightarrow> length xs + length bs \<le> Suc n \<Longrightarrow>
   decoder_fits d is n \<Longrightarrow> map snd is = escape bs \<Longrightarrow>
   run_steps decoder_step d is = Some (outs, d') \<Longrightarrow>
   abs_decoder d' = Receiving (xs @ bs) \<and> (\<forall>out\<in>set outs. observed out = Inr None)"
proof (induction bs arbitrary: d xs "is" outs)
  case Nil
  then show ?case by simp
next
  case (Cons b bs)
  have "map snd is = escape [b] @ escape bs" using Cons.prems(5) by simp
  then obtain is1 is2 where "is": "is = is1 @ is2" and m1: "map snd is1 = escape [b]"
    and m2: "map snd is2 = escape bs"
    by (rule map_eq_appendE)
  from Cons.prems(6) obtain o1 o2 d1 where r1: "run_steps decoder_step d is1 = Some (o1, d1)"
    and r2: "run_steps decoder_step d1 is2 = Some (o2, d')" and outs: "outs = o1 @ o2"
    unfolding "is" by (rule run_steps_appendE)
  have fits1: "decoder_fits d is1 n" using Cons.prems(4) by (auto simp: decoder_fits_def "is")
  have c1: "abs_decoder d1 = Receiving (xs @ [b]) \<and> (\<forall>out\<in>set o1. observed out = Inr None)"
    using Cons.prems(1,2) _ fits1 m1 r1 by (rule decoder_collects_byte) (use Cons.prems(3) in simp)
  have "decoder_inv d1" using Cons.prems(1) r1 by (rule decoder_machine.run_inv)
  moreover have "decoder_fits d1 is2 n"
    using decoder_fits_run [OF Cons.prems(1) _ r1] Cons.prems(4) by (simp add: "is")
  ultimately show ?case
    using Cons.IH [OF _ _ _ _ m2 r2, of "xs @ [b]"] c1 Cons.prems(3) by (auto simp: outs)
qed

text \<open>
  What arrives between a start and an end byte, unescaped: the frame of a payload, or one that was
  damaged on the line. It holds a payload when it is not empty and its exclusive or is zero.
\<close>

definition line_frame :: "byte list \<Rightarrow> byte list" where
  "line_frame w = [START_BYTE] @ escape w @ [END_BYTE]"

definition line_result :: "byte list \<Rightarrow> smp_error + byte list" where
  "line_result w =
     (if w \<noteq> [] \<and> compute_checksum w = 0 then Inr (butlast w) else Inl SMP_ERROR_BAD_MESSAGE)"

text \<open>What a call reports: nothing, an error or a payload.\<close>

fun decoder_report :: "ret \<times> mem option \<times> size_t \<Rightarrow> (smp_error + byte list) option" where
  "decoder_report out =
     (case observed out of Inl e \<Rightarrow> Some (Inl e) | Inr p \<Rightarrow> map_option Inr p)"

declare decoder_report.simps [simp del]

lemma line_frame_payload: "line_frame (p @ [compute_checksum p]) = serial_frame p"
  by (simp add: line_frame_def serial_frame_def)

lemma line_result_payload: "line_result (p @ [compute_checksum p]) = Inr p"
  by (simp add: line_result_def)

text \<open>After the start byte: the escaped bytes and the end byte give exactly the result.\<close>

lemma decoder_frame_tail:
  assumes inv: "decoder_inv d" and rec: "abs_decoder d = Receiving []"
    and fits: "decoder_fits d is (length w - 1)"
    and bytes: "map snd is = escape w @ [END_BYTE]"
    and run: "run_steps decoder_step d is = Some (outs, d')"
  shows "decoder_idle d' \<and> (\<exists>quiet out. outs = quiet @ [out] \<and>
    (\<forall>q\<in>set quiet. observed q = Inr None) \<and> observed out = map_sum id Some (line_result w))"
proof -
  from bytes obtain is1 is2 where "is = is1 @ is2" and "map snd is2 = [END_BYTE]"
    and m1: "map snd is1 = escape w"
    by (rule map_eq_appendE)
  then obtain al where "is": "is = is1 @ [(al, END_BYTE)]" by auto
  from run obtain o1 o2 d1 where r1: "run_steps decoder_step d is1 = Some (o1, d1)"
    and r2: "run_steps decoder_step d1 [(al, END_BYTE)] = Some (o2, d')" and outs: "outs = o1 @ o2"
    unfolding "is" by (rule run_steps_appendE)
  have fits1: "decoder_fits d is1 (length w - 1)" using fits by (auto simp: decoder_fits_def "is")
  have c1: "abs_decoder d1 = Receiving w \<and> (\<forall>out\<in>set o1. observed out = Inr None)"
    using decoder_collects [OF inv rec _ fits1 m1 r1] by simp
  have "decoder_inv d1" using inv r1 by (rule decoder_machine.run_inv)
  moreover from r2 obtain out where s2: "decoder_step d1 (al, END_BYTE) = Some (out, d')"
    and o2: "o2 = [out]" by (auto split: option.splits)
  ultimately have "step_refines al d1 END_BYTE out d'" using decoder_stepD by fastforce
  with c1 have "observed out = map_sum id Some (line_result w)" "decoder_idle d'"
    by (auto simp: step_refines_def line_result_def split: if_splits simp flip: abs_decoder_Idle)
  with c1 show ?thesis by (auto simp: outs o2)
qed

text \<open>Payloads and failures of a run, from its reports.\<close>

lemma report_cases:
  "(case decoder_report out of
      None \<Rightarrow> decoder_payload out = None \<and> \<not> decoder_failed out
    | Some (Inl e) \<Rightarrow> decoder_payload out = None \<and> decoder_failed out
    | Some (Inr p) \<Rightarrow> decoder_payload out = Some p \<and> \<not> decoder_failed out)"
  by (cases out rule: observed.cases)
     (auto simp: decoder_report.simps decoder_payload.simps decoder_failed.simps split: option.split)

lemma report_quiet: "observed out = Inr None \<Longrightarrow> decoder_report out = None"
  by (simp add: decoder_report.simps)

lemma reports_quiet:
  "\<forall>q\<in>set quiet. observed q = Inr None \<Longrightarrow> List.map_filter decoder_report quiet = []"
  by (induction quiet) (auto simp: map_filter_simps report_quiet)

lemma run_payloads:
  "List.map_filter decoder_payload outs =
     List.map_filter (case_sum (\<lambda>_. None) Some) (List.map_filter decoder_report outs)"
proof (induction outs)
  case (Cons out outs)
  then show ?case
    using report_cases [of out] by (auto simp: map_filter_simps split: option.splits sum.splits)
qed (simp add: map_filter_simps)

lemma run_failures:
  "length (filter decoder_failed outs) = length (filter isl (List.map_filter decoder_report outs))"
proof (induction outs)
  case (Cons out outs)
  then show ?case
    using report_cases [of out] by (auto simp: map_filter_simps split: option.splits sum.splits)
qed (simp add: map_filter_simps)

text \<open>
  A whole frame, from a decoder between two frames or inside an unfinished one: in the second
  case the start byte reports the broken frame and the decoder resynchronises on it.
\<close>

lemma decoder_frame_run:
  assumes inv: "decoder_inv d" and state: "dec_state d \<noteq> IN_FRAME_ESC"
    and fits: "decoder_fits d is (length w - 1)" and bytes: "map snd is = line_frame w"
    and run: "run_steps decoder_step d is = Some (outs, d')"
  shows "decoder_idle d' \<and> (\<exists>out outs'. outs = out # outs' \<and>
    decoder_report out = (if decoder_idle d then None else Some (Inl SMP_ERROR_BAD_MESSAGE)) \<and>
    List.map_filter decoder_report outs' = [line_result w])"
proof -
  from bytes obtain al is1 where "is": "is = (al, START_BYTE) # is1"
    and m1: "map snd is1 = escape w @ [END_BYTE]"
    by (auto simp: line_frame_def)
  from run obtain o1 os d1 where s1: "decoder_step d (al, START_BYTE) = Some (o1, d1)"
    and r1: "run_steps decoder_step d1 is1 = Some (os, d')" and outs: "outs = o1 # os"
    unfolding "is" by (rule run_steps_ConsE)
  have ref: "step_refines al d START_BYTE o1 d1" using decoder_stepD [OF inv s1] by simp
  have d1: "decoder_inv d1" "decoder_fits d1 is1 (length w - 1)"
    using ref decoder_fits_step [OF ref] fits by (auto simp: step_refines_def "is")
  have a1: "abs_decoder d1 = Receiving []"
    "observed o1 = (if decoder_idle d then Inr None else Inl SMP_ERROR_BAD_MESSAGE)"
    using ref state by (auto simp: step_refines_def abs_decoder_def decoder_idle_def Let_def
        split: decoder_state.splits)
  from decoder_frame_tail [OF d1(1) a1(1) d1(2) m1 r1] obtain quiet out
    where q: "decoder_idle d'" "os = quiet @ [out]" "\<forall>q\<in>set quiet. observed q = Inr None"
      "observed out = map_sum id Some (line_result w)" by blast
  have "decoder_report o1 = (if decoder_idle d then None else Some (Inl SMP_ERROR_BAD_MESSAGE))"
    using a1(2) by (simp add: decoder_report.simps)
  moreover have "decoder_report out = Some (line_result w)"
    using q(4) by (cases "line_result w") (simp_all add: decoder_report.simps)
  ultimately show ?thesis
    using q(1) reports_quiet [OF q(3)] by (simp add: outs q(2) map_filter_append map_filter_simps)
qed

lemma decoder_quiet_noise:
  assumes "decoder_inv d" and "decoder_idle d" and "snd i \<noteq> START_BYTE"
    and "decoder_step d i = Some (out, d')"
  shows "decoder_idle d' \<and> decoder_report out = None"
proof -
  have "step_refines (fst i) d (snd i) out d'" using assms(1,4) by (rule decoder_stepD)
  then have "observed out = Inr None" "abs_decoder d' = Idle"
    using assms(2,3) by (simp_all add: step_refines_def flip: abs_decoder_Idle)
  then show ?thesis using report_quiet [of out] by simp
qed

interpretation decoder_framing: framing decoder_step decoder_inv decoder_idle decoder_fits snd
  decoder_report line_frame "\<lambda>w. length w - 1" line_result "\<lambda>b. b \<noteq> START_BYTE"
proof
  fix d d' :: decoder and i out
  assume "decoder_inv d" "decoder_idle d" "snd i \<noteq> START_BYTE" "decoder_step d i = Some (out, d')"
  then show "decoder_idle d' \<and> decoder_report out = None" by (rule decoder_quiet_noise)
next
  fix d d' "is" w outs
  assume *: "decoder_inv d" "decoder_idle d" "decoder_fits d is (length w - 1)"
    "map snd is = line_frame w" "run_steps decoder_step d is = Some (outs, d')"
  then have "dec_state d \<noteq> IN_FRAME_ESC" by (simp add: decoder_idle_def)
  from decoder_frame_run [OF *(1) this *(3-5)] *(2)
  show "decoder_idle d' \<and> List.map_filter decoder_report outs = [line_result w]"
    by (auto simp: map_filter_simps)
next
  fix d "is" js n
  assume "decoder_fits d (is @ js) n"
  then show "decoder_fits d is n" by (auto simp: decoder_fits_def)
next
  fix d d' "is" js n outs
  assume "decoder_inv d" "decoder_fits d (is @ js) n" "run_steps decoder_step d is = Some (outs, d')"
  then show "decoder_fits d' js n" by (rule decoder_fits_run)
qed

section \<open>Reachable decoders\<close>

text \<open>
  The decoders an application can have: made by one of the two constructors, then fed any
  bytes, with any answers of the allocator, and reconfigured at any time.
\<close>

inductive decoder_reachable :: "decoder \<Rightarrow> bool" where
  new: "smp_serial_protocol_decoder_new avr al1 al2 n = Some d \<Longrightarrow> decoder_reachable d"
| static: "smp_serial_protocol_decoder_new_from_static avr storage sz (Some buf) n = Some d \<Longrightarrow>
    unat n \<le> length buf \<Longrightarrow> decoder_reachable d"
| byte: "decoder_reachable d \<Longrightarrow> decoder_step d i = Some (out, d') \<Longrightarrow> decoder_reachable d'"
| set_max: "decoder_reachable d \<Longrightarrow>
    smp_serial_protocol_decoder_set_maximum_capacity (Some d) cap = (r, Some d') \<Longrightarrow>
    decoder_reachable d'"

lemma decoder_new_inv:
  "smp_serial_protocol_decoder_new avr al1 al2 n = Some d \<Longrightarrow>
   decoder_inv d \<and> decoder_idle d \<and> \<not> dec_static d \<and> dec_bufsize d \<le> dec_maxsize d \<and>
   dec_bufsize d = (if n = 0 then DEFAULT_BUFFER_SIZE else n) \<and>
   dec_maxsize d = DEFAULT_MAXIMUM_DECODER_BUFFER_SIZE avr"
  by (auto simp: smp_serial_protocol_decoder_new_def decoder_init_def decoder_set_capacity_def
      zeroed_decoder_def decoder_inv_def decoder_idle_def Let_def not_less word_gt_0
      split: if_splits)

lemma decoder_new_from_static_inv:
  "smp_serial_protocol_decoder_new_from_static avr storage sz (Some buf) n = Some d \<Longrightarrow>
   unat n \<le> length buf \<Longrightarrow>
   decoder_inv d \<and> decoder_idle d \<and> dec_static d \<and> dec_buf d = buf \<and> dec_bufsize d = n \<and>
   dec_maxsize d = n"
  by (auto simp: smp_serial_protocol_decoder_new_from_static_def decoder_init_def decoder_inv_def
      decoder_idle_def Let_def split: option.splits if_splits)

lemma decoder_reachable_inv: "decoder_reachable d \<Longrightarrow> decoder_inv d"
proof (induction rule: decoder_reachable.induct)
  case (new al1 al2 n d)
  then show ?case by (simp add: decoder_new_inv)
next
  case (static storage sz buf n d)
  then show ?case using decoder_new_from_static_inv by blast
next
  case (byte d i out d')
  then show ?case by (blast intro: decoder_machine.step_inv)
next
  case (set_max d cap r d')
  then show ?case
    by (auto simp: smp_serial_protocol_decoder_set_maximum_capacity_def decoder_inv_def
        split: if_splits)
qed

end
