(* ===== verification/Smp_Serial_Spec.thy ===== *)
theory Smp_Serial_Spec
  imports Smp_Serial_Framing
begin

text \<open>
  The properties of the serial protocol component: the encoder, the decoder and the two
  together. They rest on the refinement of \<open>Smp_Serial_Decoder\<close> and on the interpretation of
  the framing interface in \<open>Smp_Serial_Framing\<close>.
\<close>

section \<open>Unescaping\<close>

fun unescape :: "byte list \<Rightarrow> byte list option" where
  "unescape [] = Some []"
| "unescape [b] = (if is_magic_byte b then None else Some [b])"
| "unescape (b # c # bs) =
     (if b = ESC_BYTE then map_option (Cons c) (unescape bs)
      else if is_magic_byte b then None
      else map_option (Cons b) (unescape (c # bs)))"

lemma magic_bytes [simp]: "is_magic_byte START_BYTE" "is_magic_byte END_BYTE" "is_magic_byte ESC_BYTE"
  by (simp_all add: is_magic_byte_def)

lemma unescape_plain:
  "unescape w = Some xs \<Longrightarrow> \<not> is_magic_byte b \<Longrightarrow> unescape (w @ [b]) = Some (xs @ [b])"
  by (induction w arbitrary: xs rule: unescape.induct) (auto split: if_splits)

lemma unescape_escaped:
  "unescape w = Some xs \<Longrightarrow> unescape (w @ [ESC_BYTE, b]) = Some (xs @ [b])"
  by (induction w arbitrary: xs rule: unescape.induct) (auto split: if_splits)

lemma unescape_escape: "unescape (escape p) = Some p"
proof (induction p rule: rev_induct)
  case Nil
  then show ?case by simp
next
  case (snoc b p)
  then show ?case
    by (cases "is_magic_byte b") (simp_all add: unescape_plain unescape_escaped)
qed

section \<open>What the decoder has received\<close>

text \<open>The bytes fed so far end with a start byte and the escaped form of what was collected.\<close>

fun traced :: "byte list \<Rightarrow> abs_decoder \<Rightarrow> bool" where
  "traced bytes Idle \<longleftrightarrow> True"
| "traced bytes (Receiving xs) \<longleftrightarrow>
     (\<exists>pre w. bytes = pre @ [START_BYTE] @ w \<and> unescape w = Some xs)"
| "traced bytes (Escaping xs) \<longleftrightarrow>
     (\<exists>pre w. bytes = pre @ [START_BYTE] @ w @ [ESC_BYTE] \<and> unescape w = Some xs)"

lemma traced_receiving: "unescape w = Some xs \<Longrightarrow> traced (pre @ [START_BYTE] @ w) (Receiving xs)"
  unfolding traced.simps by blast

lemma traced_escaping:
  "unescape w = Some xs \<Longrightarrow> traced (pre @ [START_BYTE] @ w @ [ESC_BYTE]) (Escaping xs)"
  unfolding traced.simps by blast

lemma traced_start: "traced (bytes @ [START_BYTE]) (Receiving [])"
  using traced_receiving [of "[]" "[]" bytes] by (simp only: unescape.simps append_Nil2)

text \<open>
  Errors other than a broken frame are failures to store a byte: those are excluded here.
\<close>

lemma traced_step:
  assumes "traced bytes a" and "abs_step room a b = (res, a')"
    and "\<forall>e. res = Inl e \<longrightarrow> e = SMP_ERROR_BAD_MESSAGE" and "room \<noteq> Inl SMP_ERROR_BAD_MESSAGE"
  shows "traced (bytes @ [b]) a'"
proof (cases a)
  case Idle
  with assms(2) have "a' = Idle \<or> b = START_BYTE \<and> a' = Receiving []" by (auto split: if_splits)
  then show ?thesis by (metis traced.simps(1) traced_start)
next
  case (Receiving xs)
  with assms(1) obtain pre w where t: "bytes = pre @ [START_BYTE] @ w" "unescape w = Some xs" by auto
  consider "b = START_BYTE" "a' = Receiving []" | "b = ESC_BYTE" "a' = Escaping xs" | "a' = Idle"
    | "\<not> is_magic_byte b" "a' = Receiving (xs @ [b])"
    using assms(2-4) Receiving by (auto simp: is_magic_byte_def split: if_splits sum.splits)
  then show ?thesis
  proof cases
    case 1
    then show ?thesis by (simp only: traced_start)
  next
    case 2
    with traced_escaping [OF t(2), of pre] show ?thesis by (simp only: t(1) append_assoc)
  next
    case 4
    with traced_receiving [OF unescape_plain [OF t(2) 4(1)], of pre] show ?thesis
      by (simp only: t(1) append_assoc)
  qed simp
next
  case (Escaping xs)
  with assms(1) obtain pre w where t: "bytes = pre @ [START_BYTE] @ w @ [ESC_BYTE]"
    "unescape w = Some xs" by auto
  have "a' = Receiving (xs @ [b])"
    using assms(2-4) Escaping by (cases room) auto
  with traced_receiving [OF unescape_escaped [OF t(2), of b], of pre] show ?thesis
    by (simp add: t(1) del: traced.simps)
qed

text \<open>A frame is reported at the end byte only, after the payload and its checksum.\<close>

lemma abs_step_frame:
  assumes "abs_step room a b = (Inr (Some p), a')"
  shows "b = END_BYTE \<and> a = Receiving (p @ [compute_checksum p])"
proof -
  obtain xs where a: "a = Receiving xs" and xs: "xs \<noteq> []" "compute_checksum xs = 0" "p = butlast xs"
    and b: "b = END_BYTE"
    using assms by (cases a) (auto split: if_splits sum.splits)
  from xs(1,3) have split: "xs = p @ [last xs]" by simp
  have "compute_checksum (p @ [last xs]) = 0" using xs(2) split by metis
  then have "last xs = compute_checksum p" by (simp add: xor_eq_0_iff)
  with split a b show ?thesis by simp
qed

lemma decoder_room_error: "decoder_room alloc d \<noteq> Inl SMP_ERROR_BAD_MESSAGE"
  by (simp add: decoder_room_def)

definition only_bad_message :: "(ret \<times> mem option \<times> size_t) list \<Rightarrow> bool" where
  "only_bad_message outs \<longleftrightarrow> (\<forall>out\<in>set outs. \<forall>e. fst out = Inl e \<longrightarrow> e = SMP_ERROR_BAD_MESSAGE)"

lemma observed_Inl: "observed out = Inl e \<longleftrightarrow> fst out = Inl e"
  by (cases out rule: observed.cases) auto

lemma decoder_traced:
  "decoder_inv d \<Longrightarrow> decoder_idle d \<Longrightarrow> run_steps decoder_step d is = Some (outs, d') \<Longrightarrow>
   only_bad_message outs \<Longrightarrow> traced (map snd is) (abs_decoder d')"
proof (induction "is" arbitrary: outs d' rule: rev_induct)
  case Nil
  then show ?case by (simp flip: abs_decoder_Idle)
next
  case (snoc i "is")
  from snoc.prems(3) obtain o1 o2 d1 where r1: "run_steps decoder_step d is = Some (o1, d1)"
    and r2: "run_steps decoder_step d1 [i] = Some (o2, d')" and outs: "outs = o1 @ o2"
    by (rule run_steps_appendE)
  from r2 obtain out where s: "decoder_step d1 i = Some (out, d')" and o2: "o2 = [out]"
    by (auto split: option.splits)
  have "decoder_inv d1" using snoc.prems(1) r1 by (rule decoder_machine.run_inv)
  then have "step_refines (fst i) d1 (snd i) out d'" using s by (rule decoder_stepD)
  moreover have "only_bad_message o1"
    using snoc.prems(4) by (auto simp: only_bad_message_def outs)
  with snoc.IH [OF snoc.prems(1,2) r1] have "traced (map snd is) (abs_decoder d1)" .
  ultimately show ?case
    using traced_step [of "map snd is" "abs_decoder d1" "decoder_room (fst i) d1" "snd i"
        "observed out" "abs_decoder d'"] snoc.prems(4) decoder_room_error
    by (auto simp: step_refines_def only_bad_message_def outs o2 observed_Inl)
qed

section \<open>Properties of the encoder\<close>

text \<open>
  C26: The encoder on every payload below 2^62 bytes: with a caller's buffer it refuses a zero
  size, refuses a size below the computed bound without touching the buffer, and otherwise
  writes exactly the frame of the payload at the start of the buffer, nothing after it, and
  returns the length of the frame; with no buffer it does the same in a block of the computed
  size. No write is ever outside the buffer.
\<close>

theorem serial_encode_functional:
  assumes "length p < 2 ^ 62" and "unat outsize \<le> length buf" and "length buf < 2 ^ 64"
  shows "smp_serial_protocol_encode alloc junk (Some (p @ rest)) (of_nat (length p))
      (Some (Some buf)) outsize =
    Some (if outsize = 0 then (Inl SMP_ERROR_INVALID_PARAM, Some (Some buf))
          else if outsize < compute_payload_size p then (Inl SMP_ERROR_OVERFLOW, Some (Some buf))
          else (Inr (of_nat (length (serial_frame p))),
                Some (Some (serial_frame p @ drop (length (serial_frame p)) buf)))) \<and>
    smp_serial_protocol_encode alloc junk (Some (p @ rest)) (of_nat (length p))
      (Some None) outsize =
    Some (if \<not> alloc (compute_payload_size p) then (Inl SMP_ERROR_NO_MEM, Some None)
          else (Inr (of_nat (length (serial_frame p))),
                Some (Some (serial_frame p @
                  map junk [length (serial_frame p)..<unat (compute_payload_size p)]))))"
proof -
  have "2 * length p + 4 < 2 ^ 64" using assms(1) by simp
  from encode_caller_buffer [OF this assms(2,3)] encode_allocated_buffer [OF this]
  show ?thesis by blast
qed

text \<open>
  The size the encoder asks for is enough for every payload and wastes at most one byte:
  the frame takes all of it when the checksum is itself a reserved byte, and one byte less
  otherwise. It is at most twice the payload plus four.
\<close>

theorem serial_payload_size_tight:
  assumes "length p < 2 ^ 62"
  shows "unat (compute_payload_size p) =
      length (serial_frame p) + (if is_magic_byte (compute_checksum p) then 0 else 1) \<and>
    unat (compute_payload_size p) \<le> 2 * length p + 4"
proof -
  have "2 * length p + 4 < 2 ^ 64" using assms by simp
  from unat_compute_payload_size [OF this] show ?thesis
    using length_filter_le [of is_magic_byte p] by (auto simp: length_serial_frame)
qed

section \<open>Properties of the decoder\<close>

lemma no_wrap_add:
  assumes "\<not> (a :: size_t) + c < a"
  shows "unat (a + c) = unat a + unat c"
proof (cases "unat a + unat c < 2 ^ 64")
  case True
  then show ?thesis by (rule unat_add_size)
next
  case False
  then have "unat (a + c) = unat a + unat c - 2 ^ 64"
    using unat_less_2_64 [of a] unat_less_2_64 [of c]
    by (simp add: unat_word_ariths le_mod_geq)
  then have "a + c < a"
    using unat_less_2_64 [of c] False by (simp add: word_less_nat_alt)
  with assms show ?thesis by simp
qed

lemma put_byte_bufsize:
  assumes "decoder_put_byte alloc d b = Some (r, d')"
  shows "dec_bufsize d' = dec_bufsize d \<or>
    (unat (dec_bufsize d') = unat (dec_bufsize d) + 1024 \<and> dec_bufsize d' \<le> dec_maxsize d \<and>
     \<not> dec_static d \<and> alloc (dec_bufsize d'))"
  using assms no_wrap_add [of "dec_bufsize d" DEFAULT_BUFFER_SIZE]
  by (auto simp: decoder_put_byte_def decoder_set_capacity_def decoder_store_def Let_def
      bind_eq_Some_conv DEFAULT_BUFFER_SIZE_def not_less split: if_splits)

lemma dispatch_bufsize:
  assumes "decoder_dispatch alloc d b = Some (r, frame, n, d')"
  shows "dec_bufsize d' = dec_bufsize d \<or>
    (\<exists>r0 d0. decoder_put_byte alloc d b = Some (r0, d0) \<and> dec_bufsize d' = dec_bufsize d0)"
proof (cases "dec_state d")
  case IN_FRAME_ESC
  with assms obtain r0 d0 where "decoder_put_byte alloc d b = Some (r0, d0)"
    by (auto simp: decoder_dispatch_def bind_eq_Some_conv)
  with assms IN_FRAME_ESC show ?thesis
    by (cases r0) (auto simp: decoder_dispatch_def)
next
  case IN_FRAME
  with assms show ?thesis
    by (auto simp: decoder_dispatch_def process_byte_inframe_def Let_def bind_eq_Some_conv
        split: if_splits)
qed (use assms in \<open>auto simp: decoder_dispatch_def\<close>)

lemma process_byte_bufsize:
  assumes "process_byte alloc d b = Some (r, frame, n, d')"
  shows "dec_bufsize d' = dec_bufsize d \<or>
    (unat (dec_bufsize d') = unat (dec_bufsize d) + 1024 \<and> dec_bufsize d' \<le> dec_maxsize d \<and>
     \<not> dec_static d \<and> alloc (dec_bufsize d'))"
proof -
  from assms obtain d1 where "decoder_dispatch alloc d b = Some (r, frame, n, d1)"
    and "dec_bufsize d' = dec_bufsize d1"
    by (auto simp: process_byte_def bind_eq_Some_conv split: if_splits)
  then show ?thesis using dispatch_bufsize put_byte_bufsize by metis
qed

text \<open>
  C11: The decoder never reads or writes outside its buffer: in every reachable state, for
  every byte and every answer of the allocator, processing the byte returns, and the decoder
  it leaves is reachable again.
\<close>

theorem decoder_memory_safe:
  assumes "decoder_reachable d"
  shows "\<exists>r out d'. smp_serial_protocol_decoder_process_byte alloc (Some d) b f g =
      Some (r, out, Some d') \<and> decoder_reachable d'"
proof -
  from decoder_machine.progress [OF decoder_reachable_inv [OF assms], of "(alloc, b)"]
  obtain r fr n d' where p: "process_byte alloc d b = Some (r, fr, n, d')"
    by (auto simp: decoder_step_def)
  then have "decoder_step d (alloc, b) = Some ((r, fr, n), d')" by (simp add: decoder_step_def)
  with assms have "decoder_reachable d'" by (rule decoder_reachable.byte)
  with p assms show ?thesis by (auto simp: smp_serial_protocol_decoder_process_byte_def)
qed

text \<open>
  C5: Each step of the decoder is a step of the abstract machine that collects unescaped bytes
  between a start and an end byte; a frame is reported only without an error, and a step
  changes neither the storage class nor the configured maximum.
\<close>

theorem decoder_refines_abstract:
  assumes "decoder_reachable d" and "process_byte alloc d b = Some (r, frame, n, d')"
  shows "(observed (r, frame, n), abs_decoder d') = abs_step (decoder_room alloc d) (abs_decoder d) b \<and>
    (r \<noteq> ok \<longrightarrow> frame = None) \<and> dec_static d' = dec_static d \<and> dec_maxsize d' = dec_maxsize d"
proof -
  have "decoder_step d (alloc, b) = Some ((r, frame, n), d')"
    using assms(2) by (simp add: decoder_step_def)
  from decoder_stepD [OF decoder_reachable_inv [OF assms(1)] this] show ?thesis
    by (simp add: step_refines_def)
qed

text \<open>
  The buffer of a reachable decoder never grows past the configured maximum, grows by
  exactly 1024 bytes when it grows, never shrinks, and in static storage never changes size.
\<close>

theorem decoder_capacity_bounded:
  assumes "decoder_reachable d" and "process_byte alloc d b = Some (r, frame, n, d')"
  shows "dec_bufsize d' = dec_bufsize d \<or>
    (unat (dec_bufsize d') = unat (dec_bufsize d) + 1024 \<and> dec_bufsize d' \<le> dec_maxsize d \<and>
     \<not> dec_static d \<and> alloc (dec_bufsize d'))"
  using assms(2) by (rule process_byte_bufsize)

text \<open>
  C27: What an error does to the state: any byte but the start byte sends the decoder back to
  waiting for a header; a start byte inside a frame restarts the frame there; but an escaped
  start byte that cannot be stored leaves the decoder in the escape state with what it had
  collected, so the next byte is taken as data.
\<close>

theorem decoder_state_after_error:
  assumes "decoder_reachable d" and "process_byte alloc d b = Some (Inl e, frame, n, d')"
  shows "abs_decoder d' =
    (if b \<noteq> START_BYTE then Idle
     else if dec_state d = IN_FRAME then Receiving []
     else abs_decoder d)"
proof -
  have "decoder_step d (alloc, b) = Some ((Inl e, frame, n), d')"
    using assms(2) by (simp add: decoder_step_def)
  from decoder_stepD [OF decoder_reachable_inv [OF assms(1)] this]
  have "(Inl e, abs_decoder d') = abs_step (decoder_room alloc d) (abs_decoder d) b"
    by (simp add: step_refines_def)
  then show ?thesis
    by (auto simp: abs_decoder_def Let_def split: decoder_state.splits if_splits sum.splits)
qed

text \<open>
  C25: A payload the decoder reports was sent, if the only errors so far were broken frames, so that no
  byte was refused for lack of memory or space: the bytes received end with a start byte, bytes
  that unescape to the payload followed by its checksum, and the end byte.
\<close>

theorem decoder_payload_sound:
  assumes "decoder_reachable d" and "dec_state d = WAIT_HEADER"
    and "run_steps decoder_step d (is @ [i]) = Some (outs @ [out], d')"
    and "only_bad_message outs" and "decoder_payload out = Some p"
  shows "\<exists>pre w. map snd (is @ [i]) = pre @ [START_BYTE] @ w @ [END_BYTE] \<and>
    unescape w = Some (p @ [compute_checksum p])"
proof -
  have inv: "decoder_inv d" using assms(1) by (rule decoder_reachable_inv)
  from assms(3) obtain o1 o2 d1 where r: "run_steps decoder_step d is = Some (o1, d1)"
    and r2: "run_steps decoder_step d1 [i] = Some (o2, d')" and outs: "outs @ [out] = o1 @ o2"
    by (rule run_steps_appendE)
  from r2 outs have r1: "run_steps decoder_step d is = Some (outs, d1)"
    and s: "decoder_step d1 i = Some (out, d')"
    using r by (auto split: option.splits)
  have inv1: "decoder_inv d1" using inv r1 by (rule decoder_machine.run_inv)
  have tr: "traced (map snd is) (abs_decoder d1)"
    using inv _ r1 assms(4) by (rule decoder_traced) (simp add: decoder_idle_def assms(2))
  have "observed out = Inr (Some p)"
    using assms(5) by (auto simp: decoder_payload.simps split: sum.splits)
  moreover have "step_refines (fst i) d1 (snd i) out d'" using inv1 s by (rule decoder_stepD)
  ultimately have "abs_step (decoder_room (fst i) d1) (abs_decoder d1) (snd i) =
      (Inr (Some p), abs_decoder d')" by (simp add: step_refines_def)
  from abs_step_frame [OF this] have end_byte: "snd i = END_BYTE"
    and a: "abs_decoder d1 = Receiving (p @ [compute_checksum p])" by simp_all
  from tr a obtain pre w where "map snd is = pre @ [START_BYTE] @ w"
    and "unescape w = Some (p @ [compute_checksum p])" by auto
  with end_byte show ?thesis by auto
qed

section \<open>The encoder and the decoder together\<close>

lemma encode_bytes:
  assumes small: "length p < 2 ^ 62"
    and buf: "\<And>buf. out = Some buf \<Longrightarrow> unat outsize \<le> length buf \<and> length buf < 2 ^ 64"
    and enc: "smp_serial_protocol_encode alloc junk (Some (p @ rest)) (of_nat (length p))
      (Some out) outsize = Some (Inr n, Some (Some txbuf))"
  shows "take (unat n) txbuf = serial_frame p"
proof -
  have l: "2 * length p + 4 < 2 ^ 64" using small by simp
  have "length (serial_frame p) < 2 ^ 64"
    using serial_frame_fits [of p] length_filter_le [of is_magic_byte p] l by linarith
  then have n: "unat (of_nat (length (serial_frame p)) :: size_t) = length (serial_frame p)"
    by (rule unat_of_nat_size)
  show ?thesis
  proof (cases out)
    case None
    with enc encode_allocated_buffer [OF l, of alloc junk rest outsize] n show ?thesis
      by (auto split: if_splits)
  next
    case (Some b)
    with enc buf [OF Some] encode_caller_buffer [OF l, of outsize b alloc junk rest] n
    show ?thesis by (auto split: if_splits)
  qed
qed

text \<open>
  C2: Round trip: whatever buffer the encoder was given, when it succeeds, feeding the bytes it
  wrote to any reachable decoder that is not in the middle of an escape and has room for the
  payload reports exactly that payload and leaves the decoder waiting for a header. A decoder
  inside an unfinished frame reports one error, at the start byte.
\<close>

theorem serial_roundtrip:
  assumes "length p < 2 ^ 62"
    and "\<And>buf. out = Some buf \<Longrightarrow> unat outsize \<le> length buf \<and> length buf < 2 ^ 64"
    and "smp_serial_protocol_encode alloc junk (Some (p @ rest)) (of_nat (length p))
      (Some out) outsize = Some (Inr n, Some (Some txbuf))"
    and "decoder_reachable d" and "dec_state d \<noteq> IN_FRAME_ESC"
    and "decoder_fits d is (length p)" and "map snd is = take (unat n) txbuf"
  shows "\<exists>outs d'. run_steps decoder_step d is = Some (outs, d') \<and> dec_state d' = WAIT_HEADER \<and>
    List.map_filter decoder_payload outs = [p] \<and>
    filter decoder_failed outs = (if dec_state d = WAIT_HEADER then [] else [hd outs])"
proof -
  have frame: "map snd is = serial_frame p"
    using encode_bytes [OF assms(1-3)] assms(7) by simp
  have inv: "decoder_inv d" using assms(4) by (rule decoder_reachable_inv)
  obtain outs d' where run: "run_steps decoder_step d is = Some (outs, d')"
    using decoder_machine.run_progress [OF inv, of "is"] by blast
  let ?w = "p @ [compute_checksum p]"
  have "decoder_fits d is (length ?w - 1)" "map snd is = line_frame ?w"
    using assms(6) frame by (simp_all add: line_frame_payload)
  from decoder_frame_run [OF inv assms(5) this run] obtain out outs'
    where idle: "dec_state d' = WAIT_HEADER" and outs: "outs = out # outs'"
      and first: "decoder_report out =
        (if dec_state d = WAIT_HEADER then None else Some (Inl SMP_ERROR_BAD_MESSAGE))"
      and rest: "List.map_filter decoder_report outs' = [Inr p]"
    by (auto simp: decoder_idle_def line_result_payload)
  have "List.map_filter decoder_report outs =
      (if dec_state d = WAIT_HEADER then [Inr p] else [Inl SMP_ERROR_BAD_MESSAGE, Inr p])"
    using rest first by (simp add: outs map_filter_simps)
  then have "List.map_filter decoder_payload outs = [p]"
    unfolding run_payloads by (simp add: map_filter_simps)
  moreover have "filter decoder_failed outs' = []"
    using run_failures [of outs'] rest by simp
  then have "filter decoder_failed outs = (if dec_state d = WAIT_HEADER then [] else [hd outs])"
    using report_cases [of out] first by (simp add: outs split: if_splits)
  ultimately show ?thesis using run idle by blast
qed

text \<open>
  A stream of frames, damaged or not, with bytes other than the start byte before each of them,
  is reported frame by frame.
\<close>

lemma line_stream:
  assumes "decoder_reachable d" and "dec_state d = WAIT_HEADER"
    and "\<forall>(noise, w)\<in>set segs. START_BYTE \<notin> set noise \<and> decoder_fits d is (length w - 1)"
    and "map snd is = concat (map (\<lambda>(noise, w). noise @ line_frame w) segs)"
  obtains outs d' where "run_steps decoder_step d is = Some (outs, d')" "dec_state d' = WAIT_HEADER"
    "List.map_filter decoder_report outs = map (\<lambda>(noise, w). line_result w) segs"
proof -
  have inv: "decoder_inv d" using assms(1) by (rule decoder_reachable_inv)
  obtain outs d' where run: "run_steps decoder_step d is = Some (outs, d')"
    using decoder_machine.run_progress [OF inv, of "is"] by blast
  have "\<forall>(noise, w)\<in>set segs. (\<forall>b\<in>set noise. b \<noteq> START_BYTE) \<and> decoder_fits d is (length w - 1)"
    using assms(3) by fastforce
  from decoder_framing.stream_run [OF inv _ this assms(4) run] assms(2) that [OF run] show thesis
    by (simp add: decoder_idle_def)
qed

text \<open>The payload and its checksum, as they cross the line.\<close>

definition checked :: "byte list \<times> byte list \<Rightarrow> byte list \<times> byte list" where
  "checked = (\<lambda>(noise, p). (noise, p @ [compute_checksum p]))"

lemma checked_stream:
  "concat (map (\<lambda>(noise, w). noise @ line_frame w) (map checked segs)) =
     concat (map (\<lambda>(noise, p). noise @ serial_frame p) segs)"
  "map (\<lambda>(noise, w). line_result w) (map checked segs) = map (\<lambda>(noise, p). Inr p) segs"
  by (induction segs) (auto simp: checked_def line_frame_payload line_result_payload)

lemma checked_segments:
  "\<forall>(noise, p)\<in>set segs. START_BYTE \<notin> set noise \<and> decoder_fits d is (length p) \<Longrightarrow>
   \<forall>(noise, w)\<in>set (map checked segs). START_BYTE \<notin> set noise \<and> decoder_fits d is (length w - 1)"
  by (fastforce simp: checked_def)

lemma payload_reports:
  "List.map_filter (case_sum (\<lambda>_. None) Some) (map (\<lambda>(noise, p). Inr p) segs) = map snd segs"
  "filter isl (map (\<lambda>(noise, p). Inr p) segs) = []"
  by (induction segs) (auto simp: map_filter_simps)

text \<open>
  A stream of frames with arbitrary bytes other than the start byte before each of them
  makes the decoder report exactly the payloads, in order, and no error.
\<close>

theorem decoder_stream:
  assumes "decoder_reachable d" and "dec_state d = WAIT_HEADER"
    and "\<forall>(noise, p)\<in>set segs. START_BYTE \<notin> set noise \<and> decoder_fits d is (length p)"
    and "map snd is = concat (map (\<lambda>(noise, p). noise @ serial_frame p) segs)"
  shows "\<exists>outs d'. run_steps decoder_step d is = Some (outs, d') \<and> dec_state d' = WAIT_HEADER \<and>
    List.map_filter decoder_payload outs = map snd segs \<and> filter decoder_failed outs = []"
proof -
  obtain outs d' where run: "run_steps decoder_step d is = Some (outs, d')" "dec_state d' = WAIT_HEADER"
    and reports: "List.map_filter decoder_report outs = map (\<lambda>(noise, p). Inr p) segs"
    by (rule line_stream [OF assms(1,2) checked_segments [OF assms(3)]])
       (simp_all only: assms(4) checked_stream)
  have "List.map_filter decoder_payload outs = map snd segs"
    by (simp only: run_payloads reports payload_reports)
  moreover have "length (filter decoder_failed outs) = 0"
    by (simp only: run_failures reports payload_reports list.size)
  ultimately show ?thesis using run by simp
qed

section \<open>Damage on the line\<close>

lemma checksum_append: "compute_checksum (xs @ ys) = compute_checksum xs XOR compute_checksum ys"
  using compute_checksum_foldl [of "compute_checksum xs" ys] by (simp add: compute_checksum_def)

lemma checksum_Cons: "compute_checksum (b # bs) = b XOR compute_checksum bs"
  using checksum_append [of "[b]" bs] by (simp add: compute_checksum_def)

text \<open>One byte changed: the exclusive or of what arrives is the difference.\<close>

lemma damage_syndrome:
  "compute_checksum ((xs @ y # ys) @ [compute_checksum (xs @ x # ys)]) = x XOR y"
  by (simp add: checksum_append checksum_Cons compute_checksum_def [of "[]"] ac_simps)

lemma damaged_result:
  assumes "x \<noteq> y"
  shows "line_result ((xs @ y # ys) @ [compute_checksum (xs @ x # ys)]) = Inl SMP_ERROR_BAD_MESSAGE"
  using assms by (simp only: line_result_def damage_syndrome xor_eq_0_iff simp_thms if_False)

text \<open>
  C20: The checksum detects every change of one ordinary byte to another one: when a payload byte that
  is not reserved arrives as another byte that is not reserved, the decoder reports one bad message
  in the place of that payload and nothing else about it, and every frame before and after it
  is reported intact. (A change into a reserved byte may go undetected, since it changes the escapes.)
\<close>

theorem damaged_frame_dropped:
  assumes "decoder_reachable d" and "dec_state d = WAIT_HEADER"
    and "\<forall>(noise, p)\<in>set (before @ (noise0, xs @ x # ys) # after).
      START_BYTE \<notin> set noise \<and> decoder_fits d is (length p)"
    and "x \<noteq> y" and "\<not> is_magic_byte x" and "\<not> is_magic_byte y"
    and "map snd is = concat (map (\<lambda>(noise, p). noise @ serial_frame p) before) @
      noise0 @ [START_BYTE] @ escape xs @ [y] @ escape ys @ escape [compute_checksum (xs @ x # ys)] @
      [END_BYTE] @ concat (map (\<lambda>(noise, p). noise @ serial_frame p) after)"
  shows "\<exists>outs d'. run_steps decoder_step d is = Some (outs, d') \<and> dec_state d' = WAIT_HEADER \<and>
    List.map_filter decoder_report outs =
      map (\<lambda>(noise, p). Inr p) before @ [Inl SMP_ERROR_BAD_MESSAGE] @ map (\<lambda>(noise, p). Inr p) after"
proof -
  let ?w = "(xs @ y # ys) @ [compute_checksum (xs @ x # ys)]"
  let ?segs = "map checked before @ (noise0, ?w) # map checked after"
  have "\<forall>(noise, w)\<in>set ?segs. START_BYTE \<notin> set noise \<and> decoder_fits d is (length w - 1)"
    using checked_segments [OF assms(3)] by (simp add: checked_def)
  moreover have "map snd is = concat (map (\<lambda>(noise, w). noise @ line_frame w) ?segs)"
    using assms(6)
    by (simp only: assms(7) map_append list.map concat_append concat.simps checked_stream prod.case)
       (simp add: line_frame_def)
  ultimately obtain outs d' where "run_steps decoder_step d is = Some (outs, d')"
    "dec_state d' = WAIT_HEADER"
    "List.map_filter decoder_report outs = map (\<lambda>(noise, w). line_result w) ?segs"
    by (rule line_stream [OF assms(1,2)])
  then show ?thesis
    by (simp only: map_append list.map checked_stream prod.case damaged_result [OF assms(4)]
        append.simps ex_simps) blast
qed

section \<open>Concrete inputs\<close>

text \<open>The example of the protocol description, and a decoder in static storage of 8 bytes.\<close>

definition sample_payload :: "byte list" where
  "sample_payload = [0x33, 0x1A, 0xFE, 0x10, 0xC0]"

definition sample_decoder :: decoder where
  "sample_decoder = \<lparr>dec_state = WAIT_HEADER, dec_buf = replicate 8 0, dec_bufsize = 8,
     dec_offset = 0, dec_maxsize = 8, dec_static = True\<rparr>"

definition sample_inputs :: "byte list \<Rightarrow> (allocator \<times> byte) list" where
  "sample_inputs bytes = map (\<lambda>b. (\<lambda>_. False, b)) bytes"

lemma sample_reachable: "decoder_reachable sample_decoder"
proof (rule decoder_reachable.static)
  show "smp_serial_protocol_decoder_new_from_static False (Some zeroed_decoder) 48
      (Some (replicate 8 0)) 8 = Some sample_decoder"
    by (simp add: smp_serial_protocol_decoder_new_from_static_def decoder_init_def
        sample_decoder_def zeroed_decoder_def SIZEOF_DECODER_def Let_def)
qed simp

lemma sample_frame:
  "serial_frame sample_payload = [0x10, 0x33, 0x1A, 0xFE, 0x1B, 0x10, 0xC0, 0x07, 0xFF]"
  by (simp add: serial_frame_def sample_payload_def compute_checksum_def is_magic_byte_def
      START_BYTE_def END_BYTE_def ESC_BYTE_def)

lemma sample_lengths:
  "length sample_payload = 5" "length (filter is_magic_byte sample_payload) = 1"
  by (simp_all add: sample_payload_def is_magic_byte_def START_BYTE_def END_BYTE_def ESC_BYTE_def)

lemma map_snd_sample_inputs [simp]: "map snd (sample_inputs bytes) = bytes"
  by (simp add: sample_inputs_def comp_def)

theorem serial_roundtrip_witness:
  "\<exists>outs d'. run_steps decoder_step sample_decoder (sample_inputs (serial_frame sample_payload)) =
     Some (outs, d') \<and> dec_state d' = WAIT_HEADER \<and>
     List.map_filter decoder_payload outs = [sample_payload]"
proof -
  have "smp_serial_protocol_encode (\<lambda>_. True) (\<lambda>_. 0) (Some (sample_payload @ []))
      (of_nat (length sample_payload)) (Some (Some (replicate 16 0))) 16 =
    Some (Inr 9, Some (Some (serial_frame sample_payload @ replicate 7 0)))"
    by (subst encode_caller_buffer)
       (simp_all add: sample_frame compute_payload_size_eq sample_lengths)
  from serial_roundtrip [OF _ _ this sample_reachable, of "sample_inputs (serial_frame sample_payload)"]
  show ?thesis
    by (auto simp: sample_decoder_def sample_lengths decoder_fits_def sample_frame)
qed

theorem serial_encode_functional_witness:
  "smp_serial_protocol_encode (\<lambda>_. True) (\<lambda>_. 0) (Some (sample_payload @ [1])) 5
     (Some (Some (replicate 8 0))) 8 = Some (Inl SMP_ERROR_OVERFLOW, Some (Some (replicate 8 0))) \<and>
   smp_serial_protocol_encode (\<lambda>_. True) (\<lambda>_. 0) (Some (sample_payload @ [1])) 5
     (Some None) 8 =
   Some (Inr 9, Some (Some [0x10, 0x33, 0x1A, 0xFE, 0x1B, 0x10, 0xC0, 0x07, 0xFF, 0]))"
proof -
  have "compute_payload_size sample_payload = 10"
    by (simp add: compute_payload_size_eq sample_lengths)
  then show ?thesis
    using serial_encode_functional [of sample_payload 8 "replicate 8 0" "\<lambda>_. True" "\<lambda>_. 0" "[1]"]
    by (simp add: sample_lengths sample_frame upt_rec)
qed

theorem serial_payload_size_tight_witness:
  "unat (compute_payload_size sample_payload) = 10"
  using serial_payload_size_tight [of sample_payload]
  by (simp add: sample_lengths sample_frame)
     (simp add: sample_payload_def compute_checksum_def is_magic_byte_def START_BYTE_def
      END_BYTE_def ESC_BYTE_def)

theorem decoder_memory_safe_witness:
  "\<exists>r out d'. smp_serial_protocol_decoder_process_byte (\<lambda>_. False) (Some sample_decoder) 0x41
     True True = Some (r, out, Some d') \<and> decoder_reachable d'"
  by (rule decoder_memory_safe [OF sample_reachable])

lemma sample_start:
  "process_byte (\<lambda>_. False) sample_decoder START_BYTE =
     Some (ok, None, 0, sample_decoder\<lparr>dec_state := IN_FRAME\<rparr>)"
  by (simp add: process_byte_def decoder_dispatch_def sample_decoder_def)

theorem decoder_refines_abstract_witness:
  "abs_decoder (sample_decoder\<lparr>dec_state := IN_FRAME\<rparr>) = Receiving []"
  using decoder_refines_abstract [OF sample_reachable sample_start]
  by (simp add: abs_decoder_def sample_decoder_def)

theorem decoder_capacity_bounded_witness:
  "dec_bufsize (sample_decoder\<lparr>dec_state := IN_FRAME\<rparr>) = 8"
  using decoder_capacity_bounded [OF sample_reachable sample_start]
  by (simp add: sample_decoder_def)

text \<open>A static decoder of one byte that is full and has just received an escape byte.\<close>

definition full_decoder :: decoder where
  "full_decoder = \<lparr>dec_state = IN_FRAME_ESC, dec_buf = [0x41], dec_bufsize = 1, dec_offset = 1,
     dec_maxsize = 1, dec_static = True\<rparr>"

lemma decoder_reachable_run:
  "run_steps decoder_step d is = Some (outs, d') \<Longrightarrow> decoder_reachable d \<Longrightarrow> decoder_reachable d'"
proof (induction "is" arbitrary: d outs)
  case Nil
  then show ?case by simp
next
  case (Cons i "is")
  from Cons.prems(1) obtain out d1 outs' where "decoder_step d i = Some (out, d1)"
    and r: "run_steps decoder_step d1 is = Some (outs', d')" by (rule run_steps_ConsE)
  with Cons.prems(2) have "decoder_reachable d1" by (blast intro: decoder_reachable.byte)
  with Cons.IH [OF r] show ?case .
qed

lemma full_reachable: "decoder_reachable full_decoder"
proof -
  define d0 where "d0 = full_decoder\<lparr>dec_state := WAIT_HEADER, dec_buf := [0], dec_offset := 0\<rparr>"
  have "smp_serial_protocol_decoder_new_from_static False (Some zeroed_decoder) 48 (Some [0]) 1 = Some d0"
    by (simp add: smp_serial_protocol_decoder_new_from_static_def decoder_init_def d0_def
        full_decoder_def zeroed_decoder_def SIZEOF_DECODER_def Let_def)
  then have "decoder_reachable d0" by (rule decoder_reachable.static) simp
  moreover have "run_steps decoder_step d0 (sample_inputs [START_BYTE, 0x41, ESC_BYTE]) =
      Some (replicate 3 (ok, None, 0), full_decoder)"
    unfolding d0_def by code_simp
  ultimately show ?thesis by (blast intro: decoder_reachable_run)
qed

theorem decoder_state_after_error_witness:
  "process_byte (\<lambda>_. True) full_decoder START_BYTE = Some (Inl SMP_ERROR_TOO_BIG, None, 0, full_decoder) \<and>
   abs_decoder full_decoder = Escaping [0x41]"
proof -
  have "process_byte (\<lambda>_. True) full_decoder START_BYTE =
      Some (Inl SMP_ERROR_TOO_BIG, None, 0, full_decoder)" by code_simp
  with decoder_state_after_error [OF full_reachable this] show ?thesis
    by (simp add: full_decoder_def abs_decoder_def)
qed

theorem decoder_payload_sound_witness:
  "\<exists>pre w. serial_frame sample_payload = pre @ [START_BYTE] @ w @ [END_BYTE] \<and>
     unescape w = Some (sample_payload @ [0x07])"
proof -
  let ?bytes = "[0x10, 0x33, 0x1A, 0xFE, 0x1B, 0x10, 0xC0, 0x07] :: byte list"
  have run: "run_steps decoder_step sample_decoder (sample_inputs ?bytes @ [(\<lambda>_. False, 0xFF)]) =
      Some (replicate 8 (ok, None, 0) @ [(ok, Some [0x33, 0x1A, 0xFE, 0x10, 0xC0, 0x07, 0, 0], 5)],
        sample_decoder\<lparr>dec_buf := [0x33, 0x1A, 0xFE, 0x10, 0xC0, 0x07, 0, 0], dec_offset := 6\<rparr>)"
    by code_simp
  have "dec_state sample_decoder = WAIT_HEADER" by (simp add: sample_decoder_def)
  moreover have "only_bad_message (replicate 8 (ok, None, 0))"
    by (simp add: only_bad_message_def)
  moreover have "decoder_payload (ok, Some [0x33, 0x1A, 0xFE, 0x10, 0xC0, 0x07, 0, 0], 5) =
      Some sample_payload" by code_simp
  moreover have "compute_checksum sample_payload = 0x07" by code_simp
  ultimately show ?thesis
    using decoder_payload_sound [OF sample_reachable _ run, of sample_payload]
    by (simp add: sample_frame)
qed

theorem decoder_stream_witness:
  "\<exists>outs d'. run_steps decoder_step sample_decoder
      (sample_inputs ([0xFF, 0x00] @ serial_frame sample_payload @ [0x1B] @ serial_frame [])) =
     Some (outs, d') \<and> List.map_filter decoder_payload outs = [sample_payload, []]"
proof -
  let ?segs = "[([0xFF, 0x00], sample_payload), ([0x1B], [])] :: (byte list \<times> byte list) list"
  let ?is = "sample_inputs ([0xFF, 0x00] @ serial_frame sample_payload @ [0x1B] @ serial_frame [])"
  have "dec_state sample_decoder = WAIT_HEADER" by (simp add: sample_decoder_def)
  moreover have "\<forall>(noise, p)\<in>set ?segs. START_BYTE \<notin> set noise \<and>
      decoder_fits sample_decoder ?is (length p)"
    by (simp add: decoder_fits_def sample_lengths START_BYTE_def) (simp add: sample_decoder_def)
  ultimately show ?thesis
    using decoder_stream [OF sample_reachable, of ?segs ?is] by auto
qed


text \<open>The frame of the example with \<open>0x33\<close> received as \<open>0x34\<close>, then a good frame.\<close>

theorem damaged_frame_dropped_witness:
  "\<exists>outs d'. run_steps decoder_step sample_decoder
      (sample_inputs ([0x10, 0x34, 0x1A, 0xFE, 0x1B, 0x10, 0xC0, 0x07, 0xFF] @ serial_frame [0x41])) =
     Some (outs, d') \<and> dec_state d' = WAIT_HEADER \<and>
     List.map_filter decoder_report outs = [Inl SMP_ERROR_BAD_MESSAGE, Inr [0x41]]"
proof -
  let ?is = "sample_inputs ([0x10, 0x34, 0x1A, 0xFE, 0x1B, 0x10, 0xC0, 0x07, 0xFF] @ serial_frame [0x41])"
  have "dec_state sample_decoder = WAIT_HEADER" by (simp add: sample_decoder_def)
  moreover have "\<forall>(noise, p)\<in>set ([] @ ([], [] @ 0x33 # [0x1A, 0xFE, 0x10, 0xC0]) # [([], [0x41])]).
      START_BYTE \<notin> set noise \<and> decoder_fits sample_decoder ?is (length p)"
    by (simp add: decoder_fits_def) (simp add: sample_decoder_def)
  moreover have "(0x33 :: byte) \<noteq> 0x34" "\<not> is_magic_byte 0x33" "\<not> is_magic_byte 0x34"
    by (simp_all add: is_magic_byte_def START_BYTE_def END_BYTE_def ESC_BYTE_def)
  moreover have "map snd ?is = concat (map (\<lambda>(noise, p). noise @ serial_frame p) []) @
      [] @ [START_BYTE] @ escape [] @ [0x34] @ escape [0x1A, 0xFE, 0x10, 0xC0] @
      escape [compute_checksum ([] @ 0x33 # [0x1A, 0xFE, 0x10, 0xC0])] @
      [END_BYTE] @ concat (map (\<lambda>(noise, p). noise @ serial_frame p) [([], [0x41])])"
    by (simp add: compute_checksum_def is_magic_byte_def START_BYTE_def END_BYTE_def ESC_BYTE_def)
  ultimately show ?thesis
    using damaged_frame_dropped [OF sample_reachable, of "[]" "[]" "[]" "0x33"] by fastforce
qed

end
