(* ===== verification/Smp_Serial_Sync.thy ===== *)
theory Smp_Serial_Sync
  imports Smp_Serial_Spec
begin

text \<open>
  How the decoder of \<open>src/serial-protocol.c\<close> gets back in step with its peer. A receiver may be
  started, or have lost bytes, anywhere in the stream: in the middle of a frame, after an escape
  byte, with a buffer that is full. One whole frame puts it back between two frames, whatever it
  made of that frame, and nothing after it is lost.
\<close>

section \<open>Refusals that last\<close>

text \<open>
  The allocator gives every call the same answers, or the decoder is in static storage and asks
  for nothing: a byte that has no room now has none later.
\<close>

definition steady :: "allocator \<Rightarrow> decoder \<Rightarrow> (allocator \<times> byte) list \<Rightarrow> bool" where
  "steady alloc d is \<longleftrightarrow> dec_static d \<or> (\<forall>i\<in>set is. fst i = alloc)"

lemma steady_room: "steady alloc d (i # is) \<Longrightarrow> decoder_room (fst i) d = decoder_room alloc d"
  by (auto simp: steady_def decoder_room_def)

lemma steady_step: "step_refines al d b out d' \<Longrightarrow> steady alloc d (i # is) \<Longrightarrow> steady alloc d' is"
  by (auto simp: steady_def step_refines_def)

lemma steady_append: "steady alloc d (is @ js) \<Longrightarrow> steady alloc d is"
  by (auto simp: steady_def)

lemma steady_run:
  "decoder_inv d \<Longrightarrow> steady alloc d (is @ js) \<Longrightarrow> run_steps decoder_step d is = Some (outs, d') \<Longrightarrow>
   steady alloc d' js"
proof (induction "is" arbitrary: d outs)
  case (Cons i "is")
  from Cons.prems(3) obtain out d1 outs' where st: "decoder_step d i = Some (out, d1)"
    and rn: "run_steps decoder_step d1 is = Some (outs', d')" by (rule run_steps_ConsE)
  have ref: "step_refines (fst i) d (snd i) out d1" using Cons.prems(1) st by (rule decoder_stepD)
  then show ?case
    using Cons.IH [OF _ _ rn] steady_step [OF ref, of alloc i "is @ js"] Cons.prems(2)
    by (auto simp: step_refines_def)
qed simp

lemma room_refused_bufsize:
  assumes "decoder_step d i = Some (out, d')" and "decoder_room (fst i) d \<noteq> ok"
  shows "dec_bufsize d' = dec_bufsize d"
proof (rule ccontr)
  assume grown: "dec_bufsize d' \<noteq> dec_bufsize d"
  obtain r fr n where "process_byte (fst i) d (snd i) = Some (r, fr, n, d')"
    using assms(1) by (auto simp: decoder_step_def)
  from process_byte_bufsize [OF this] grown
  have new: "unat (dec_bufsize d') = unat (dec_bufsize d) + 1024" "dec_bufsize d' \<le> dec_maxsize d"
    "\<not> dec_static d" "fst i (dec_bufsize d')" by simp_all
  then have "unat (dec_bufsize d + DEFAULT_BUFFER_SIZE) = unat (dec_bufsize d')"
    using unat_less_2_64 [of "dec_bufsize d'"] by (simp add: DEFAULT_BUFFER_SIZE_def unat_add_size)
  then have "dec_bufsize d + DEFAULT_BUFFER_SIZE = dec_bufsize d'"
    by (simp add: word_unat_eq_iff)
  with new have "decoder_room (fst i) d = ok"
    by (simp add: decoder_room_def word_less_nat_alt word_le_nat_alt not_less)
  with assms(2) show False by simp
qed

text \<open>A start byte that found no room in the escape state leaves a decoder that has none either.\<close>

lemma refused_again:
  assumes inv: "decoder_inv d" and esc: "abs_decoder d = Escaping xs" "abs_decoder d' = Escaping xs"
    and "steady alloc d (i # is)" and st: "decoder_step d i = Some (out, d')"
    and room: "decoder_room alloc d \<noteq> ok"
  shows "decoder_room alloc d' \<noteq> ok"
proof -
  have ref: "step_refines (fst i) d (snd i) out d'" using inv st by (rule decoder_stepD)
  then have inv': "decoder_inv d'"
    and same: "dec_static d' = dec_static d" "dec_maxsize d' = dec_maxsize d"
    by (simp_all add: step_refines_def)
  have off: "dec_offset d' = dec_offset d"
    using abs_decoder_offset [OF inv] abs_decoder_offset [OF inv'] esc by (simp add: word_unat_eq_iff)
  have "decoder_room (fst i) d \<noteq> ok" using steady_room [OF assms(4)] room by simp
  with st have "dec_bufsize d' = dec_bufsize d" by (rule room_refused_bufsize)
  with same off have "decoder_room alloc d' = decoder_room alloc d" by (simp add: decoder_room_def)
  with room show ?thesis by simp
qed

section \<open>In step with the peer\<close>

text \<open>
  Where the decoder may be between two characters of a frame: never in the escape state, unless
  an escaped start byte was refused for want of room.
\<close>

definition in_step :: "allocator \<Rightarrow> decoder \<Rightarrow> bool" where
  "in_step alloc d \<longleftrightarrow> (\<forall>xs. abs_decoder d = Escaping xs \<longrightarrow> decoder_room alloc d \<noteq> ok)"

lemma step_abs:
  assumes "decoder_inv d" and "steady alloc d (i # is)" and "decoder_step d i = Some (out, d')"
  shows "decoder_inv d' \<and> steady alloc d' is \<and>
    abs_decoder d' = snd (abs_step (decoder_room alloc d) (abs_decoder d) (snd i))"
proof -
  have ref: "step_refines (fst i) d (snd i) out d'" using assms(1,3) by (rule decoder_stepD)
  then have "(observed out, abs_decoder d') =
      abs_step (decoder_room alloc d) (abs_decoder d) (snd i)"
    using steady_room [OF assms(2)] by (simp add: step_refines_def)
  then have "abs_decoder d' = snd (abs_step (decoder_room alloc d) (abs_decoder d) (snd i))"
    by (metis snd_conv)
  with ref steady_step [OF ref assms(2)] show ?thesis by (simp add: step_refines_def)
qed

text \<open>Every byte but an escape byte inside a frame leaves the decoder in step.\<close>

lemma in_step_after:
  assumes "decoder_inv d" and "steady alloc d (i # is)" and "decoder_step d i = Some (out, d')"
    and "snd i = ESC_BYTE \<longrightarrow> (\<nexists>xs. abs_decoder d = Receiving xs)"
  shows "in_step alloc d'"
  unfolding in_step_def
proof (intro allI impI)
  fix xs
  assume esc': "abs_decoder d' = Escaping xs"
  with step_abs [OF assms(1-3)] assms(4)
  have "abs_decoder d = Escaping xs \<and> decoder_room alloc d \<noteq> ok"
    by (cases "abs_decoder d") (auto split: if_splits sum.splits)
  with refused_again [OF assms(1) _ esc' assms(2,3)] show "decoder_room alloc d' \<noteq> ok" by blast
qed

lemma in_step_end:
  assumes "decoder_inv d" and "in_step alloc d" and "steady alloc d (i # is)"
    and "decoder_step d i = Some (out, d')" and "snd i = END_BYTE"
  shows "decoder_idle d'"
  using step_abs [OF assms(1,3,4)] assms(2,5)
  by (cases "abs_decoder d")
     (auto simp: in_step_def simp flip: abs_decoder_Idle split: if_splits sum.splits)

lemma in_step_escape:
  assumes "decoder_inv d" and "in_step alloc d" and "steady alloc d (i # is)"
    and "decoder_step d i = Some (out, d')" and "snd i = ESC_BYTE"
  shows "\<nexists>xs. abs_decoder d' = Receiving xs"
  using step_abs [OF assms(1,3,4)] assms(2,5)
  by (cases "abs_decoder d") (auto simp: in_step_def simp del: abs_decoder_Idle split: sum.splits)

lemma in_step_char:
  assumes inv: "decoder_inv d" and step: "in_step alloc d" and st: "steady alloc d (is @ js)"
    and bytes: "map snd is = escape [b]" and run: "run_steps decoder_step d is = Some (outs, d')"
  shows "in_step alloc d'"
proof (cases "is_magic_byte b")
  case False
  with bytes obtain al where "is": "is = [(al, b)]" by auto
  with run obtain out where "decoder_step d (al, b) = Some (out, d')" by (auto split: option.splits)
  with inv st False show ?thesis
    by (intro in_step_after [of d alloc "(al, b)" js]) (auto simp: "is" is_magic_byte_def)
next
  case True
  with bytes obtain al1 al2 where "is": "is = [(al1, ESC_BYTE), (al2, b)]" by auto
  with run obtain o1 o2 d1 where s1: "decoder_step d (al1, ESC_BYTE) = Some (o1, d1)"
    and s2: "decoder_step d1 (al2, b) = Some (o2, d')" by (auto split: option.splits)
  have st1: "steady alloc d ((al1, ESC_BYTE) # (al2, b) # js)" using st by (simp add: "is")
  have "\<nexists>xs. abs_decoder d1 = Receiving xs" using in_step_escape [OF inv step st1 s1] by simp
  with step_abs [OF inv st1 s1] s2 show ?thesis
    by (intro in_step_after [of d1 alloc "(al2, b)" js]) auto
qed

lemma in_step_chars:
  "decoder_inv d \<Longrightarrow> in_step alloc d \<Longrightarrow> steady alloc d (is @ js) \<Longrightarrow> map snd is = escape bs \<Longrightarrow>
   run_steps decoder_step d is = Some (outs, d') \<Longrightarrow> in_step alloc d'"
proof (induction bs arbitrary: d "is" outs)
  case (Cons b bs)
  have "map snd is = escape [b] @ escape bs" using Cons.prems(4) by simp
  then obtain is1 is2 where "is": "is = is1 @ is2" and m1: "map snd is1 = escape [b]"
    and m2: "map snd is2 = escape bs" by (rule map_eq_appendE)
  from Cons.prems(5) obtain o1 o2 d1 where r1: "run_steps decoder_step d is1 = Some (o1, d1)"
    and r2: "run_steps decoder_step d1 is2 = Some (o2, d')" unfolding "is" by (rule run_steps_appendE)
  have st: "steady alloc d (is1 @ is2 @ js)" using Cons.prems(3) by (simp add: "is")
  have "in_step alloc d1" using Cons.prems(1,2) st m1 r1 by (rule in_step_char)
  then show ?case
    using Cons.IH [OF decoder_machine.run_inv [OF Cons.prems(1) r1] _ _ m2 r2]
      steady_run [OF Cons.prems(1) st r1] by simp
qed simp

text \<open>A whole frame, damaged or not, leaves every decoder between two frames.\<close>

lemma frame_resynchronises:
  assumes inv: "decoder_inv d" and st: "steady alloc d is" and bytes: "map snd is = line_frame w"
    and run: "run_steps decoder_step d is = Some (outs, d')"
  shows "decoder_idle d'"
proof -
  from bytes obtain al is1 where "is": "is = (al, START_BYTE) # is1"
    and m1: "map snd is1 = escape w @ [END_BYTE]" by (auto simp: line_frame_def)
  from m1 obtain is2 is3 where is1: "is1 = is2 @ is3" and m2: "map snd is2 = escape w"
    and "map snd is3 = [END_BYTE]" by (rule map_eq_appendE)
  then obtain al3 where is3: "is3 = [(al3, END_BYTE)]" by auto
  from run obtain o1 os d1 where s1: "decoder_step d (al, START_BYTE) = Some (o1, d1)"
    and r1: "run_steps decoder_step d1 (is2 @ is3) = Some (os, d')"
    unfolding "is" is1 by (rule run_steps_ConsE)
  from r1 obtain o2 o3 d2 where r2: "run_steps decoder_step d1 is2 = Some (o2, d2)"
    and r3: "run_steps decoder_step d2 is3 = Some (o3, d')" by (rule run_steps_appendE)
  from r3 obtain out where s3: "decoder_step d2 (al3, END_BYTE) = Some (out, d')"
    by (auto simp: is3 split: option.splits)
  have st0: "steady alloc d ((al, START_BYTE) # is2 @ is3)" using st by (simp add: "is" is1)
  have d1: "decoder_inv d1" "steady alloc d1 (is2 @ is3)" using step_abs [OF inv st0 s1] by simp_all
  have "in_step alloc d1" using in_step_after [OF inv st0 s1] by simp
  from in_step_chars [OF d1(1) this d1(2) m2 r2] have "in_step alloc d2" .
  moreover have "decoder_inv d2" using d1(1) r2 by (rule decoder_machine.run_inv)
  moreover have "steady alloc d2 is3" using d1 r2 by (rule steady_run)
  ultimately show ?thesis
    using in_step_end [of d2 alloc "(al3, END_BYTE)" "[]"] s3 by (simp add: is3)
qed

section \<open>The properties\<close>

text \<open>
  C6: Resynchronisation, when the allocator gives the same answers throughout the frame (or the
  decoder is in static storage): from any reachable decoder, between two frames or inside one,
  after an escape byte, with a full buffer, one whole frame on the line, damaged or too large or
  not, leaves the decoder waiting for a header. The frames that follow and for which there is room,
  with any bytes but the start byte before each of them, are then reported one by one, without an
  error.
\<close>

theorem decoder_resynchronises:
  assumes "decoder_reachable d" and "steady alloc d is" and "map snd is = line_frame w"
    and "\<forall>(noise, p)\<in>set segs. START_BYTE \<notin> set noise \<and> decoder_fits d (is @ js) (length p)"
    and "map snd js = concat (map (\<lambda>(noise, p). noise @ serial_frame p) segs)"
  shows "\<exists>outs d1 outs' d'. run_steps decoder_step d is = Some (outs, d1) \<and>
    dec_state d1 = WAIT_HEADER \<and> run_steps decoder_step d1 js = Some (outs', d') \<and>
    dec_state d' = WAIT_HEADER \<and> List.map_filter decoder_report outs' = map (\<lambda>(noise, p). Inr p) segs"
proof -
  have inv: "decoder_inv d" using assms(1) by (rule decoder_reachable_inv)
  obtain outs d1 where r1: "run_steps decoder_step d is = Some (outs, d1)"
    using decoder_machine.run_progress [OF inv, of "is"] by blast
  have idle: "dec_state d1 = WAIT_HEADER"
    using frame_resynchronises [OF inv assms(2,3) r1] by (simp add: decoder_idle_def)
  have "\<forall>(noise, p)\<in>set segs. START_BYTE \<notin> set noise \<and> decoder_fits d1 js (length p)"
    using assms(4) decoder_fits_run [OF inv _ r1] by fastforce
  from checked_segments [OF this]
  obtain outs' d' where "run_steps decoder_step d1 js = Some (outs', d')"
    "dec_state d' = WAIT_HEADER"
    "List.map_filter decoder_report outs' = map (\<lambda>(noise, p). Inr p) segs"
    by (rule line_stream [OF decoder_reachable_run [OF r1 assms(1)] idle])
       (simp_all only: assms(5) checked_stream)
  with r1 idle show ?thesis by blast
qed

text \<open>
  A refusal that does not last is the exception: a decoder that asked for memory in the escape
  state, was refused, and is granted it on the next byte, takes the end byte of the frame for data.
\<close>

lemma passing_refusal_keeps_frame_open:
  "map_option (\<lambda>(outs, d). dec_state d)
     (Option.bind (smp_serial_protocol_decoder_new False (\<lambda>_. True) (\<lambda>_. True) 1) (\<lambda>d.
        run_steps decoder_step d
          (map (Pair (\<lambda>_. False)) [START_BYTE, 0x41, ESC_BYTE, START_BYTE] @
           map (Pair (\<lambda>_. True)) [ESC_BYTE, ESC_BYTE, END_BYTE]))) = Some IN_FRAME"
  by code_simp

section \<open>Witnesses\<close>

text \<open>
  The full static decoder of one byte that has just received an escape byte: a frame it has no
  room for, then a frame it reports.
\<close>

theorem decoder_resynchronises_witness:
  "\<exists>outs d1 outs' d'.
     run_steps decoder_step full_decoder (sample_inputs (line_frame [0x10, 0x1B, 0x41])) = Some (outs, d1) \<and>
     dec_state d1 = WAIT_HEADER \<and>
     run_steps decoder_step d1 (sample_inputs ([0xFF] @ serial_frame [])) = Some (outs', d') \<and>
     dec_state d' = WAIT_HEADER \<and> List.map_filter decoder_report outs' = [Inr []]"
proof -
  let ?is = "sample_inputs (line_frame [0x10, 0x1B, 0x41])"
  let ?js = "sample_inputs ([0xFF] @ serial_frame [])"
  have "steady (\<lambda>_. False) full_decoder ?is" by (simp add: steady_def full_decoder_def)
  moreover have "\<forall>(noise, p)\<in>set [([0xFF], [])]. START_BYTE \<notin> set noise \<and>
      decoder_fits full_decoder (?is @ ?js) (length p)"
    by (simp add: decoder_fits_def full_decoder_def START_BYTE_def)
  ultimately show ?thesis
    using decoder_resynchronises [OF full_reachable, of "\<lambda>_. False" ?is _ "[([0xFF], [])]" ?js]
    by simp
qed

end
