(* ===== verification/Smp_Wire.thy ===== *)
theory Smp_Wire
  imports Smp_Prelude
begin

text \<open>
  The fixed-width loads and stores of \<open>src/message.c\<close> (\<open>DEFINE_READ_FUNC\<close>,
  \<open>DEFINE_WRITE_FUNC\<close> and the float variants). They copy the object representation of the
  integer, so the byte order on the wire is that of the host, a parameter here. A signed value
  is the word of its two's complement representation; a \<open>float\<close> or \<open>double\<close> is the word of its
  IEEE 754 bits, which is what the unions of the code reinterpret where, as on all targets but the
  AVR, a \<open>double\<close> has 8 bytes. \<open>Smp_Narrow\<close> has the load and the store of a \<open>double\<close> of 4 bytes.
\<close>

definition smp_read_uint16 :: "byte_order \<Rightarrow> mem \<Rightarrow> u16 option" where
  "smp_read_uint16 bo data = map_option (object_word bo) (mem_read data 0 2)"

definition smp_read_int16 :: "byte_order \<Rightarrow> mem \<Rightarrow> u16 option" where
  "smp_read_int16 bo data = map_option (object_word bo) (mem_read data 0 2)"

definition smp_read_uint32 :: "byte_order \<Rightarrow> mem \<Rightarrow> u32 option" where
  "smp_read_uint32 bo data = map_option (object_word bo) (mem_read data 0 4)"

definition smp_read_int32 :: "byte_order \<Rightarrow> mem \<Rightarrow> u32 option" where
  "smp_read_int32 bo data = map_option (object_word bo) (mem_read data 0 4)"

definition smp_read_uint64 :: "byte_order \<Rightarrow> mem \<Rightarrow> u64 option" where
  "smp_read_uint64 bo data = map_option (object_word bo) (mem_read data 0 8)"

definition smp_read_int64 :: "byte_order \<Rightarrow> mem \<Rightarrow> u64 option" where
  "smp_read_int64 bo data = map_option (object_word bo) (mem_read data 0 8)"

definition smp_write_uint16 :: "byte_order \<Rightarrow> mem \<Rightarrow> nat \<Rightarrow> u16 \<Rightarrow> mem option" where
  "smp_write_uint16 bo data off v = mem_write data off (object_bytes bo 2 v)"

definition smp_write_int16 :: "byte_order \<Rightarrow> mem \<Rightarrow> nat \<Rightarrow> u16 \<Rightarrow> mem option" where
  "smp_write_int16 bo data off v = mem_write data off (object_bytes bo 2 v)"

definition smp_write_uint32 :: "byte_order \<Rightarrow> mem \<Rightarrow> nat \<Rightarrow> u32 \<Rightarrow> mem option" where
  "smp_write_uint32 bo data off v = mem_write data off (object_bytes bo 4 v)"

definition smp_write_int32 :: "byte_order \<Rightarrow> mem \<Rightarrow> nat \<Rightarrow> u32 \<Rightarrow> mem option" where
  "smp_write_int32 bo data off v = mem_write data off (object_bytes bo 4 v)"

definition smp_write_uint64 :: "byte_order \<Rightarrow> mem \<Rightarrow> nat \<Rightarrow> u64 \<Rightarrow> mem option" where
  "smp_write_uint64 bo data off v = mem_write data off (object_bytes bo 8 v)"

definition smp_write_int64 :: "byte_order \<Rightarrow> mem \<Rightarrow> nat \<Rightarrow> u64 \<Rightarrow> mem option" where
  "smp_write_int64 bo data off v = mem_write data off (object_bytes bo 8 v)"

definition smp_write_f32 :: "byte_order \<Rightarrow> mem \<Rightarrow> nat \<Rightarrow> u32 \<Rightarrow> mem option" where
  "smp_write_f32 bo data off v = smp_write_uint32 bo data off v"

definition smp_read_f32 :: "byte_order \<Rightarrow> mem \<Rightarrow> u32 option" where
  "smp_read_f32 bo data = smp_read_uint32 bo data"

definition smp_write_f64 :: "byte_order \<Rightarrow> mem \<Rightarrow> nat \<Rightarrow> u64 \<Rightarrow> mem option" where
  "smp_write_f64 bo data off v = smp_write_uint64 bo data off v"

definition smp_read_f64 :: "byte_order \<Rightarrow> mem \<Rightarrow> u64 option" where
  "smp_read_f64 bo data = smp_read_uint64 bo data"

text \<open>The float and signed variants move the same bytes as the unsigned ones.\<close>

lemmas wire_variants [wire_simps] =
  smp_read_int16_def [folded smp_read_uint16_def] smp_write_int16_def [folded smp_write_uint16_def]
  smp_read_int32_def [folded smp_read_uint32_def] smp_write_int32_def [folded smp_write_uint32_def]
  smp_read_int64_def [folded smp_read_uint64_def] smp_write_int64_def [folded smp_write_uint64_def]
  smp_read_f32_def smp_write_f32_def smp_read_f64_def smp_write_f64_def

text \<open>A load of \<open>n\<close> bytes through the object representation satisfies the field interface.\<close>

lemma object_wire_word:
  assumes "LENGTH('a::len) = 8 * n"
  shows "wire_word n (object_bytes bo n :: 'a word \<Rightarrow> byte list)
    (\<lambda>p. map_option (object_word bo) (mem_read p 0 n))
    (\<lambda>m off v. mem_write m off (object_bytes bo n v))"
  by unfold_locales (auto simp: mem_read_def object_word_object_bytes [OF assms])

interpretation u16: wire_word 2 "object_bytes bo 2" "smp_read_uint16 bo" "smp_write_uint16 bo"
  for bo
  using object_wire_word [of 2 bo, where 'a = 16]
  by (simp add: smp_read_uint16_def [abs_def] smp_write_uint16_def [abs_def])

interpretation u32: wire_word 4 "object_bytes bo 4" "smp_read_uint32 bo" "smp_write_uint32 bo"
  for bo
  using object_wire_word [of 4 bo, where 'a = 32]
  by (simp add: smp_read_uint32_def [abs_def] smp_write_uint32_def [abs_def])

interpretation u64: wire_word 8 "object_bytes bo 8" "smp_read_uint64 bo" "smp_write_uint64 bo"
  for bo
  using object_wire_word [of 8 bo, where 'a = 64]
  by (simp add: smp_read_uint64_def [abs_def] smp_write_uint64_def [abs_def])

end
