(* ===== verification/Smp_Value.thy ===== *)
theory Smp_Value
  imports Smp_Error Smp_Wire
begin

text \<open>
  The argument values of a message: \<open>SmpType\<close> and \<open>SmpValue\<close> of \<open>include/libsmp.h\<close>, and the
  static functions of \<open>src/message.c\<close> that size, encode and decode one value.

  The union of a value is the member that was last stored; \<open>UZero\<close> is the all-zero union that
  \<open>calloc\<close> and \<open>memset\<close> leave (every member reads as zero or \<open>NULL\<close>), \<open>UIndet\<close> one that was never
  written. Reading a member that was not the one stored is outside the model and is the value
  \<^const>\<open>None\<close>, like an access out of bounds. A pointer is the rest of the object it points
  into: the library does not copy strings and raw buffers, and its documentation asks that they
  stay unchanged while the message is in use. The member \<open>f64\<close> is a \<open>double\<close> of 8 bytes; the AVR,
  where it has 4, is in \<open>Smp_Narrow\<close>.
\<close>

section \<open>Types and values\<close>

datatype smp_type =
    TYPE_NONE
  | TYPE_UINT8
  | TYPE_INT8
  | TYPE_UINT16
  | TYPE_INT16
  | TYPE_UINT32
  | TYPE_INT32
  | TYPE_UINT64
  | TYPE_INT64
  | TYPE_STRING
  | TYPE_F32
  | TYPE_F64
  | TYPE_RAW
  | TYPE_MAX
  | TYPE_OTHER u32

fun int_of_type :: "smp_type \<Rightarrow> u32" where
  "int_of_type TYPE_NONE = 0x00"
| "int_of_type TYPE_UINT8 = 0x01"
| "int_of_type TYPE_INT8 = 0x02"
| "int_of_type TYPE_UINT16 = 0x03"
| "int_of_type TYPE_INT16 = 0x04"
| "int_of_type TYPE_UINT32 = 0x05"
| "int_of_type TYPE_INT32 = 0x06"
| "int_of_type TYPE_UINT64 = 0x07"
| "int_of_type TYPE_INT64 = 0x08"
| "int_of_type TYPE_STRING = 0x09"
| "int_of_type TYPE_F32 = 0x0a"
| "int_of_type TYPE_F64 = 0x0b"
| "int_of_type TYPE_RAW = 0x10"
| "int_of_type TYPE_MAX = 0x7f"
| "int_of_type (TYPE_OTHER w) = w"

text \<open>An enumeration variable can hold any \<open>int\<close>; the values without a name are \<open>TYPE_OTHER\<close>.\<close>

definition type_of_int :: "u32 \<Rightarrow> smp_type" where
  "type_of_int w =
     (if w = 0x00 then TYPE_NONE
      else if w = 0x01 then TYPE_UINT8
      else if w = 0x02 then TYPE_INT8
      else if w = 0x03 then TYPE_UINT16
      else if w = 0x04 then TYPE_INT16
      else if w = 0x05 then TYPE_UINT32
      else if w = 0x06 then TYPE_INT32
      else if w = 0x07 then TYPE_UINT64
      else if w = 0x08 then TYPE_INT64
      else if w = 0x09 then TYPE_STRING
      else if w = 0x0a then TYPE_F32
      else if w = 0x0b then TYPE_F64
      else if w = 0x10 then TYPE_RAW
      else if w = 0x7f then TYPE_MAX
      else TYPE_OTHER w)"

datatype value_union =
    UZero
  | UIndet
  | UU8 "8 word" | UI8 "8 word"
  | UU16 u16 | UI16 u16
  | UU32 u32 | UI32 u32
  | UU64 u64 | UI64 u64
  | UF32 u32 | UF64 u64
  | UCstring "mem option"
  | UCraw "mem option" size_t

record smp_value =
  vtype :: smp_type
  vval :: value_union

definition zero_value :: smp_value where
  "zero_value = \<lparr>vtype = TYPE_NONE, vval = UZero\<rparr>"

section \<open>Reading a member\<close>

fun union_u8 :: "value_union \<Rightarrow> 8 word option" where
  "union_u8 UZero = Some 0" | "union_u8 (UU8 x) = Some x" | "union_u8 _ = None"

fun union_i8 :: "value_union \<Rightarrow> 8 word option" where
  "union_i8 UZero = Some 0" | "union_i8 (UI8 x) = Some x" | "union_i8 _ = None"

fun union_u16 :: "value_union \<Rightarrow> u16 option" where
  "union_u16 UZero = Some 0" | "union_u16 (UU16 x) = Some x" | "union_u16 _ = None"

fun union_i16 :: "value_union \<Rightarrow> u16 option" where
  "union_i16 UZero = Some 0" | "union_i16 (UI16 x) = Some x" | "union_i16 _ = None"

fun union_u32 :: "value_union \<Rightarrow> u32 option" where
  "union_u32 UZero = Some 0" | "union_u32 (UU32 x) = Some x" | "union_u32 _ = None"

fun union_i32 :: "value_union \<Rightarrow> u32 option" where
  "union_i32 UZero = Some 0" | "union_i32 (UI32 x) = Some x" | "union_i32 _ = None"

fun union_u64 :: "value_union \<Rightarrow> u64 option" where
  "union_u64 UZero = Some 0" | "union_u64 (UU64 x) = Some x" | "union_u64 _ = None"

fun union_i64 :: "value_union \<Rightarrow> u64 option" where
  "union_i64 UZero = Some 0" | "union_i64 (UI64 x) = Some x" | "union_i64 _ = None"

fun union_f32 :: "value_union \<Rightarrow> u32 option" where
  "union_f32 UZero = Some 0" | "union_f32 (UF32 x) = Some x" | "union_f32 _ = None"

fun union_f64 :: "value_union \<Rightarrow> u64 option" where
  "union_f64 UZero = Some 0" | "union_f64 (UF64 x) = Some x" | "union_f64 _ = None"

fun union_cstring :: "value_union \<Rightarrow> mem option option" where
  "union_cstring UZero = Some None" | "union_cstring (UCstring p) = Some p" | "union_cstring _ = None"

fun union_craw :: "value_union \<Rightarrow> (mem option \<times> size_t) option" where
  "union_craw UZero = Some (None, 0)"
| "union_craw (UCraw p n) = Some (p, n)"
| "union_craw _ = None"

section \<open>Sizes\<close>

fun smp_type_size :: "smp_type \<Rightarrow> size_t" where
  "smp_type_size TYPE_INT8 = 1"
| "smp_type_size TYPE_UINT8 = 1"
| "smp_type_size TYPE_INT16 = 2"
| "smp_type_size TYPE_UINT16 = 2"
| "smp_type_size TYPE_INT32 = 4"
| "smp_type_size TYPE_UINT32 = 4"
| "smp_type_size TYPE_F32 = 4"
| "smp_type_size TYPE_INT64 = 8"
| "smp_type_size TYPE_UINT64 = 8"
| "smp_type_size TYPE_F64 = 8"
| "smp_type_size TYPE_STRING = 3"
| "smp_type_size TYPE_RAW = 2"
| "smp_type_size _ = 0"

definition smp_value_compute_size :: "smp_value \<Rightarrow> size_t option" where
  "smp_value_compute_size v =
     (case vtype v of
        TYPE_STRING \<Rightarrow>
          do {
            p \<leftarrow> union_cstring (vval v);
            case p of
              None \<Rightarrow> Some 3
            | Some s \<Rightarrow> do { n \<leftarrow> c_strlen s; Some (3 + n) }
          }
      | TYPE_RAW \<Rightarrow>
          do {
            (p, n) \<leftarrow> union_craw (vval v);
            Some (if p \<noteq> None then 2 + n else 2)
          }
      | _ \<Rightarrow> Some (smp_type_size (vtype v)))"

section \<open>Decoding a value\<close>

text \<open>The inner \<^const>\<open>None\<close> of the result is the null pointer the code returns for a bad string.\<close>

definition smp_message_decode_string ::
  "byte_order \<Rightarrow> mem \<Rightarrow> size_t \<Rightarrow> mem option option" where
  "smp_message_decode_string bo buffer sz =
     (if sz < 2 then Some None
      else do {
        w \<leftarrow> smp_read_uint16 bo buffer;
        let strsize = ucast w;
        if sz < 2 + strsize then Some None
        else do {
          last_byte \<leftarrow> mem_get buffer (unat (2 + strsize - 1));
          if last_byte \<noteq> 0 then Some None
          else do { s \<leftarrow> ptr_add buffer 2; Some (Some s) }
        }
      })"

definition smp_message_decode_raw ::
  "byte_order \<Rightarrow> smp_value \<Rightarrow> mem \<Rightarrow> size_t \<Rightarrow> ((smp_error + unit) \<times> smp_value) option" where
  "smp_message_decode_raw bo v buffer sz =
     (if sz < 2 then Some (Inl SMP_ERROR_BAD_MESSAGE, v)
      else do {
        w \<leftarrow> smp_read_uint16 bo buffer;
        let rawsize = ucast w;
        if sz < 2 + rawsize then Some (Inl SMP_ERROR_BAD_MESSAGE, v)
        else do {
          p \<leftarrow> ptr_add buffer 2;
          Some (Inr (), v\<lparr>vval := UCraw (Some p) rawsize\<rparr>)
        }
      })"

text \<open>
  The value is written even when decoding fails: its type is set before the size is checked.
  A string or raw argument whose own check fails is not an error of the value: the code goes on
  with the null string, or with the union as it was, and the minimal size.
\<close>

definition smp_message_decode_value ::
  "byte_order \<Rightarrow> smp_value \<Rightarrow> mem \<Rightarrow> size_t \<Rightarrow> ((smp_error + size_t) \<times> smp_value) option" where
  "smp_message_decode_value bo value buffer0 sz =
     (if sz < 2 then Some (Inl SMP_ERROR_BAD_MESSAGE, value)
      else do {
        t \<leftarrow> mem_get buffer0 0;
        buffer \<leftarrow> ptr_add buffer0 1;
        let v = value\<lparr>vtype := type_of_int (ucast t)\<rparr>;
        let argsize = 1 + smp_type_size (vtype v);
        if sz < argsize then Some (Inl SMP_ERROR_BAD_MESSAGE, v)
        else (case vtype v of
            TYPE_UINT8 \<Rightarrow>
              do { x \<leftarrow> mem_get buffer 0; Some (Inr argsize, v\<lparr>vval := UU8 x\<rparr>) }
          | TYPE_INT8 \<Rightarrow>
              do { x \<leftarrow> mem_get buffer 0; Some (Inr argsize, v\<lparr>vval := UI8 x\<rparr>) }
          | TYPE_UINT16 \<Rightarrow>
              do { x \<leftarrow> smp_read_uint16 bo buffer; Some (Inr argsize, v\<lparr>vval := UU16 x\<rparr>) }
          | TYPE_INT16 \<Rightarrow>
              do { x \<leftarrow> smp_read_int16 bo buffer; Some (Inr argsize, v\<lparr>vval := UI16 x\<rparr>) }
          | TYPE_UINT32 \<Rightarrow>
              do { x \<leftarrow> smp_read_uint32 bo buffer; Some (Inr argsize, v\<lparr>vval := UU32 x\<rparr>) }
          | TYPE_INT32 \<Rightarrow>
              do { x \<leftarrow> smp_read_int32 bo buffer; Some (Inr argsize, v\<lparr>vval := UI32 x\<rparr>) }
          | TYPE_UINT64 \<Rightarrow>
              do { x \<leftarrow> smp_read_uint64 bo buffer; Some (Inr argsize, v\<lparr>vval := UU64 x\<rparr>) }
          | TYPE_INT64 \<Rightarrow>
              do { x \<leftarrow> smp_read_int64 bo buffer; Some (Inr argsize, v\<lparr>vval := UI64 x\<rparr>) }
          | TYPE_STRING \<Rightarrow>
              do {
                s \<leftarrow> smp_message_decode_string bo buffer (sz - 1);
                let v = v\<lparr>vval := UCstring s\<rparr>;
                n \<leftarrow> smp_value_compute_size v;
                Some (Inr (1 + n), v)
              }
          | TYPE_RAW \<Rightarrow>
              do {
                (ret, v) \<leftarrow> smp_message_decode_raw bo v buffer (sz - 1);
                case ret of
                  Inl _ \<Rightarrow> Some (Inr argsize, v)
                | Inr _ \<Rightarrow> do { n \<leftarrow> smp_value_compute_size v; Some (Inr (1 + n), v) }
              }
          | TYPE_F32 \<Rightarrow>
              do { x \<leftarrow> smp_read_f32 bo buffer; Some (Inr argsize, v\<lparr>vval := UF32 x\<rparr>) }
          | TYPE_F64 \<Rightarrow>
              do { x \<leftarrow> smp_read_f64 bo buffer; Some (Inr argsize, v\<lparr>vval := UF64 x\<rparr>) }
          | _ \<Rightarrow> Some (Inl SMP_ERROR_BAD_MESSAGE, v))
      })"

section \<open>How far a decoded value advances\<close>

lemma c_strlen_bound: "c_strlen s = Some n \<Longrightarrow> unat n < length s \<and> length s \<le> PTRDIFF_MAX"
  by (auto simp: c_strlen_def Let_def PTRDIFF_MAX_def split: if_splits)

lemma type_size_bound: "unat (smp_type_size t) \<le> 8"
  by (cases t) simp_all

lemma argsize_eq: "unat (1 + smp_type_size t) = 1 + unat (smp_type_size t)"
  by (cases t) simp_all

lemma string_size:
  assumes "smp_value_compute_size v = Some n" and "vtype v = TYPE_STRING" and "vval v = UCstring p"
  shows "unat (1 + n) = 1 + unat n \<and> 3 \<le> unat n \<and>
    (case p of None \<Rightarrow> unat n = 3 | Some s \<Rightarrow> unat n < 3 + length s)"
proof (cases p)
  case None
  with assms show ?thesis by (simp add: smp_value_compute_size_def)
next
  case (Some s)
  with assms obtain len where len: "c_strlen s = Some len" and n: "n = 3 + len"
    by (auto simp: smp_value_compute_size_def bind_eq_Some_conv)
  from c_strlen_bound [OF len] have b: "unat len < 2 ^ 63" "unat len < length s"
    by (simp_all add: PTRDIFF_MAX_def)
  then have "unat n = 3 + unat len" unfolding n by (subst unat_add_size) simp_all
  moreover from b this have "unat (1 + n) = 1 + unat n" by (subst unat_add_size) simp_all
  ultimately show ?thesis using b Some by simp
qed

lemma decode_string_pointer:
  "smp_message_decode_string bo p sz = Some (Some s) \<Longrightarrow> s = drop 2 p \<and> 2 \<le> length p"
  by (auto simp: smp_message_decode_string_def Let_def bind_eq_Some_conv ptr_add_def split: if_splits)

lemma raw_size:
  assumes "smp_message_decode_raw bo v p sz = Some (Inr u, v')" and "vtype v = TYPE_RAW"
    and "smp_value_compute_size v' = Some n"
  shows "unat (1 + n) = 1 + unat n \<and> 2 \<le> unat n \<and> unat n \<le> 2 ^ 16 + 1"
proof -
  from assms obtain w :: u16 where n: "n = 2 + ucast w"
    by (auto simp: smp_message_decode_raw_def smp_value_compute_size_def Let_def bind_eq_Some_conv
        split: if_splits)
  have w: "unat (ucast w :: size_t) < 2 ^ 16" using unat_u16_less [of w] by simp
  then have "unat n = 2 + unat (ucast w :: size_t)" unfolding n by (subst unat_add_size) simp_all
  moreover from w this have "unat (1 + n) = 1 + unat n" by (subst unat_add_size) simp_all
  ultimately show ?thesis using w by simp
qed

text \<open>
  A successful decode consumes at least two bytes, and at most what is left of the object or
  the largest raw buffer.
\<close>

lemma decode_value_size:
  assumes "smp_message_decode_value bo value p sz = Some (Inr n, v')"
  shows "p \<noteq> [] \<and> 2 \<le> unat n \<and> unat n \<le> max (length p) (2 ^ 17)"
proof -
  from assms obtain t where t: "mem_get p 0 = Some t"
    by (auto simp: smp_message_decode_value_def Let_def bind_eq_Some_conv split: if_splits)
  then have "p \<noteq> []" by (auto simp: mem_get_def)
  let ?ty = "type_of_int (ucast t)"
  have fixed: "2 \<le> unat n \<and> unat n \<le> 9" if "n = 1 + smp_type_size ?ty" "smp_type_size ?ty \<noteq> 0"
    using that type_size_bound [of ?ty] unat_gt_0 [of "smp_type_size ?ty"]
    by (simp add: argsize_eq word_neq_0_conv)
  show ?thesis
  proof (cases ?ty)
    case TYPE_STRING
    with assms t obtain v q ps n0 where q: "ptr_add p 1 = Some q"
      and ps: "smp_message_decode_string bo q (sz - 1) = Some ps"
      and v: "smp_value_compute_size v = Some n0" "vtype v = TYPE_STRING" "vval v = UCstring ps"
      and n: "n = 1 + n0"
      by (auto simp: smp_message_decode_value_def Let_def bind_eq_Some_conv split: if_splits)
    have "q = drop 1 p" using q by (auto simp: ptr_add_def split: if_splits)
    then show ?thesis
      using string_size [OF v] decode_string_pointer [of bo q "sz - 1"] ps \<open>p \<noteq> []\<close>
      by (cases ps) (auto simp: n)
  next
    case TYPE_RAW
    define v where "v = value\<lparr>vtype := TYPE_RAW\<rparr>"
    from assms t TYPE_RAW obtain q where q: "ptr_add p 1 = Some q" and sz: "\<not> sz < 2" "\<not> sz < 3"
      by (auto simp: smp_message_decode_value_def Let_def bind_eq_Some_conv split: if_splits)
    note dec = assms [unfolded smp_message_decode_value_def Let_def]
    obtain ret v2 where raw: "smp_message_decode_raw bo v q (sz - 1) = Some (ret, v2)"
      using dec t TYPE_RAW q sz by (auto simp: v_def bind_eq_Some_conv)
    show ?thesis
    proof (cases ret)
      case (Inl e)
      with dec t TYPE_RAW q sz raw \<open>p \<noteq> []\<close> show ?thesis by (auto simp: v_def)
    next
      case (Inr u)
      with dec t TYPE_RAW q sz raw obtain n0 where "smp_value_compute_size v2 = Some n0" "n = 1 + n0"
        by (auto simp: v_def bind_eq_Some_conv)
      with raw_size [of bo v q "sz - 1" u v2 n0] raw Inr \<open>p \<noteq> []\<close> show ?thesis
        by (auto simp: v_def max_def)
    qed
  qed (use assms t fixed \<open>p \<noteq> []\<close> in \<open>auto simp: smp_message_decode_value_def Let_def
      bind_eq_Some_conv split: if_splits\<close>)
qed

section \<open>Encoding a value\<close>

text \<open>The largest string and raw lengths that the 16-bit size field can hold.\<close>

definition UINT16_MAX :: size_t where
  "UINT16_MAX = 0xFFFF"

text \<open>
  \<open>buffer\<close> and \<open>off\<close> are the destination object and the offset of the destination pointer in it.
  The first component of the result is the number of bytes to advance, 0 when the value is not
  encoded. \<open>memcpy\<close> of zero bytes reads nothing, from a null pointer either.
\<close>

definition smp_message_encode_value ::
  "byte_order \<Rightarrow> smp_value \<Rightarrow> mem \<Rightarrow> nat \<Rightarrow> (size_t \<times> mem) option" where
  "smp_message_encode_value bo v buffer0 off0 =
     do {
       buffer \<leftarrow> mem_write buffer0 off0 [ucast (int_of_type (vtype v))];
       let off = off0 + 1;
       let finish = (\<lambda>m. do { n \<leftarrow> smp_value_compute_size v; Some (n + 1, m) });
       case vtype v of
         TYPE_UINT8 \<Rightarrow> do { x \<leftarrow> union_u8 (vval v); m \<leftarrow> mem_write buffer off [x]; finish m }
       | TYPE_INT8 \<Rightarrow> do { x \<leftarrow> union_i8 (vval v); m \<leftarrow> mem_write buffer off [x]; finish m }
       | TYPE_UINT16 \<Rightarrow> do { x \<leftarrow> union_u16 (vval v); m \<leftarrow> smp_write_uint16 bo buffer off x; finish m }
       | TYPE_INT16 \<Rightarrow> do { x \<leftarrow> union_i16 (vval v); m \<leftarrow> smp_write_int16 bo buffer off x; finish m }
       | TYPE_UINT32 \<Rightarrow> do { x \<leftarrow> union_u32 (vval v); m \<leftarrow> smp_write_uint32 bo buffer off x; finish m }
       | TYPE_INT32 \<Rightarrow> do { x \<leftarrow> union_i32 (vval v); m \<leftarrow> smp_write_int32 bo buffer off x; finish m }
       | TYPE_UINT64 \<Rightarrow> do { x \<leftarrow> union_u64 (vval v); m \<leftarrow> smp_write_uint64 bo buffer off x; finish m }
       | TYPE_INT64 \<Rightarrow> do { x \<leftarrow> union_i64 (vval v); m \<leftarrow> smp_write_int64 bo buffer off x; finish m }
       | TYPE_STRING \<Rightarrow>
           do {
             p \<leftarrow> union_cstring (vval v);
             s \<leftarrow> p;
             len \<leftarrow> c_strlen s;
             if len > UINT16_MAX - 1 then Some (0, buffer)
             else do {
               m1 \<leftarrow> smp_write_uint16 bo buffer off (ucast (len + 1));
               cs \<leftarrow> mem_read s 0 (unat len);
               m2 \<leftarrow> mem_write m1 (off + 2) cs;
               m3 \<leftarrow> mem_write m2 (off + 2 + unat len) [0];
               finish m3
             }
           }
       | TYPE_RAW \<Rightarrow>
           do {
             (p, n) \<leftarrow> union_craw (vval v);
             if n > UINT16_MAX then Some (0, buffer)
             else do {
               m1 \<leftarrow> smp_write_uint16 bo buffer off (ucast n);
               bs \<leftarrow> (if n = 0 then Some [] else do { q \<leftarrow> p; mem_read q 0 (unat n) });
               m2 \<leftarrow> mem_write m1 (off + 2) bs;
               finish m2
             }
           }
       | TYPE_F32 \<Rightarrow> do { x \<leftarrow> union_f32 (vval v); m \<leftarrow> smp_write_f32 bo buffer off x; finish m }
       | TYPE_F64 \<Rightarrow> do { x \<leftarrow> union_f64 (vval v); m \<leftarrow> smp_write_f64 bo buffer off x; finish m }
       | _ \<Rightarrow> Some (0, buffer)
     }"

end
