(* ===== verification/Smp_Message.thy ===== *)
theory Smp_Message
  imports Smp_Value
begin

text \<open>
  \<open>SmpMessage\<close> and the functions of \<open>src/message.c\<close> that create, resize, encode and parse a
  message. A message is a record with the fields of the C structure; \<open>msg_values\<close> is the memory
  object the value array lives in. Results are the return value and the message afterwards,
  under \<^const>\<open>None\<close> for undefined behaviour.
\<close>

section \<open>State\<close>

definition MSG_HEADER_SIZE :: size_t where
  "MSG_HEADER_SIZE = 8"

definition DEFAULT_CAPACITY :: size_t where
  "DEFAULT_CAPACITY = 8"

definition SIZEOF_MESSAGE :: size_t where
  "SIZEOF_MESSAGE = 32"

definition SIZEOF_VALUE :: size_t where
  "SIZEOF_VALUE = 24"

definition UINT32_MAX :: size_t where
  "UINT32_MAX = 0xFFFFFFFF"

definition INT_MAX :: size_t where
  "INT_MAX = 0x7FFFFFFF"

record message =
  msgid :: u32
  msg_values :: "smp_value list"
  capacity :: size_t
  msg_static :: bool

type_synonym allocator = "size_t \<Rightarrow> bool"

text \<open>Access to \<open>msg->values[i]\<close>: out of the object is undefined.\<close>

definition values_get :: "message \<Rightarrow> nat \<Rightarrow> smp_value option" where
  "values_get msg i = (if i < length (msg_values msg) then Some (msg_values msg ! i) else None)"

definition values_set :: "message \<Rightarrow> nat \<Rightarrow> smp_value \<Rightarrow> message option" where
  "values_set msg i v =
     (if i < length (msg_values msg) then Some (msg\<lparr>msg_values := (msg_values msg)[i := v]\<rparr>) else None)"

text \<open>The first \<open>capacity\<close> values, which the loops over the message visit.\<close>

definition values_used :: "message \<Rightarrow> smp_value list option" where
  "values_used msg =
     (if unat (capacity msg) \<le> length (msg_values msg)
      then Some (take (unat (capacity msg)) (msg_values msg)) else None)"

section \<open>Creation and release\<close>

definition smp_message_new_with_id :: "allocator \<Rightarrow> allocator \<Rightarrow> u32 \<Rightarrow> message option" where
  "smp_message_new_with_id alloc_struct alloc_values ident =
     (if \<not> alloc_struct SIZEOF_MESSAGE then None
      else if \<not> alloc_values (DEFAULT_CAPACITY * SIZEOF_VALUE) then None
      else Some \<lparr>msgid = ident, msg_values = replicate (unat DEFAULT_CAPACITY) zero_value,
                 capacity = DEFAULT_CAPACITY, msg_static = False\<rparr>)"

definition smp_message_new :: "allocator \<Rightarrow> allocator \<Rightarrow> message option" where
  "smp_message_new alloc_struct alloc_values = smp_message_new_with_id alloc_struct alloc_values 0"

text \<open>
  The caller's array is the object \<open>vals\<close>; \<open>memset\<close> clears \<open>capacity\<close> entries of it. The outer
  \<^const>\<open>None\<close> is a \<open>memset\<close> out of the object.
\<close>

definition smp_message_new_from_static_with_id ::
  "bool \<Rightarrow> size_t \<Rightarrow> smp_value list option \<Rightarrow> size_t \<Rightarrow> u32 \<Rightarrow> message option option" where
  "smp_message_new_from_static_with_id smsg_non_null struct_size vals cap ident =
     (if \<not> smsg_non_null then Some None
      else if \<not> struct_size \<ge> SIZEOF_MESSAGE then Some None
      else case vals of
        None \<Rightarrow> Some None
      | Some vs \<Rightarrow>
          if \<not> cap > 0 then Some None
          else if unat cap \<le> length vs
            then Some (Some \<lparr>msgid = ident,
                  msg_values = replicate (unat cap) zero_value @ drop (unat cap) vs,
                  capacity = cap, msg_static = True\<rparr>)
          else None)"

definition smp_message_new_from_static ::
  "bool \<Rightarrow> size_t \<Rightarrow> smp_value list option \<Rightarrow> size_t \<Rightarrow> message option option" where
  "smp_message_new_from_static smsg_non_null struct_size vals cap =
     smp_message_new_from_static_with_id smsg_non_null struct_size vals cap 0"

datatype message_release = FreeValues | FreeMessage

definition smp_message_free :: "message option \<Rightarrow> message_release list" where
  "smp_message_free msg =
     (case msg of
        None \<Rightarrow> []
      | Some m \<Rightarrow> if msg_static m then [] else [FreeValues, FreeMessage])"

definition smp_message_clear :: "message option \<Rightarrow> message option option" where
  "smp_message_clear msg =
     (case msg of
        None \<Rightarrow> Some None
      | Some m \<Rightarrow>
          if unat (capacity m) \<le> length (msg_values m)
          then Some (Some (m\<lparr>msgid := 0,
              msg_values := replicate (unat (capacity m)) zero_value
                @ drop (unat (capacity m)) (msg_values m)\<rparr>))
          else None)"

section \<open>Capacity\<close>

definition smp_message_get_capacity :: "message option \<Rightarrow> size_t" where
  "smp_message_get_capacity msg = (case msg of None \<Rightarrow> 0 | Some m \<Rightarrow> capacity m)"

text \<open>
  The size of the request wraps around (the code's FIXME): when it does and the request is
  granted, clearing the new range leaves the block.
\<close>

definition smp_message_set_capacity ::
  "allocator \<Rightarrow> message option \<Rightarrow> size_t \<Rightarrow> ((smp_error + unit) \<times> message option) option" where
  "smp_message_set_capacity alloc msg cap =
     (case msg of
        None \<Rightarrow> Some (Inl SMP_ERROR_INVALID_PARAM, None)
      | Some m \<Rightarrow>
          if msg_static m then Some (Inl SMP_ERROR_NOT_SUPPORTED, msg)
          else if cap < capacity m then Some (Inl SMP_ERROR_INVALID_PARAM, msg)
          else if cap = capacity m then Some (Inr (), msg)
          else if \<not> alloc (cap * SIZEOF_VALUE) then Some (Inl SMP_ERROR_NO_MEM, msg)
          else if unat cap * unat SIZEOF_VALUE \<ge> 2 ^ 64 then None
          else Some (Inr (),
            Some (m\<lparr>msg_values := take (unat (capacity m)) (msg_values m)
                      @ replicate (unat (cap - capacity m)) zero_value,
                    capacity := cap\<rparr>)))"

definition next_pow2 :: "size_t \<Rightarrow> size_t" where
  "next_pow2 v0 =
     (let v = v0 - 1;
          v = v OR drop_bit 1 v;
          v = v OR drop_bit 2 v;
          v = v OR drop_bit 4 v;
          v = v OR drop_bit 8 v;
          v = v OR drop_bit 16 v;
          v = v OR drop_bit 32 v
      in v + 1)"

section \<open>Encoding\<close>

text \<open>The sum is over a list of values and starts from an accumulator, as the loop does.\<close>

fun compute_max_loop :: "size_t \<Rightarrow> smp_value list \<Rightarrow> size_t option" where
  "compute_max_loop ret [] = Some ret"
| "compute_max_loop ret (v # vs) =
     (if vtype v \<noteq> TYPE_NONE
      then do { n \<leftarrow> smp_value_compute_size v; compute_max_loop (ret + (1 + n)) vs }
      else compute_max_loop ret vs)"

definition smp_message_compute_max_encoded_size :: "message \<Rightarrow> size_t option" where
  "smp_message_compute_max_encoded_size msg =
     do { vs \<leftarrow> values_used msg; compute_max_loop 0 vs }"

definition smp_message_get_encoded_size :: "message option \<Rightarrow> size_t option" where
  "smp_message_get_encoded_size msg =
     do {
       m \<leftarrow> msg;
       n \<leftarrow> smp_message_compute_max_encoded_size m;
       Some (n + MSG_HEADER_SIZE)
     }"

fun encode_values :: "byte_order \<Rightarrow> smp_value list \<Rightarrow> mem \<Rightarrow> size_t \<Rightarrow> (size_t \<times> mem) option" where
  "encode_values bo [] buffer off = Some (off, buffer)"
| "encode_values bo (v # vs) buffer off =
     (if vtype v = TYPE_NONE then encode_values bo vs buffer off
      else do {
        (n, buffer') \<leftarrow> smp_message_encode_value bo v buffer (unat off);
        encode_values bo vs buffer' (off + n)
      })"

definition smp_message_encode ::
  "byte_order \<Rightarrow> message option \<Rightarrow> mem option \<Rightarrow> size_t
   \<Rightarrow> ((smp_error + size_t) \<times> mem option) option" where
  "smp_message_encode bo msg buffer sz =
     (case msg of
        None \<Rightarrow> Some (Inl SMP_ERROR_INVALID_PARAM, buffer)
      | Some m \<Rightarrow> (case buffer of
          None \<Rightarrow> Some (Inl SMP_ERROR_INVALID_PARAM, buffer)
        | Some buf \<Rightarrow>
            do {
              need \<leftarrow> smp_message_get_encoded_size msg;
              if sz < need then Some (Inl SMP_ERROR_NO_MEM, buffer)
              else do {
                buf1 \<leftarrow> smp_write_uint32 bo buf 0 (msgid m);
                vs \<leftarrow> values_used m;
                (off, buf2) \<leftarrow> encode_values bo vs buf1 MSG_HEADER_SIZE;
                if off - MSG_HEADER_SIZE > UINT32_MAX
                then Some (Inl SMP_ERROR_OVERFLOW, Some buf2)
                else do {
                  buf3 \<leftarrow> smp_write_uint32 bo buf2 4 (ucast (off - MSG_HEADER_SIZE));
                  Some (Inr off, Some buf3)
                }
              }
            }))"

section \<open>Parsing\<close>

text \<open>
  What the head of the loop decides for the value at index \<open>i\<close>: stop (a static message is full),
  fail (no memory), or go on with a message that has room for it.
\<close>

datatype room = RoomBreak | RoomFail smp_error message | RoomOk message

definition build_room :: "allocator \<Rightarrow> message \<Rightarrow> size_t \<Rightarrow> room option" where
  "build_room alloc msg i =
     (if i \<ge> capacity msg then
        (if msg_static msg then Some RoomBreak
         else
           (case smp_message_set_capacity alloc (Some msg)
                   (next_pow2 (smp_message_get_capacity (Some msg) + 1)) of
              Some (Inl e, Some msg') \<Rightarrow> Some (RoomFail e msg')
            | Some (Inr _, Some msg') \<Rightarrow> Some (RoomOk msg')
            | _ \<Rightarrow> None))
      else Some (RoomOk msg))"

text \<open>
  Every decoded value advances by at least one byte and by less than what would wrap the offset
  around, so the loop over the arguments stops.
\<close>

lemma decode_value_progress:
  assumes "ptr_add buffer off = Some p" and "smp_message_decode_value bo v p sz = Some (Inr n, v')"
  shows "length buffer - unat (off + n) < length buffer - unat off"
proof -
  have p: "length buffer \<le> PTRDIFF_MAX" "unat off \<le> length buffer" "p = drop (unat off) buffer"
    using assms(1) by (auto simp: ptr_add_def split: if_splits)
  have n: "p \<noteq> []" "2 \<le> unat n" "unat n \<le> max (length p) (2 ^ 17)"
    using decode_value_size [OF assms(2)] by simp_all
  have "unat (off + n) = unat off + unat n"
    using p n(3) by (intro unat_add_size) (simp add: PTRDIFF_MAX_def)
  with p n show ?thesis by simp
qed

text \<open>
  The loop over the arguments. The result is how it ended (\<^const>\<open>Inl\<close>: early return), the
  offset reached and the message.
\<close>

function build_loop ::
  "byte_order \<Rightarrow> allocator \<Rightarrow> mem \<Rightarrow> size_t \<Rightarrow> size_t \<Rightarrow> size_t \<Rightarrow> message
   \<Rightarrow> ((smp_error + unit) \<times> size_t \<times> message) option" where
  "build_loop bo alloc buffer sz off i msg =
     (if \<not> sz - off > 0 then Some (Inr (), off, msg)
      else case build_room alloc msg i of
        None \<Rightarrow> None
      | Some RoomBreak \<Rightarrow> Some (Inr (), off, msg)
      | Some (RoomFail e msg1) \<Rightarrow> Some (Inl e, off, msg1)
      | Some (RoomOk msg1) \<Rightarrow>
          (case ptr_add buffer off of
             None \<Rightarrow> None
           | Some p \<Rightarrow>
               (case values_get msg1 (unat i) of
                  None \<Rightarrow> None
                | Some v \<Rightarrow>
                    (case smp_message_decode_value bo v p (sz - off) of
                       None \<Rightarrow> None
                     | Some (ret, v') \<Rightarrow>
                         (case values_set msg1 (unat i) v' of
                            None \<Rightarrow> None
                          | Some msg2 \<Rightarrow>
                              (case ret of
                                 Inl e \<Rightarrow> Some (Inl e, off, msg2)
                               | Inr n \<Rightarrow> build_loop bo alloc buffer sz (off + n) (i + 1) msg2))))))"
  by pat_completeness auto
termination
  by (relation "measure (\<lambda>(bo, alloc, buffer, sz, off, i, msg). length buffer - unat off)")
     (auto intro: decode_value_progress)

declare build_loop.simps [simp del]

definition smp_message_build_from_buffer ::
  "byte_order \<Rightarrow> allocator \<Rightarrow> message option \<Rightarrow> mem option \<Rightarrow> size_t
   \<Rightarrow> ((smp_error + unit) \<times> message option) option" where
  "smp_message_build_from_buffer bo alloc msg buffer sz =
     (case msg of
        None \<Rightarrow> Some (Inl SMP_ERROR_INVALID_PARAM, None)
      | Some m \<Rightarrow> (case buffer of
          None \<Rightarrow> Some (Inl SMP_ERROR_INVALID_PARAM, Some m)
        | Some buf \<Rightarrow>
            if sz < MSG_HEADER_SIZE then Some (Inl SMP_ERROR_BAD_MESSAGE, Some m)
            else do {
              ident \<leftarrow> smp_read_uint32 bo buf;
              let m1 = m\<lparr>msgid := ident\<rparr>;
              p4 \<leftarrow> ptr_add buf 4;
              w \<leftarrow> smp_read_uint32 bo p4;
              let argsize = ucast w;
              if sz < MSG_HEADER_SIZE + argsize then Some (Inl SMP_ERROR_BAD_MESSAGE, Some m1)
              else do {
                (ret, off, m2) \<leftarrow> build_loop bo alloc buf sz MSG_HEADER_SIZE 0 m1;
                case ret of
                  Inl e \<Rightarrow> Some (Inl e, Some m2)
                | Inr _ \<Rightarrow>
                    if sz - off > 0 then Some (Inl SMP_ERROR_TOO_BIG, Some m2)
                    else Some (Inr (), Some m2)
              }
            }))"

section \<open>Identifier and arguments\<close>

definition smp_message_get_msgid :: "message option \<Rightarrow> u32" where
  "smp_message_get_msgid msg = (case msg of None \<Rightarrow> 0 | Some m \<Rightarrow> msgid m)"

definition smp_message_set_id :: "message option \<Rightarrow> u32 \<Rightarrow> message option" where
  "smp_message_set_id msg ident = (case msg of None \<Rightarrow> None | Some m \<Rightarrow> Some (m\<lparr>msgid := ident\<rparr>))"

text \<open>
  The number of values before the first one without a type; \<^const>\<open>Inl\<close> carries the negative
  results (-1 for a null message, which is not an \<open>SmpError\<close> by name but has that code).
\<close>

definition smp_message_n_args :: "message option \<Rightarrow> (smp_error + size_t) option" where
  "smp_message_n_args msg =
     (case msg of
        None \<Rightarrow> Some (Inl SMP_ERROR_INVALID_PARAM)
      | Some m \<Rightarrow>
          do {
            vs \<leftarrow> values_used m;
            let i = of_nat (length (takeWhile (\<lambda>v. vtype v \<noteq> TYPE_NONE) vs));
            if i > INT_MAX then Some (Inl SMP_ERROR_OVERFLOW) else Some (Inr i)
          })"

end
