(* ===== verification/Smp_Message_Codec.thy ===== *)
theory Smp_Message_Codec
  imports Smp_Message
begin

text \<open>
  What the message codec promises. A message is, abstractly, an identifier and a list of typed
  arguments; \<open>arg_wire\<close> is the wire format of one argument and \<open>message_wire\<close> that of a
  message. The lemmas relate the encoder and the parser of \<open>src/message.c\<close> to them.
\<close>

section \<open>Arguments\<close>

datatype arg =
    AU8 byte | AI8 byte
  | AU16 u16 | AI16 u16
  | AU32 u32 | AI32 u32
  | AU64 u64 | AI64 u64
  | AF32 u32 | AF64 u64
  | AStr "byte list"
  | ARaw "byte list"

fun arg_type :: "arg \<Rightarrow> smp_type" where
  "arg_type (AU8 _) = TYPE_UINT8"
| "arg_type (AI8 _) = TYPE_INT8"
| "arg_type (AU16 _) = TYPE_UINT16"
| "arg_type (AI16 _) = TYPE_INT16"
| "arg_type (AU32 _) = TYPE_UINT32"
| "arg_type (AI32 _) = TYPE_INT32"
| "arg_type (AU64 _) = TYPE_UINT64"
| "arg_type (AI64 _) = TYPE_INT64"
| "arg_type (AF32 _) = TYPE_F32"
| "arg_type (AF64 _) = TYPE_F64"
| "arg_type (AStr _) = TYPE_STRING"
| "arg_type (ARaw _) = TYPE_RAW"

fun arg_body :: "byte_order \<Rightarrow> arg \<Rightarrow> byte list" where
  "arg_body bo (AU8 x) = [x]"
| "arg_body bo (AI8 x) = [x]"
| "arg_body bo (AU16 x) = object_bytes bo 2 x"
| "arg_body bo (AI16 x) = object_bytes bo 2 x"
| "arg_body bo (AU32 x) = object_bytes bo 4 x"
| "arg_body bo (AI32 x) = object_bytes bo 4 x"
| "arg_body bo (AU64 x) = object_bytes bo 8 x"
| "arg_body bo (AI64 x) = object_bytes bo 8 x"
| "arg_body bo (AF32 x) = object_bytes bo 4 x"
| "arg_body bo (AF64 x) = object_bytes bo 8 x"
| "arg_body bo (AStr s) = object_bytes bo 2 (of_nat (length s + 1) :: u16) @ s @ [0]"
| "arg_body bo (ARaw s) = object_bytes bo 2 (of_nat (length s) :: u16) @ s"

definition arg_wire :: "byte_order \<Rightarrow> arg \<Rightarrow> byte list" where
  "arg_wire bo a = ucast (int_of_type (arg_type a)) # arg_body bo a"

text \<open>The size field has 16 bits; a string's counts its nul byte.\<close>

fun arg_fits :: "arg \<Rightarrow> bool" where
  "arg_fits (AStr s) \<longleftrightarrow> length s \<le> 65534"
| "arg_fits (ARaw s) \<longleftrightarrow> length s \<le> 65535"
| "arg_fits _ \<longleftrightarrow> True"

fun arg_wf :: "arg \<Rightarrow> bool" where
  "arg_wf (AStr s) \<longleftrightarrow> 0 \<notin> set s"
| "arg_wf _ \<longleftrightarrow> True"

text \<open>The argument a value of the C structure stands for, if it stands for one.\<close>

definition value_arg :: "smp_value \<Rightarrow> arg option" where
  "value_arg v =
     (case vtype v of
        TYPE_UINT8 \<Rightarrow> map_option AU8 (union_u8 (vval v))
      | TYPE_INT8 \<Rightarrow> map_option AI8 (union_i8 (vval v))
      | TYPE_UINT16 \<Rightarrow> map_option AU16 (union_u16 (vval v))
      | TYPE_INT16 \<Rightarrow> map_option AI16 (union_i16 (vval v))
      | TYPE_UINT32 \<Rightarrow> map_option AU32 (union_u32 (vval v))
      | TYPE_INT32 \<Rightarrow> map_option AI32 (union_i32 (vval v))
      | TYPE_UINT64 \<Rightarrow> map_option AU64 (union_u64 (vval v))
      | TYPE_INT64 \<Rightarrow> map_option AI64 (union_i64 (vval v))
      | TYPE_F32 \<Rightarrow> map_option AF32 (union_f32 (vval v))
      | TYPE_F64 \<Rightarrow> map_option AF64 (union_f64 (vval v))
      | TYPE_STRING \<Rightarrow>
          do {
            p \<leftarrow> union_cstring (vval v);
            s \<leftarrow> p;
            n \<leftarrow> c_strlen s;
            Some (AStr (take (unat n) s))
          }
      | TYPE_RAW \<Rightarrow>
          do {
            (p, n) \<leftarrow> union_craw (vval v);
            if n = 0 then Some (ARaw [])
            else do { q \<leftarrow> p; bs \<leftarrow> mem_read q 0 (unat n); Some (ARaw bs) }
          }
      | _ \<Rightarrow> None)"

text \<open>The value that stands for an argument found in an object, followed by \<open>rest\<close>.\<close>

fun arg_union :: "arg \<Rightarrow> mem \<Rightarrow> value_union" where
  "arg_union (AU8 x) _ = UU8 x"
| "arg_union (AI8 x) _ = UI8 x"
| "arg_union (AU16 x) _ = UU16 x"
| "arg_union (AI16 x) _ = UI16 x"
| "arg_union (AU32 x) _ = UU32 x"
| "arg_union (AI32 x) _ = UI32 x"
| "arg_union (AU64 x) _ = UU64 x"
| "arg_union (AI64 x) _ = UI64 x"
| "arg_union (AF32 x) _ = UF32 x"
| "arg_union (AF64 x) _ = UF64 x"
| "arg_union (AStr s) rest = UCstring (Some (s @ [0] @ rest))"
| "arg_union (ARaw s) rest = UCraw (Some (s @ rest)) (of_nat (length s))"

definition arg_value :: "arg \<Rightarrow> mem \<Rightarrow> smp_value" where
  "arg_value a rest = \<lparr>vtype = arg_type a, vval = arg_union a rest\<rparr>"

lemma arg_type_not_none [simp]: "arg_type a \<noteq> TYPE_NONE"
  by (cases a) simp_all

lemma arg_wire_length: "2 \<le> length (arg_wire bo a)"
  by (cases a) (simp_all add: arg_wire_def)

lemma arg_wire_nonempty [simp]: "arg_wire bo a \<noteq> []"
  by (simp add: arg_wire_def)

lemma value_arg_type: "value_arg v = Some a \<Longrightarrow> vtype v = arg_type a"
  by (cases "vtype v") (auto simp: value_arg_def bind_eq_Some_conv split: if_splits)

lemma c_strlen_take:
  assumes "c_strlen s = Some n"
  shows "0 \<notin> set (take (unat n) s)" and "unat n < length s"
proof -
  have "unat n = length (takeWhile (\<lambda>b. b \<noteq> 0) s)"
    using assms by (auto simp: c_strlen_def Let_def PTRDIFF_MAX_def split: if_splits)
  then have "take (unat n) s = takeWhile (\<lambda>b. b \<noteq> 0) s"
    by (metis takeWhile_eq_take)
  then show "0 \<notin> set (take (unat n) s)" using set_takeWhileD by fastforce
  show "unat n < length s" using c_strlen_bound [OF assms] by simp
qed

lemma value_arg_stringE:
  assumes "value_arg v = Some a" and "vtype v = TYPE_STRING"
  obtains s n where "union_cstring (vval v) = Some (Some s)" and "c_strlen s = Some n"
    and "a = AStr (take (unat n) s)" and "unat n \<le> length s"
proof -
  from assms obtain s n where p: "union_cstring (vval v) = Some (Some s)" "c_strlen s = Some n"
    and a: "a = AStr (take (unat n) s)"
    by (auto simp: value_arg_def bind_eq_Some_conv)
  with c_strlen_take(2) [OF p(2)] that show ?thesis by simp
qed

lemma value_arg_rawE:
  assumes "value_arg v = Some a" and "vtype v = TYPE_RAW"
  obtains p n where "union_craw (vval v) = Some (p, n)"
    and "if n = 0 then a = ARaw []
         else \<exists>q. p = Some q \<and> unat n \<le> length q \<and> a = ARaw (take (unat n) q)"
  using assms by (auto simp: value_arg_def bind_eq_Some_conv mem_read_def split: if_splits)

lemma value_arg_wf: "value_arg v = Some a \<Longrightarrow> arg_wf a"
  by (cases "vtype v") (auto simp: value_arg_def bind_eq_Some_conv c_strlen_take split: if_splits)

lemma c_strlen_string:
  "0 \<notin> set s \<Longrightarrow> length (s @ 0 # rest) \<le> PTRDIFF_MAX \<Longrightarrow>
   c_strlen (s @ 0 # rest) = Some (of_nat (length s))"
  by (simp add: c_strlen_def takeWhile_append Let_def)

lemma value_arg_arg_value:
  assumes "arg_wf a" and "arg_fits a" and "length (arg_wire bo a @ rest) \<le> PTRDIFF_MAX"
  shows "value_arg (arg_value a rest) = Some a"
proof (cases a)
  case (AStr s)
  with assms have "length s < 2 ^ 64" "length (s @ 0 # rest) \<le> PTRDIFF_MAX" "0 \<notin> set s"
    by (simp_all add: arg_wire_def)
  then show ?thesis by (simp add: AStr value_arg_def arg_value_def c_strlen_string)
next
  case (ARaw s)
  with assms have "length s < 2 ^ 64" by simp
  then show ?thesis
    by (auto simp: ARaw value_arg_def arg_value_def mem_read_def
        simp flip: word_unat_eq_iff dest: arg_cong [of _ _ unat])
qed (simp_all add: value_arg_def arg_value_def)

section \<open>Encoding a value\<close>

lemma mem_write_bind:
  assumes "off' = off + length bs"
  shows "do { m1 \<leftarrow> mem_write m off bs; m2 \<leftarrow> mem_write m1 off' cs; f m2 } =
         do { m2 \<leftarrow> mem_write m off (bs @ cs); f m2 }"
proof (cases "off + length (bs @ cs) \<le> length m")
  case True
  then obtain m1 where "mem_write m off bs = Some m1"
    "mem_write m1 (off + length bs) cs = mem_write m off (bs @ cs)"
    by (rule mem_write_appendI)
  then show ?thesis by (simp add: assms)
next
  case False
  then have "mem_write m off (bs @ cs) = None"
    "mem_write m off bs = Some m1 \<Longrightarrow> mem_write m1 off' cs = None" for m1
    using mem_write_length [of m off bs m1] by (auto simp: mem_write_def assms)
  then show ?thesis by (cases "mem_write m off bs") simp_all
qed

lemma compute_size_arg:
  assumes "value_arg v = Some a"
  shows "smp_value_compute_size v = Some (of_nat (length (arg_body bo a)))"
proof (cases "vtype v")
  case TYPE_STRING
  with assms obtain s n where p: "union_cstring (vval v) = Some (Some s)" "c_strlen s = Some n"
    and a: "a = AStr (take (unat n) s)" and "unat n \<le> length s"
    by (rule value_arg_stringE)
  then have "length (take (unat n) s) = unat n" by simp
  then show ?thesis using TYPE_STRING p
    by (simp add: a smp_value_compute_size_def del: length_take)
next
  case TYPE_RAW
  with assms obtain p n where p: "union_craw (vval v) = Some (p, n)"
    and a: "if n = 0 then a = ARaw []
            else \<exists>q. p = Some q \<and> unat n \<le> length q \<and> a = ARaw (take (unat n) q)"
    by (rule value_arg_rawE)
  then show ?thesis using TYPE_RAW
    by (cases "n = 0") (auto simp: smp_value_compute_size_def)
qed (use assms in \<open>auto simp: value_arg_def smp_value_compute_size_def\<close>)

lemma ucast_u16_of_nat: "unat n = k \<Longrightarrow> ucast (n :: size_t) = (of_nat k :: u16)"
  by auto

lemma ucast_u32_of_nat: "n < 2 ^ 64 \<Longrightarrow> ucast (of_nat n :: size_t) = (of_nat n :: u32)"
  by (metis unat_of_nat_size of_nat_unat)

lemma encode_value_arg:
  assumes "value_arg v = Some a" and "arg_fits a"
  shows "smp_message_encode_value bo v m off =
    do { m' \<leftarrow> mem_write m off (arg_wire bo a); Some (of_nat (length (arg_wire bo a)), m') }"
proof -
  note [simp] = smp_message_encode_value_def Let_def mem_write_bind wire_simps arg_wire_def
    smp_write_uint16_def smp_write_uint32_def smp_write_uint64_def
    compute_size_arg [OF assms(1), of bo]
  show ?thesis
  proof (cases "vtype v")
    case TYPE_STRING
    with assms(1) obtain s n where p: "union_cstring (vval v) = Some (Some s)" "c_strlen s = Some n"
      and a: "a = AStr (take (unat n) s)" and n: "unat n \<le> length s"
      by (rule value_arg_stringE)
    from n have len: "length (take (unat n) s) = unat n" by simp
    from assms(2) len have "unat n \<le> 65534" by (simp add: a del: length_take)
    then have "\<not> n > UINT16_MAX - 1" by (simp add: UINT16_MAX_def word_less_nat_alt)
    moreover have "ucast (n + 1) = (of_nat (unat n + 1) :: u16)"
      by (rule ucast_u16_of_nat, subst unat_add_size) (use \<open>unat n \<le> 65534\<close> in simp_all)
    ultimately show ?thesis using TYPE_STRING p n len
      by (simp add: a mem_read_def del: length_take)
  next
    case TYPE_RAW
    with assms(1) obtain p n where p: "union_craw (vval v) = Some (p, n)"
      and a: "if n = 0 then a = ARaw []
              else \<exists>q. p = Some q \<and> unat n \<le> length q \<and> a = ARaw (take (unat n) q)"
      by (rule value_arg_rawE)
    have "unat n \<le> 65535" using a assms(2) by (auto split: if_splits)
    then have "\<not> n > UINT16_MAX" by (simp add: UINT16_MAX_def word_less_nat_alt)
    then show ?thesis using TYPE_RAW p a
      by (auto simp: mem_read_def min_absorb2 split: if_splits)
  qed (use assms in \<open>auto simp: value_arg_def\<close>)
qed

section \<open>Decoding a value\<close>

lemma type_of_arg_type [simp]: "type_of_int (ucast (ucast (int_of_type (arg_type a)) :: byte)) = arg_type a"
  by (cases a) (simp_all add: type_of_int_def)

lemma fixed_arg_size:
  "arg_type a \<noteq> TYPE_STRING \<Longrightarrow> arg_type a \<noteq> TYPE_RAW \<Longrightarrow>
   smp_type_size (arg_type a) = of_nat (length (arg_body bo a))"
  by (cases a) simp_all

lemma unat_of_nat_u16: "n < 65536 \<Longrightarrow> unat (of_nat n :: u16) = n"
  by (simp add: unat_of_nat take_bit_eq_mod)

lemma decode_string_arg:
  assumes w: "unat (w :: u16) = length s + 1"
    and "length s + 3 + length rest \<le> PTRDIFF_MAX" and "length s + 3 \<le> unat sz"
  shows "smp_message_decode_string bo (object_bytes bo 2 w @ s @ 0 # rest) sz
    = Some (Some (s @ 0 # rest))"
proof -
  have "length s < 65535" using w unat_u16_less [of w] by simp
  then have u2: "unat (2 + ucast w :: size_t) = length s + 3" "unat (1 + ucast w :: size_t) = length s + 2"
    using w by (subst unat_add_size; simp)+
  have "\<not> sz < 2" "\<not> sz < 2 + ucast w"
    using assms(3) u2 by (simp_all add: word_less_nat_alt)
  moreover have "2 + ucast w - 1 = (1 + ucast w :: size_t)" by simp
  ultimately show ?thesis
    using assms(2) u2
    by (simp add: smp_message_decode_string_def u16.rd_enc mem_get_def nth_append ptr_add_def)
qed

lemma decode_raw_arg:
  assumes w: "unat (w :: u16) = length s"
    and "length s + 2 + length rest \<le> PTRDIFF_MAX" and "length s + 2 \<le> unat sz"
  shows "smp_message_decode_raw bo v (object_bytes bo 2 w @ s @ rest) sz
    = Some (Inr (), v\<lparr>vval := UCraw (Some (s @ rest)) (ucast w)\<rparr>)"
proof -
  have "length s < 65536" using w unat_u16_less [of w] by simp
  then have "unat (2 + ucast w :: size_t) = length s + 2"
    using w by (subst unat_add_size; simp)
  then have "\<not> sz < 2" "\<not> sz < 2 + ucast w"
    using assms(3) by (simp_all add: word_less_nat_alt)
  then show ?thesis
    using assms(2) by (simp add: smp_message_decode_raw_def u16.rd_enc ptr_add_def)
qed

lemma decode_value_arg:
  assumes "arg_wf a" and "arg_fits a" and "length (arg_wire bo a @ rest) \<le> PTRDIFF_MAX"
    and "length (arg_wire bo a) \<le> unat sz"
  shows "smp_message_decode_value bo v (arg_wire bo a @ rest) sz =
    Some (Inr (of_nat (length (arg_wire bo a))), arg_value a rest)"
proof -
  let ?p = "arg_wire bo a @ rest"
  have sz2: "\<not> sz < 2"
    using assms(4) arg_wire_length [of bo a] by (simp add: word_less_nat_alt)
  have p1: "mem_get ?p 0 = Some (ucast (int_of_type (arg_type a)))" "ptr_add ?p 1 = Some (arg_body bo a @ rest)"
    using assms(3) by (simp_all add: mem_get_def ptr_add_def arg_wire_def)
  have szm: "unat (sz - 1) = unat sz - 1"
    using sz2 by (subst unat_sub) (auto simp: word_less_nat_alt word_le_nat_alt)
  have small: "\<not> sz < 1 + smp_type_size (arg_type a)"
    using assms(4) by (cases a) (simp_all add: arg_wire_def word_less_nat_alt)
  note dec = smp_message_decode_value_def [of bo v ?p sz, unfolded Let_def]
  show ?thesis
  proof (cases a)
    case (AStr s)
    define w :: u16 where "w = of_nat (length s + 1)"
    have w: "unat w = length s + 1"
      unfolding w_def using assms(2) AStr by (intro unat_of_nat_u16) simp
    have "smp_message_decode_string bo (object_bytes bo 2 w @ s @ 0 # rest) (sz - 1) = Some (Some (s @ 0 # rest))"
      using assms(3,4) szm AStr by (intro decode_string_arg w) (simp_all add: arg_wire_def)
    moreover have "smp_value_compute_size (v\<lparr>vtype := TYPE_STRING, vval := UCstring (Some (s @ 0 # rest))\<rparr>)
      = Some (3 + of_nat (length s))"
      using assms by (simp add: AStr smp_value_compute_size_def c_strlen_string arg_wire_def)
    moreover have "arg_body bo a = object_bytes bo 2 w @ s @ [0]" by (simp add: AStr w_def)
    ultimately show ?thesis
      using sz2 p1 small unfolding dec by (simp add: AStr arg_value_def arg_wire_def type_of_int_def)
  next
    case (ARaw s)
    define w :: u16 where "w = of_nat (length s)"
    have w: "unat w = length s"
      unfolding w_def using assms(2) ARaw by (intro unat_of_nat_u16) simp
    have "smp_message_decode_raw bo (v\<lparr>vtype := TYPE_RAW\<rparr>) (object_bytes bo 2 w @ s @ rest) (sz - 1)
      = Some (Inr (), v\<lparr>vtype := TYPE_RAW, vval := UCraw (Some (s @ rest)) (ucast w)\<rparr>)"
      using assms(3,4) szm ARaw by (subst decode_raw_arg [OF w]) (simp_all add: arg_wire_def)
    moreover have "arg_body bo a = object_bytes bo 2 w @ s" by (simp add: ARaw w_def)
    moreover have "ucast w = (of_nat (length s) :: size_t)"
      using w assms(2) ARaw by (simp add: word_unat_eq_iff)
    ultimately show ?thesis
      using sz2 p1 small unfolding dec
      by (simp add: ARaw arg_value_def arg_wire_def type_of_int_def smp_value_compute_size_def)
  qed (use sz2 p1 small in \<open>simp_all add: smp_message_decode_value_def arg_value_def arg_wire_def type_of_int_def
      mem_get_def u16.rd_enc u32.rd_enc u64.rd_enc wire_simps\<close>)
qed

section \<open>Rounding a capacity up\<close>

lemma smear_step:
  assumes "\<And>i. bit v i \<longleftrightarrow> (\<exists>k < s. bit (w :: size_t) (i + k))"
  shows "bit (v OR drop_bit s v) i \<longleftrightarrow> (\<exists>k < s + s. bit w (i + k))"
proof
  assume "bit (v OR drop_bit s v) i"
  then have "bit v i \<or> bit v (s + i)" by (auto simp: bit_simps)
  then show "\<exists>k < s + s. bit w (i + k)"
  proof
    assume "bit v i"
    then obtain k where "k < s" "bit w (i + k)" using assms by blast
    then show ?thesis by (intro exI [of _ k]) simp
  next
    assume "bit v (s + i)"
    then obtain k where "k < s" "bit w (s + i + k)" using assms by blast
    then show ?thesis by (intro exI [of _ "s + k"]) (simp add: ac_simps)
  qed
next
  assume "\<exists>k < s + s. bit w (i + k)"
  then obtain k where k: "k < s + s" "bit w (i + k)" by blast
  show "bit (v OR drop_bit s v) i"
  proof (cases "k < s")
    case True
    with k show ?thesis using assms by (auto simp: bit_simps)
  next
    case False
    with k have "k - s < s" "bit w (s + i + (k - s))" by (auto simp: ac_simps)
    then have "bit v (s + i)" using assms by blast
    then show ?thesis by (auto simp: bit_simps)
  qed
qed

lemma next_pow2_smear:
  obtains r :: size_t where "next_pow2 v = r + 1"
    and "\<And>i. bit r i \<longleftrightarrow> (\<exists>k<64. bit (v - 1) (i + k))"
proof -
  let ?w = "v - 1"
  have 0: "bit ?w i \<longleftrightarrow> (\<exists>k<1. bit ?w (i + k))" for i by simp
  note 1 = smear_step [of ?w 1 ?w, OF 0, unfolded one_add_one]
  note 2 = smear_step [OF 1, folded numeral_Bit0]
  note 4 = smear_step [OF 2, folded numeral_Bit0]
  note 8 = smear_step [OF 4, folded numeral_Bit0]
  note 16 = smear_step [OF 8, folded numeral_Bit0]
  note 32 = smear_step [OF 16, folded numeral_Bit0]
  show ?thesis
    by (rule that [OF _ 32]) (simp add: next_pow2_def Let_def)
qed

lemma next_pow2_least:
  assumes "1 \<le> unat v" and "unat v \<le> 2 ^ 63"
  shows "\<exists>k. unat (next_pow2 v) = 2 ^ k \<and> unat v \<le> 2 ^ k \<and> 2 ^ k < 2 * unat v"
proof -
  from next_pow2_smear [of v] obtain r where r: "next_pow2 v = r + 1"
    and bits: "\<And>i. bit r i \<longleftrightarrow> (\<exists>k<64. bit (v - 1) (i + k))" by blast
  have w: "unat (v - 1) = unat v - 1"
    using assms by (subst unat_sub) (auto simp: word_le_nat_alt)
  show ?thesis
  proof (cases "v - 1 = 0")
    case True
    with bits have "r = 0" by (intro bit_eqI) simp
    then show ?thesis using r assms w True by (intro exI [of _ 0]) simp
  next
    case False
    define n where "n = unat (v - 1)"
    have "0 < n" unfolding n_def by (rule iffD2 [OF unat_gt_0 False])
    moreover have "n < 2 ^ 63" using w assms by (simp add: n_def)
    ultimately have n: "0 < n" "n < 2 ^ 63" by simp_all
    obtain m where m: "2 ^ m \<le> n" "n < 2 ^ Suc m"
      using ex_power_ivl1 [of 2 n] n by auto
    have "(2 :: nat) ^ m < 2 ^ 63" using m n by simp
    then have m63: "m < 63" by (rule power_less_imp_less_exp [rotated]) simp
    have bn: "bit (v - 1) i \<longleftrightarrow> bit n i" for i by (simp add: n_def bit_unsigned_iff)
    have "n div 2 ^ m = 1" using m by (simp add: div_nat_eqI)
    then have top: "bit n m" by (simp add: bit_iff_odd)
    have above: "\<not> bit n i" if "m < i" for i
    proof -
      have "(2 :: nat) ^ Suc m \<le> 2 ^ i" using that by (intro power_increasing) simp_all
      with m have "n < 2 ^ i" by simp
      then show ?thesis by (simp add: bit_iff_odd)
    qed
    have "r = mask (Suc m)"
    proof (rule bit_eqI)
      fix i
      show "bit r i \<longleftrightarrow> bit (mask (Suc m) :: size_t) i"
      proof (cases "i \<le> m")
        case True
        with top m63 have "\<exists>k<64. bit (v - 1) (i + k)"
          by (intro exI [of _ "m - i"]) (simp add: bn)
        with True m63 show ?thesis by (simp add: bits bit_mask_iff)
      next
        case False
        then show ?thesis using above by (auto simp: bits bn bit_mask_iff)
      qed
    qed
    then have "unat (next_pow2 v) = 2 ^ Suc m"
      using m63 power_strict_increasing [of "Suc m" 64 "2 :: nat"] unat_of_nat_size [of "2 ^ Suc m"]
      unfolding r by (simp add: mask_eq_exp_minus_1)
    moreover have "2 ^ Suc m < 2 * unat v" "unat v \<le> 2 ^ Suc m"
      using m w assms n_def power_Suc [of "2 :: nat" m] by linarith+
    ultimately show ?thesis by (intro exI [of _ "Suc m"]) simp
  qed
qed

section \<open>Messages\<close>

fun values_args :: "smp_value list \<Rightarrow> arg list option" where
  "values_args [] = Some []"
| "values_args (v # vs) =
     (if vtype v = TYPE_NONE then values_args vs
      else do { a \<leftarrow> value_arg v; as \<leftarrow> values_args vs; Some (a # as) })"

text \<open>The arguments of a message: its values that have a type, in order.\<close>

definition message_args :: "message \<Rightarrow> arg list option" where
  "message_args m = do { vs \<leftarrow> values_used m; values_args vs }"

definition args_wire :: "byte_order \<Rightarrow> arg list \<Rightarrow> byte list" where
  "args_wire bo as = concat (map (arg_wire bo) as)"

definition message_wire :: "byte_order \<Rightarrow> u32 \<Rightarrow> arg list \<Rightarrow> byte list" where
  "message_wire bo ident as =
     object_bytes bo 4 ident
     @ object_bytes bo 4 (of_nat (length (args_wire bo as)) :: u32)
     @ args_wire bo as"

definition message_wf :: "message \<Rightarrow> bool" where
  "message_wf m \<longleftrightarrow> unat (capacity m) \<le> length (msg_values m)"

lemma args_wire_simps [simp]:
  "args_wire bo [] = []"
  "args_wire bo (a # as) = arg_wire bo a @ args_wire bo as"
  by (simp_all add: args_wire_def)

lemma message_wire_length [simp]: "length (message_wire bo ident as) = 8 + length (args_wire bo as)"
  by (simp add: message_wire_def)

lemma values_args_append:
  "values_args vs = Some as \<Longrightarrow> values_args ws = Some bs \<Longrightarrow> values_args (vs @ ws) = Some (as @ bs)"
  by (induction vs arbitrary: as) (auto simp: bind_eq_Some_conv split: if_splits)

lemma values_args_none: "\<forall>v\<in>set vs. vtype v = TYPE_NONE \<Longrightarrow> values_args vs = Some []"
  by (induction vs) simp_all

lemma values_args_all:
  "list_all2 (\<lambda>v a. value_arg v = Some a) vs as \<Longrightarrow> values_args vs = Some as"
  by (induction rule: list_all2_induct) (auto dest: value_arg_type)

lemma values_args_wf: "values_args vs = Some as \<Longrightarrow> a \<in> set as \<Longrightarrow> arg_wf a"
  by (induction vs arbitrary: as) (auto simp: bind_eq_Some_conv value_arg_wf split: if_splits)

subsection \<open>Encoding\<close>

lemma compute_max_args:
  "values_args vs = Some as \<Longrightarrow>
   compute_max_loop ret vs = Some (ret + of_nat (length (args_wire bo as)))"
proof (induction vs arbitrary: ret as)
  case (Cons v vs)
  then show ?case
    by (auto simp: bind_eq_Some_conv compute_size_arg [where bo = bo] arg_wire_def split: if_splits)
qed simp

lemma encode_value_oversized:
  assumes "value_arg v = Some a" and "\<not> arg_fits a"
  shows "smp_message_encode_value bo v m off =
    do { m' \<leftarrow> mem_write m off [ucast (int_of_type (arg_type a))]; Some (0, m') }"
proof (cases "vtype v")
  case TYPE_STRING
  with assms(1) obtain s n where p: "union_cstring (vval v) = Some (Some s)" "c_strlen s = Some n"
    and a: "a = AStr (take (unat n) s)" and n: "unat n \<le> length s"
    by (rule value_arg_stringE)
  then have "n > UINT16_MAX - 1"
    using assms(2) by (simp add: UINT16_MAX_def word_less_nat_alt)
  with p a TYPE_STRING show ?thesis by (simp add: smp_message_encode_value_def Let_def)
next
  case TYPE_RAW
  with assms(1) obtain p n where p: "union_craw (vval v) = Some (p, n)"
    and a: "if n = 0 then a = ARaw []
            else \<exists>q. p = Some q \<and> unat n \<le> length q \<and> a = ARaw (take (unat n) q)"
    by (rule value_arg_rawE)
  then have "n > UINT16_MAX"
    using assms(2) by (auto simp: UINT16_MAX_def word_less_nat_alt split: if_splits)
  moreover from a have "arg_type a = TYPE_RAW" by (auto split: if_splits)
  ultimately show ?thesis using p TYPE_RAW by (simp add: smp_message_encode_value_def Let_def)
qed (use assms in \<open>auto simp: value_arg_def\<close>)

lemma encode_values_args:
  assumes "values_args vs = Some as" and "off + length (args_wire bo as) \<le> length m"
    and "length m < 2 ^ 64"
  shows "\<exists>m'. encode_values bo vs m (of_nat off) =
      Some (of_nat (off + length (args_wire bo (filter arg_fits as))), m') \<and>
    length m' = length m \<and>
    take (off + length (args_wire bo (filter arg_fits as))) m'
      = take off m @ args_wire bo (filter arg_fits as) \<and>
    drop (off + length (args_wire bo as)) m' = drop (off + length (args_wire bo as)) m"
  using assms
proof (induction vs arbitrary: off m as)
  case Nil
  then show ?case by simp
next
  case (Cons v vs)
  show ?case
  proof (cases "vtype v = TYPE_NONE")
    case True
    with Cons show ?thesis by simp
  next
    case False
    with Cons.prems obtain a as' where a: "value_arg v = Some a" "values_args vs = Some as'"
      and as: "as = a # as'"
      by (auto simp: bind_eq_Some_conv)
    have off: "unat (of_nat off :: size_t) = off" using Cons.prems by simp
    show ?thesis
    proof (cases "arg_fits a")
      case True
      define k where "k = off + length (arg_wire bo a)"
      obtain m1 where m1: "mem_write m off (arg_wire bo a) = Some m1"
        using Cons.prems by (auto simp: as mem_write_def)
      then have at: "take k m1 = take off m @ arg_wire bo a"
        and after: "\<And>j. k \<le> j \<Longrightarrow> drop j m1 = drop j m" and len: "length m1 = length m"
        by (auto simp: mem_write_def k_def split: if_splits)
      from Cons.IH [OF a(2), of k m1] Cons.prems len obtain m' where
        "encode_values bo vs m1 (of_nat k) =
          Some (of_nat (k + length (args_wire bo (filter arg_fits as'))), m')"
        "length m' = length m1"
        "take (k + length (args_wire bo (filter arg_fits as'))) m'
          = take k m1 @ args_wire bo (filter arg_fits as')"
        "drop (k + length (args_wire bo as')) m' = drop (k + length (args_wire bo as')) m1"
        by (auto simp: as k_def)
      with True False a m1 off at after len show ?thesis
        by (simp add: as encode_value_arg k_def ac_simps)
    next
      case nofit: False
      obtain m1 where m1: "mem_write m off [ucast (int_of_type (arg_type a))] = Some m1"
        using Cons.prems arg_wire_length [of bo a] by (auto simp: as mem_write_def)
      then have at: "take off m1 = take off m"
        and after: "\<And>j. off < j \<Longrightarrow> drop j m1 = drop j m" and len: "length m1 = length m"
        by (auto simp: mem_write_def min_def drop_Cons' split: if_splits)
      from Cons.IH [OF a(2), of off m1] Cons.prems len obtain m' where ih:
        "encode_values bo vs m1 (of_nat off) =
          Some (of_nat (off + length (args_wire bo (filter arg_fits as'))), m')"
        "length m' = length m1"
        "take (off + length (args_wire bo (filter arg_fits as'))) m'
          = take off m1 @ args_wire bo (filter arg_fits as')"
        "drop (off + length (args_wire bo as')) m' = drop (off + length (args_wire bo as')) m1"
        by (auto simp: as)
      have "drop (length (arg_wire bo a) + (off + length (args_wire bo as'))) m' =
        drop (length (arg_wire bo a) + (off + length (args_wire bo as'))) m1"
        using arg_cong [OF ih(4), of "drop (length (arg_wire bo a))"] by (simp only: drop_drop)
      moreover have "off < off + length (args_wire bo as)"
        using arg_wire_length [of bo a] unfolding as args_wire_simps length_append by linarith
      note after [OF this]
      ultimately show ?thesis using ih False nofit a m1 off at len
        by (simp add: as encode_value_oversized ac_simps)
    qed
  qed
qed

lemma write_header:
  "8 \<le> length m \<Longrightarrow> smp_write_uint32 bo m 0 x = Some (object_bytes bo 4 x @ drop 4 m)"
  "length pre = 4 \<Longrightarrow> 4 \<le> length rest \<Longrightarrow>
   smp_write_uint32 bo (pre @ rest) 4 y = Some (pre @ object_bytes bo 4 y @ drop 4 rest)"
  by (simp_all add: smp_write_uint32_def mem_write_def)

lemma used_wf: "message_wf m \<Longrightarrow> values_used m = Some (take (unat (capacity m)) (msg_values m))"
  by (simp add: values_used_def message_wf_def)

text \<open>
  The encoder writes the wire format of the arguments that fit, leaves the bytes past the
  encoded size alone, and refuses a buffer smaller than the encoded size without writing.
\<close>

lemma encoded_size_args:
  assumes "message_args m = Some as"
  shows "smp_message_get_encoded_size (Some m) = Some (of_nat (8 + length (args_wire bo as)))"
proof -
  from assms obtain vs where vs: "values_used m = Some vs" "values_args vs = Some as"
    by (auto simp: message_args_def bind_eq_Some_conv)
  with compute_max_args [OF vs(2), of 0 bo] show ?thesis
    by (simp add: smp_message_get_encoded_size_def smp_message_compute_max_encoded_size_def
        MSG_HEADER_SIZE_def)
qed

lemma encode_message_fits:
  assumes "message_args m = Some as" and "length (args_wire bo as) < 2 ^ 32"
    and "unat sz \<le> length buf" and "length buf < 2 ^ 64"
    and sz: "8 + length (args_wire bo as) \<le> unat sz"
    and wire: "wire = message_wire bo (msgid m) (filter arg_fits as)"
  shows "\<exists>buf'. smp_message_encode bo (Some m) (Some buf) sz = Some (Inr (of_nat (length wire)), Some buf') \<and>
    take (length wire) buf' = wire \<and> length buf' = length buf \<and>
    drop (8 + length (args_wire bo as)) buf' = drop (8 + length (args_wire bo as)) buf"
proof -
  let ?L = "8 + length (args_wire bo as)"
  from assms(1) obtain vs where vs: "values_used m = Some vs" "values_args vs = Some as"
    by (auto simp: message_args_def bind_eq_Some_conv)
  note size = encoded_size_args [OF assms(1), of bo]
  have L: "unat (of_nat ?L :: size_t) = ?L" using assms(2) by (intro unat_of_nat_size) simp
  let ?W = "args_wire bo (filter arg_fits as)"
  have W: "length ?W \<le> length (args_wire bo as)" by (induction as) auto
  define b1 where "b1 = object_bytes bo 4 (msgid m) @ drop 4 buf"
  have b1: "smp_write_uint32 bo buf 0 (msgid m) = Some b1" "length b1 = length buf"
    using sz assms(3) by (simp_all add: b1_def write_header)
  from encode_values_args [OF vs(2), of 8 bo b1] sz assms b1 obtain b2 where
    b2: "encode_values bo vs b1 8 = Some (of_nat (8 + length ?W), b2)" "length b2 = length buf"
      "take (8 + length ?W) b2 = take 8 b1 @ ?W" "drop ?L b2 = drop ?L b1"
    by auto
  define b3 where "b3 = object_bytes bo 4 (msgid m) @ object_bytes bo 4 (of_nat (length ?W) :: u32) @ drop 8 b2"
  have "take 4 (take (8 + length ?W) b2) = take 4 (take 8 b1 @ ?W)" by (simp only: b2)
  then have "take 4 b2 = object_bytes bo 4 (msgid m)"
    using sz assms(3) b1 by (simp add: b1_def)
  then have "b2 = object_bytes bo 4 (msgid m) @ drop 4 b2" by (metis append_take_drop_id)
  then have b3: "smp_write_uint32 bo b2 4 (of_nat (length ?W)) = Some b3"
    using sz assms(3) b1(2) b2(2) write_header(2) [of "object_bytes bo 4 (msgid m)" "drop 4 b2" bo "of_nat (length ?W)"]
    by (simp add: b3_def)
  have "drop 8 (take (8 + length ?W) b2) = drop 8 (take 8 b1 @ ?W)" by (simp only: b2)
  then have "take (length ?W) (drop 8 b2) = ?W"
    using sz assms(3) b1(2) by (simp add: drop_take)
  then have "take (8 + length ?W) b3 = wire" by (simp add: b3_def wire message_wire_def)
  moreover have "length b3 = length buf" using sz assms(3) b2(2) b1(2) by (simp add: b3_def)
  moreover have "drop ?L b3 = drop ?L buf"
  proof -
    have "drop ?L b3 = drop ?L b2" by (simp add: b3_def add.commute)
    also have "\<dots> = drop ?L buf" using b2(4) by (simp add: b1_def add.commute)
    finally show ?thesis .
  qed
  moreover have "smp_message_encode bo (Some m) (Some buf) sz = Some (Inr (of_nat (8 + length ?W)), Some b3)"
  proof -
    have n: "\<not> sz < of_nat ?L" using sz L by (simp add: word_less_nat_alt del: of_nat_add)
    have w: "(of_nat (8 + length ?W) :: size_t) - MSG_HEADER_SIZE = of_nat (length ?W)"
      by (simp add: MSG_HEADER_SIZE_def)
    have u: "unat (of_nat (length ?W) :: size_t) = length ?W" using W assms(2) by simp
    then have "\<not> of_nat (length ?W) > UINT32_MAX"
      using W assms(2) by (simp add: UINT32_MAX_def word_less_nat_alt)
    moreover have "ucast (of_nat (length ?W) :: size_t) = (of_nat (length ?W) :: u32)"
      using W assms(2) by (intro ucast_u32_of_nat) simp
    ultimately show ?thesis
      unfolding smp_message_encode_def
      using n size b1(1) vs(1) b2(1) b3 w
      by (simp del: of_nat_add add: MSG_HEADER_SIZE_def)
  qed
  ultimately show ?thesis using wire by auto
qed

lemma encode_message:
  assumes "message_args m = Some as" and "length (args_wire bo as) < 2 ^ 32"
    and "unat sz \<le> length buf" and "length buf < 2 ^ 64"
  shows "smp_message_get_encoded_size (Some m) = Some (of_nat (8 + length (args_wire bo as)))"
    and "unat sz < 8 + length (args_wire bo as) \<Longrightarrow>
      smp_message_encode bo (Some m) (Some buf) sz = Some (Inl SMP_ERROR_NO_MEM, Some buf)"
    and "8 + length (args_wire bo as) \<le> unat sz \<Longrightarrow>
      wire = message_wire bo (msgid m) (filter arg_fits as) \<Longrightarrow>
      \<exists>buf'. smp_message_encode bo (Some m) (Some buf) sz = Some (Inr (of_nat (length wire)), Some buf') \<and>
        take (length wire) buf' = wire \<and> length buf' = length buf \<and>
        drop (8 + length (args_wire bo as)) buf' = drop (8 + length (args_wire bo as)) buf"
proof -
  let ?L = "8 + length (args_wire bo as)"
  show size: "smp_message_get_encoded_size (Some m) = Some (of_nat ?L)"
    using assms(1) by (rule encoded_size_args)
  have L: "unat (of_nat ?L :: size_t) = ?L" using assms(2) by (intro unat_of_nat_size) simp
  show "smp_message_encode bo (Some m) (Some buf) sz = Some (Inl SMP_ERROR_NO_MEM, Some buf)"
    if "unat sz < ?L"
    using that L size unfolding smp_message_encode_def by (simp add: word_less_nat_alt del: of_nat_add)
qed (use encode_message_fits [OF assms] in blast)

end
