(* ===== verification/Smp_Float.thy ===== *)
theory Smp_Float
  imports Smp_Prelude
begin

text \<open>
  The conversions between \<open>float\<close> and \<open>double\<close> that C inserts around variable arguments: a
  \<open>float\<close> argument is promoted to \<open>double\<close>, and \<open>smp_message_set_valist\<close> converts it back. A
  value is the word of its IEEE 754 bits, rounding is to nearest, ties to even, and a NaN is
  made quiet with the upper bits of its payload kept.
\<close>

section \<open>Fields\<close>

definition f32_sign :: "u32 \<Rightarrow> nat" where "f32_sign w = unat w div 2 ^ 31"
definition f32_exp :: "u32 \<Rightarrow> nat" where "f32_exp w = unat w div 2 ^ 23 mod 256"
definition f32_frac :: "u32 \<Rightarrow> nat" where "f32_frac w = unat w mod 2 ^ 23"

definition f64_sign :: "u64 \<Rightarrow> nat" where "f64_sign w = unat w div 2 ^ 63"
definition f64_exp :: "u64 \<Rightarrow> nat" where "f64_exp w = unat w div 2 ^ 52 mod 2048"
definition f64_frac :: "u64 \<Rightarrow> nat" where "f64_frac w = unat w mod 2 ^ 52"

definition f32_pack :: "nat \<Rightarrow> nat \<Rightarrow> nat \<Rightarrow> u32" where
  "f32_pack s e m = of_nat (s * 2 ^ 31 + e * 2 ^ 23 + m)"

definition f64_pack :: "nat \<Rightarrow> nat \<Rightarrow> nat \<Rightarrow> u64" where
  "f64_pack s e m = of_nat (s * 2 ^ 63 + e * 2 ^ 52 + m)"

section \<open>Conversions\<close>

fun top_bit :: "nat \<Rightarrow> nat" where
  "top_bit n = (if n < 2 then 0 else Suc (top_bit (n div 2)))"

declare top_bit.simps [simp del]

definition float_to_double :: "u32 \<Rightarrow> u64" where
  "float_to_double w =
     (let s = f32_sign w; e = f32_exp w; m = f32_frac w in
      if e = 255 then
        f64_pack s 2047 (if m = 0 then 0 else m * 2 ^ 29 + (if m < 2 ^ 22 then 2 ^ 51 else 0))
      else if e = 0 then
        (if m = 0 then f64_pack s 0 0
         else let k = top_bit m in f64_pack s (k + 874) ((m - 2 ^ k) * 2 ^ (52 - k)))
      else f64_pack s (e + 896) (m * 2 ^ 29))"

definition round_even :: "nat \<Rightarrow> nat \<Rightarrow> nat" where
  "round_even sig d =
     (let q = sig div 2 ^ d; r = sig mod 2 ^ d; h = 2 ^ (d - 1) in
      if r < h then q else if r > h then q + 1 else q + q mod 2)"

text \<open>
  The unit of the last place of the result is \<open>2 ^ d\<close> times that of the argument: 29 bits are
  dropped, more when the result is subnormal.
\<close>

definition double_to_float :: "u64 \<Rightarrow> u32" where
  "double_to_float w =
     (let s = f64_sign w; e = f64_exp w; m = f64_frac w in
      if e = 2047 then
        (let p = m div 2 ^ 29
         in f32_pack s 255 (if m = 0 then 0 else p + (if p < 2 ^ 22 then 2 ^ 22 else 0)))
      else
        (let sig = (if e = 0 then m else 2 ^ 52 + m);
             ulp = max e 1;
             d = max 29 (926 - ulp);
             bits = (ulp + d - 926) * 2 ^ 23 + round_even sig d
         in if bits \<ge> 255 * 2 ^ 23 then f32_pack s 255 0 else f32_pack s 0 bits))"

section \<open>Exactness\<close>

lemma top_bit_bounds: "0 < n \<Longrightarrow> 2 ^ top_bit n \<le> n \<and> n < 2 ^ Suc (top_bit n)"
proof (induction n rule: top_bit.induct)
  case (1 n)
  show ?case
  proof (cases "n < 2")
    case True
    with 1 show ?thesis by (subst (1 2) top_bit.simps) simp
  next
    case False
    with 1 have "2 ^ top_bit (n div 2) \<le> n div 2 \<and> n div 2 < 2 ^ Suc (top_bit (n div 2))" by simp
    moreover have "top_bit n = Suc (top_bit (n div 2))" using False by (subst top_bit.simps) simp
    ultimately show ?thesis by (simp add: less_mult_imp_div_less) linarith
  qed
qed

lemma field_div: "m < b \<Longrightarrow> (a * b + m) div b = (a :: nat)"
  by simp

lemma field_mod: "m < b \<Longrightarrow> (a * b + m) mod b = (m :: nat)"
  by simp

lemma f64_pack_fields:
  assumes "s < 2" and "e < 2048" and "m < 2 ^ 52"
  shows "f64_sign (f64_pack s e m) = s" and "f64_exp (f64_pack s e m) = e"
    and "f64_frac (f64_pack s e m) = m"
proof -
  let ?n = "s * 2 ^ 63 + e * 2 ^ 52 + m"
  have n: "?n < 2 ^ 64" using assms by simp
  then have u: "unat (f64_pack s e m) = ?n" unfolding f64_pack_def by (rule unat_of_nat_size)
  have eq: "?n = (s * 2048 + e) * 2 ^ 52 + m" "?n = s * 2 ^ 63 + (e * 2 ^ 52 + m)" by simp_all
  have "e * 2 ^ 52 + m < 2 ^ 63" using assms by simp
  then show "f64_sign (f64_pack s e m) = s" unfolding f64_sign_def u eq(2) by (rule field_div)
  show "f64_frac (f64_pack s e m) = m" unfolding f64_frac_def u eq(1) by (rule field_mod) (rule assms)
  have "?n div 2 ^ 52 = s * 2048 + e" unfolding eq(1) by (rule field_div) (rule assms)
  then show "f64_exp (f64_pack s e m) = e"
    unfolding f64_exp_def u using field_mod [OF assms(2), of s] by simp
qed

lemma f32_fields:
  "f32_sign w < 2" "f32_exp w < 256" "f32_frac w < 2 ^ 23"
  "unat w = f32_sign w * 2 ^ 31 + f32_exp w * 2 ^ 23 + f32_frac w"
proof -
  have w: "unat w < 2 ^ 32"
  proof -
    have "unat w < 2 ^ LENGTH(32)" by (rule unsigned_less)
    then show ?thesis by simp
  qed
  then show "f32_sign w < 2" by (simp add: f32_sign_def)
  show "f32_exp w < 256" "f32_frac w < 2 ^ 23" by (simp_all add: f32_exp_def f32_frac_def)
  have p: "(2 :: nat) ^ 31 = 2147483648" "(2 :: nat) ^ 23 = 8388608" by simp_all
  have "unat w = unat w div 8388608 * 8388608 + unat w mod 8388608" by simp
  moreover have "unat w div 8388608 = unat w div 2147483648 * 256 + unat w div 8388608 mod 256"
    using div_mult2_eq [of "unat w" 8388608 256] by simp
  ultimately show "unat w = f32_sign w * 2 ^ 31 + f32_exp w * 2 ^ 23 + f32_frac w"
    unfolding f32_sign_def f32_exp_def f32_frac_def p by linarith
qed

lemma f32_pack_fields: "f32_pack (f32_sign w) (f32_exp w) (f32_frac w) = w"
  unfolding f32_pack_def f32_fields(4) [symmetric] by simp

lemma round_even_exact: "0 < d \<Longrightarrow> round_even (q * 2 ^ d) d = q"
  by (simp add: round_even_def)

text \<open>
  Promotion to \<open>double\<close> and back is the identity, apart from a signalling NaN, which is quieted.
\<close>

lemma float_double_subnormal:
  assumes subnormal: "f32_exp w = 0" "0 < f32_frac w"
  shows "double_to_float (float_to_double w) = w"
proof -
  note f = f32_fields [of w]
  let ?m = "f32_frac w" let ?k = "top_bit (f32_frac w)"
  have k: "2 ^ ?k \<le> ?m" "?m < 2 ^ Suc ?k" using top_bit_bounds subnormal by simp_all
  then have "(2 :: nat) ^ ?k < 2 ^ 23" using f(3) by simp
  then have k22: "?k < 23" by (rule power_less_imp_less_exp [rotated]) simp
  have p: "(2 :: nat) ^ ?k * 2 ^ (52 - ?k) = 2 ^ 52" using k22 by (simp flip: power_add)
  have "(?m - 2 ^ ?k) * 2 ^ (52 - ?k) < 2 ^ ?k * 2 ^ (52 - ?k)" using k by simp
  then have frac: "(?m - 2 ^ ?k) * 2 ^ (52 - ?k) < 2 ^ 52" by (simp only: p)
  have sig: "2 ^ 52 + (?m - 2 ^ ?k) * 2 ^ (52 - ?k) = ?m * 2 ^ (52 - ?k)"
  proof -
    have "2 ^ ?k * 2 ^ (52 - ?k) \<le> ?m * 2 ^ (52 - ?k)" using k(1) by (rule mult_le_mono1)
    then show ?thesis unfolding p diff_mult_distrib by simp
  qed
  have "float_to_double w = f64_pack (f32_sign w) (?k + 874) ((?m - 2 ^ ?k) * 2 ^ (52 - ?k))"
    using subnormal by (simp add: float_to_double_def Let_def)
  moreover have "max 29 (926 - max (?k + 874) 1) = 52 - ?k" "?k + 874 + (52 - ?k) - 926 = 0"
    using k22 by simp_all
  ultimately show ?thesis
    using subnormal f f32_pack_fields [of w] k22 frac sig
    by (simp add: double_to_float_def Let_def f64_pack_fields round_even_exact)
qed

lemma float_double_normal:
  assumes normal: "0 < f32_exp w" "f32_exp w < 255"
  shows "double_to_float (float_to_double w) = w"
proof -
  note f = f32_fields [of w]
  have "float_to_double w = f64_pack (f32_sign w) (f32_exp w + 896) (f32_frac w * 2 ^ 29)"
    using normal by (simp add: float_to_double_def)
  moreover have "2 ^ 52 + f32_frac w * 2 ^ 29 = (2 ^ 23 + f32_frac w) * 2 ^ 29" by simp
  moreover have "f32_frac w * 2 ^ 29 < 2 ^ 52" using f(3) by simp
  moreover have "max 29 (926 - max (f32_exp w + 896) 1) = 29" "f32_exp w + 896 + 29 - 926 = f32_exp w - 1"
    using normal by simp_all
  moreover have "(f32_exp w - 1) * 2 ^ 23 + (2 ^ 23 + f32_frac w) = f32_exp w * 2 ^ 23 + f32_frac w"
    using normal by (cases "f32_exp w") simp_all
  moreover have "f32_exp w * 2 ^ 23 + f32_frac w < 255 * 2 ^ 23"
    using normal f(3) by simp
  ultimately show ?thesis
    using normal f f32_pack_fields [of w] round_even_exact [of 29 "2 ^ 23 + f32_frac w"]
    by (simp add: double_to_float_def Let_def f64_pack_fields f32_pack_def ac_simps)
qed

lemma float_double_float:
  assumes "\<not> (f32_exp w = 255 \<and> 0 < f32_frac w \<and> f32_frac w < 2 ^ 22)"
  shows "double_to_float (float_to_double w) = w"
proof -
  note f = f32_fields [of w]
  consider (special) "f32_exp w = 255" | (zero) "f32_exp w = 0" "f32_frac w = 0"
    | (subnormal) "f32_exp w = 0" "0 < f32_frac w" | (normal) "0 < f32_exp w" "f32_exp w < 255"
    using f(2) by linarith
  then show ?thesis
  proof cases
    case special
    let ?m = "if f32_frac w = 0 then 0 else f32_frac w * 2 ^ 29"
    have "float_to_double w = f64_pack (f32_sign w) 2047 ?m"
      using special assms by (auto simp: float_to_double_def)
    moreover have "?m < 2 ^ 52" using f(3) by simp
    ultimately show ?thesis
      using special assms f f32_pack_fields [of w]
      by (auto simp: double_to_float_def f64_pack_fields)
  next
    case zero
    then have "float_to_double w = f64_pack (f32_sign w) 0 0" by (simp add: float_to_double_def)
    with zero f f32_pack_fields [of w] show ?thesis
      by (simp add: double_to_float_def f64_pack_fields round_even_def)
  next
    case subnormal
    then show ?thesis by (rule float_double_subnormal)
  next
    case normal
    then show ?thesis by (rule float_double_normal)
  qed
qed

end
