(* ===== verification/Smp_Message_Api.thy ===== *)
theory Smp_Message_Api
  imports Smp_Message_Codec Smp_Float
begin

text \<open>
  Access to the arguments of a message by index: the value accessors, the variadic accessors
  and the typed accessors of \<open>src/message.c\<close>.

  A variable argument list is the list of the arguments as the caller passed them, after the
  default promotions: \<open>int\<close>s (an \<open>unsigned int\<close> is the same word), 64-bit integers, doubles,
  pointers to data that is read, pointers to locations that are written. Taking an argument of
  another kind, or one more than were passed, is undefined. The locations of the caller are a
  map from addresses to the object stored there.
\<close>

section \<open>Values by index\<close>

type_synonym c_int = "32 word"

definition negative :: "c_int \<Rightarrow> bool" where
  "negative i \<longleftrightarrow> sint i < 0"

definition smp_message_get_value :: "message option \<Rightarrow> c_int \<Rightarrow> (smp_error + smp_value) option" where
  "smp_message_get_value msg index =
     (case msg of
        None \<Rightarrow> Some (Inl SMP_ERROR_INVALID_PARAM)
      | Some m \<Rightarrow>
          if negative index then Some (Inl SMP_ERROR_INVALID_PARAM)
          else if scast index \<ge> capacity m then Some (Inl SMP_ERROR_NOT_FOUND)
          else do {
            v \<leftarrow> values_get m (unat index);
            if vtype v = TYPE_NONE then Some (Inl SMP_ERROR_NOT_FOUND) else Some (Inr v)
          })"

definition smp_message_set_value ::
  "message option \<Rightarrow> c_int \<Rightarrow> smp_value option \<Rightarrow> ((smp_error + unit) \<times> message option) option" where
  "smp_message_set_value msg index value =
     (case msg of
        None \<Rightarrow> Some (Inl SMP_ERROR_INVALID_PARAM, None)
      | Some m \<Rightarrow>
          if negative index then Some (Inl SMP_ERROR_INVALID_PARAM, msg)
          else (case value of
              None \<Rightarrow> Some (Inl SMP_ERROR_INVALID_PARAM, msg)
            | Some v \<Rightarrow>
                if scast index \<ge> capacity m then Some (Inl SMP_ERROR_NOT_FOUND, msg)
                else do { m' \<leftarrow> values_set m (unat index) v; Some (Inr (), Some m') }))"

section \<open>Variable arguments\<close>

datatype va_arg =
    VaInt u32
  | VaLong u64
  | VaDouble u64
  | VaPtr "mem option"
  | VaOut "nat option"

fun va_int :: "va_arg list \<Rightarrow> (u32 \<times> va_arg list) option" where
  "va_int (VaInt x # ap) = Some (x, ap)" | "va_int _ = None"

fun va_long :: "va_arg list \<Rightarrow> (u64 \<times> va_arg list) option" where
  "va_long (VaLong x # ap) = Some (x, ap)" | "va_long _ = None"

fun va_double :: "va_arg list \<Rightarrow> (u64 \<times> va_arg list) option" where
  "va_double (VaDouble x # ap) = Some (x, ap)" | "va_double _ = None"

fun va_ptr :: "va_arg list \<Rightarrow> (mem option \<times> va_arg list) option" where
  "va_ptr (VaPtr p # ap) = Some (p, ap)" | "va_ptr _ = None"

text \<open>A location to write to: a null pointer is undefined as soon as it is written.\<close>

fun va_out :: "va_arg list \<Rightarrow> (nat \<times> va_arg list) option" where
  "va_out (VaOut (Some a) # ap) = Some (a, ap)" | "va_out _ = None"

lemma va_rest_shorter:
  "va_int ap = Some (x, ap') \<Longrightarrow> length ap' < length ap"
  "va_long ap = Some (y, ap') \<Longrightarrow> length ap' < length ap"
  "va_double ap = Some (z, ap') \<Longrightarrow> length ap' < length ap"
  "va_ptr ap = Some (p, ap') \<Longrightarrow> length ap' < length ap"
  "va_out ap = Some (a, ap') \<Longrightarrow> length ap' < length ap"
  by (auto elim: va_int.elims va_long.elims va_double.elims va_ptr.elims va_out.elims)

section \<open>Setting\<close>

text \<open>
  The argument of one value, by its type. A type without a case leaves the union unwritten; the
  value is set all the same.
\<close>

definition set_take_value :: "va_arg list \<Rightarrow> (smp_value \<times> va_arg list) option" where
  "set_take_value ap0 =
     do {
       (w, ap) \<leftarrow> va_int ap0;
       let t = type_of_int w;
       let mk = (\<lambda>u. \<lparr>vtype = t, vval = u\<rparr>);
       case t of
         TYPE_UINT8 \<Rightarrow> do { (x, ap) \<leftarrow> va_int ap; Some (mk (UU8 (ucast x)), ap) }
       | TYPE_INT8 \<Rightarrow> do { (x, ap) \<leftarrow> va_int ap; Some (mk (UI8 (ucast x)), ap) }
       | TYPE_UINT16 \<Rightarrow> do { (x, ap) \<leftarrow> va_int ap; Some (mk (UU16 (ucast x)), ap) }
       | TYPE_INT16 \<Rightarrow> do { (x, ap) \<leftarrow> va_int ap; Some (mk (UI16 (ucast x)), ap) }
       | TYPE_UINT32 \<Rightarrow> do { (x, ap) \<leftarrow> va_int ap; Some (mk (UU32 x), ap) }
       | TYPE_INT32 \<Rightarrow> do { (x, ap) \<leftarrow> va_int ap; Some (mk (UI32 x), ap) }
       | TYPE_UINT64 \<Rightarrow> do { (x, ap) \<leftarrow> va_long ap; Some (mk (UU64 x), ap) }
       | TYPE_INT64 \<Rightarrow> do { (x, ap) \<leftarrow> va_long ap; Some (mk (UI64 x), ap) }
       | TYPE_STRING \<Rightarrow> do { (p, ap) \<leftarrow> va_ptr ap; Some (mk (UCstring p), ap) }
       | TYPE_RAW \<Rightarrow>
           do { (p, ap) \<leftarrow> va_ptr ap; (n, ap) \<leftarrow> va_long ap; Some (mk (UCraw p n), ap) }
       | TYPE_F32 \<Rightarrow> do { (x, ap) \<leftarrow> va_double ap; Some (mk (UF32 (double_to_float x)), ap) }
       | TYPE_F64 \<Rightarrow> do { (x, ap) \<leftarrow> va_double ap; Some (mk (UF64 x), ap) }
       | _ \<Rightarrow> Some (mk UIndet, ap)
     }"

lemma set_take_value_shorter:
  assumes "set_take_value ap = Some (v, ap')"
  shows "length ap' < length ap"
proof -
  from assms obtain w ap0 where w: "va_int ap = Some (w, ap0)"
    by (auto simp: set_take_value_def bind_eq_Some_conv)
  with assms have "length ap' \<le> length ap0"
    by (cases "type_of_int w")
      (auto simp: set_take_value_def Let_def bind_eq_Some_conv dest!: va_rest_shorter)
  with va_rest_shorter(1) [OF w] show ?thesis by simp
qed

function set_valist_loop ::
  "message option \<Rightarrow> c_int \<Rightarrow> va_arg list \<Rightarrow> ((smp_error + unit) \<times> message option) option" where
  "set_valist_loop msg index ap =
     (case set_take_value ap of
        None \<Rightarrow> None
      | Some (val, ap1) \<Rightarrow>
          (case smp_message_set_value msg index (Some val) of
             None \<Rightarrow> None
           | Some (Inl e, msg') \<Rightarrow> Some (Inl e, msg')
           | Some (Inr _, msg') \<Rightarrow>
               (case va_int ap1 of
                  None \<Rightarrow> None
                | Some (index', ap2) \<Rightarrow>
                    if \<not> negative index' then set_valist_loop msg' index' ap2
                    else Some (Inr (), msg'))))"
  by pat_completeness auto
termination
  by (relation "measure (\<lambda>(msg, index, ap). length ap)")
    (auto dest!: set_take_value_shorter va_rest_shorter)

declare set_valist_loop.simps [simp del]

definition smp_message_set_valist ::
  "message option \<Rightarrow> c_int \<Rightarrow> va_arg list \<Rightarrow> ((smp_error + unit) \<times> message option) option" where
  "smp_message_set_valist msg index ap =
     (if msg = None then Some (Inl SMP_ERROR_INVALID_PARAM, None)
      else if negative index then Some (Inl SMP_ERROR_INVALID_PARAM, msg)
      else set_valist_loop msg index ap)"

definition smp_message_set ::
  "message option \<Rightarrow> c_int \<Rightarrow> va_arg list \<Rightarrow> ((smp_error + unit) \<times> message option) option" where
  "smp_message_set msg index ap = smp_message_set_valist msg index ap"

section \<open>Getting\<close>

datatype out_value =
    OutU8 byte | OutI8 byte
  | OutU16 u16 | OutI16 u16
  | OutU32 u32 | OutI32 u32
  | OutU64 u64 | OutI64 u64
  | OutF32 u32 | OutF64 u64
  | OutStr "mem option"
  | OutRaw "mem option"
  | OutSize size_t

type_synonym out_mem = "nat \<Rightarrow> out_value option"

definition get_put_value ::
  "smp_type \<Rightarrow> smp_value \<Rightarrow> va_arg list \<Rightarrow> out_mem \<Rightarrow> ((smp_error + va_arg list) \<times> out_mem) option" where
  "get_put_value t v ap out =
     (case t of
        TYPE_UINT8 \<Rightarrow>
          do { (a, ap) \<leftarrow> va_out ap; x \<leftarrow> union_u8 (vval v); Some (Inr ap, out(a \<mapsto> OutU8 x)) }
      | TYPE_INT8 \<Rightarrow>
          do { (a, ap) \<leftarrow> va_out ap; x \<leftarrow> union_i8 (vval v); Some (Inr ap, out(a \<mapsto> OutI8 x)) }
      | TYPE_UINT16 \<Rightarrow>
          do { (a, ap) \<leftarrow> va_out ap; x \<leftarrow> union_u16 (vval v); Some (Inr ap, out(a \<mapsto> OutU16 x)) }
      | TYPE_INT16 \<Rightarrow>
          do { (a, ap) \<leftarrow> va_out ap; x \<leftarrow> union_i16 (vval v); Some (Inr ap, out(a \<mapsto> OutI16 x)) }
      | TYPE_UINT32 \<Rightarrow>
          do { (a, ap) \<leftarrow> va_out ap; x \<leftarrow> union_u32 (vval v); Some (Inr ap, out(a \<mapsto> OutU32 x)) }
      | TYPE_INT32 \<Rightarrow>
          do { (a, ap) \<leftarrow> va_out ap; x \<leftarrow> union_i32 (vval v); Some (Inr ap, out(a \<mapsto> OutI32 x)) }
      | TYPE_UINT64 \<Rightarrow>
          do { (a, ap) \<leftarrow> va_out ap; x \<leftarrow> union_u64 (vval v); Some (Inr ap, out(a \<mapsto> OutU64 x)) }
      | TYPE_INT64 \<Rightarrow>
          do { (a, ap) \<leftarrow> va_out ap; x \<leftarrow> union_i64 (vval v); Some (Inr ap, out(a \<mapsto> OutI64 x)) }
      | TYPE_STRING \<Rightarrow>
          do { (a, ap) \<leftarrow> va_out ap; p \<leftarrow> union_cstring (vval v); Some (Inr ap, out(a \<mapsto> OutStr p)) }
      | TYPE_RAW \<Rightarrow>
          do {
            (a, ap) \<leftarrow> va_out ap;
            (b, ap) \<leftarrow> va_out ap;
            (p, n) \<leftarrow> union_craw (vval v);
            Some (Inr ap, out(a \<mapsto> OutRaw p, b \<mapsto> OutSize n))
          }
      | TYPE_F32 \<Rightarrow>
          do { (a, ap) \<leftarrow> va_out ap; x \<leftarrow> union_f32 (vval v); Some (Inr ap, out(a \<mapsto> OutF32 x)) }
      | TYPE_F64 \<Rightarrow>
          do { (a, ap) \<leftarrow> va_out ap; x \<leftarrow> union_f64 (vval v); Some (Inr ap, out(a \<mapsto> OutF64 x)) }
      | _ \<Rightarrow> Some (Inl SMP_ERROR_BAD_TYPE, out))"

lemma get_put_value_shorter:
  "get_put_value t v ap out = Some (Inr ap', out') \<Longrightarrow> length ap' \<le> length ap"
  by (cases t) (auto simp: get_put_value_def bind_eq_Some_conv dest!: va_rest_shorter)

function get_valist_loop ::
  "message option \<Rightarrow> c_int \<Rightarrow> va_arg list \<Rightarrow> out_mem \<Rightarrow> ((smp_error + unit) \<times> out_mem) option" where
  "get_valist_loop msg index ap out =
     (case smp_message_get_value msg index of
        None \<Rightarrow> None
      | Some (Inl e) \<Rightarrow> Some (Inl e, out)
      | Some (Inr val) \<Rightarrow>
          (case va_int ap of
             None \<Rightarrow> None
           | Some (w, ap1) \<Rightarrow>
               if type_of_int w \<noteq> vtype val then Some (Inl SMP_ERROR_BAD_TYPE, out)
               else (case get_put_value (type_of_int w) val ap1 out of
                  None \<Rightarrow> None
                | Some (Inl e, out') \<Rightarrow> Some (Inl e, out')
                | Some (Inr ap2, out') \<Rightarrow>
                    (case va_int ap2 of
                       None \<Rightarrow> None
                     | Some (index', ap3) \<Rightarrow>
                         if \<not> negative index' then get_valist_loop msg index' ap3 out'
                         else Some (Inr (), out')))))"
  by pat_completeness auto
termination
  by (relation "measure (\<lambda>(msg, index, ap, out). length ap)")
    (auto dest!: get_put_value_shorter va_rest_shorter)

declare get_valist_loop.simps [simp del]

definition smp_message_get_valist ::
  "message option \<Rightarrow> c_int \<Rightarrow> va_arg list \<Rightarrow> out_mem \<Rightarrow> ((smp_error + unit) \<times> out_mem) option" where
  "smp_message_get_valist msg index ap out =
     (if msg = None then Some (Inl SMP_ERROR_INVALID_PARAM, out)
      else if negative index then Some (Inl SMP_ERROR_INVALID_PARAM, out)
      else get_valist_loop msg index ap out)"

definition smp_message_get ::
  "message option \<Rightarrow> c_int \<Rightarrow> va_arg list \<Rightarrow> out_mem \<Rightarrow> ((smp_error + unit) \<times> out_mem) option" where
  "smp_message_get msg index ap out = smp_message_get_valist msg index ap out"

section \<open>Typed accessors\<close>

text \<open>The list a call builds: the type, the promoted arguments, and the final -1.\<close>

definition va_typed :: "smp_type \<Rightarrow> va_arg list \<Rightarrow> va_arg list" where
  "va_typed t xs = VaInt (int_of_type t) # xs @ [VaInt (- 1)]"

definition smp_message_get_uint8 ::
  "message option \<Rightarrow> c_int \<Rightarrow> nat option \<Rightarrow> out_mem \<Rightarrow> ((smp_error + unit) \<times> out_mem) option" where
  "smp_message_get_uint8 msg index p out =
     smp_message_get msg index (va_typed TYPE_UINT8 [VaOut p]) out"

definition smp_message_get_int8 ::
  "message option \<Rightarrow> c_int \<Rightarrow> nat option \<Rightarrow> out_mem \<Rightarrow> ((smp_error + unit) \<times> out_mem) option" where
  "smp_message_get_int8 msg index p out =
     smp_message_get msg index (va_typed TYPE_INT8 [VaOut p]) out"

definition smp_message_get_uint16 ::
  "message option \<Rightarrow> c_int \<Rightarrow> nat option \<Rightarrow> out_mem \<Rightarrow> ((smp_error + unit) \<times> out_mem) option" where
  "smp_message_get_uint16 msg index p out =
     smp_message_get msg index (va_typed TYPE_UINT16 [VaOut p]) out"

definition smp_message_get_int16 ::
  "message option \<Rightarrow> c_int \<Rightarrow> nat option \<Rightarrow> out_mem \<Rightarrow> ((smp_error + unit) \<times> out_mem) option" where
  "smp_message_get_int16 msg index p out =
     smp_message_get msg index (va_typed TYPE_INT16 [VaOut p]) out"

definition smp_message_get_uint32 ::
  "message option \<Rightarrow> c_int \<Rightarrow> nat option \<Rightarrow> out_mem \<Rightarrow> ((smp_error + unit) \<times> out_mem) option" where
  "smp_message_get_uint32 msg index p out =
     smp_message_get msg index (va_typed TYPE_UINT32 [VaOut p]) out"

definition smp_message_get_int32 ::
  "message option \<Rightarrow> c_int \<Rightarrow> nat option \<Rightarrow> out_mem \<Rightarrow> ((smp_error + unit) \<times> out_mem) option" where
  "smp_message_get_int32 msg index p out =
     smp_message_get msg index (va_typed TYPE_INT32 [VaOut p]) out"

definition smp_message_get_uint64 ::
  "message option \<Rightarrow> c_int \<Rightarrow> nat option \<Rightarrow> out_mem \<Rightarrow> ((smp_error + unit) \<times> out_mem) option" where
  "smp_message_get_uint64 msg index p out =
     smp_message_get msg index (va_typed TYPE_UINT64 [VaOut p]) out"

definition smp_message_get_int64 ::
  "message option \<Rightarrow> c_int \<Rightarrow> nat option \<Rightarrow> out_mem \<Rightarrow> ((smp_error + unit) \<times> out_mem) option" where
  "smp_message_get_int64 msg index p out =
     smp_message_get msg index (va_typed TYPE_INT64 [VaOut p]) out"

definition smp_message_get_float ::
  "message option \<Rightarrow> c_int \<Rightarrow> nat option \<Rightarrow> out_mem \<Rightarrow> ((smp_error + unit) \<times> out_mem) option" where
  "smp_message_get_float msg index p out =
     smp_message_get msg index (va_typed TYPE_F32 [VaOut p]) out"

definition smp_message_get_double ::
  "message option \<Rightarrow> c_int \<Rightarrow> nat option \<Rightarrow> out_mem \<Rightarrow> ((smp_error + unit) \<times> out_mem) option" where
  "smp_message_get_double msg index p out =
     smp_message_get msg index (va_typed TYPE_F64 [VaOut p]) out"

definition smp_message_get_cstring ::
  "message option \<Rightarrow> c_int \<Rightarrow> nat option \<Rightarrow> out_mem \<Rightarrow> ((smp_error + unit) \<times> out_mem) option" where
  "smp_message_get_cstring msg index p out =
     smp_message_get msg index (va_typed TYPE_STRING [VaOut p]) out"

definition smp_message_get_craw ::
  "message option \<Rightarrow> c_int \<Rightarrow> nat option \<Rightarrow> nat option \<Rightarrow> out_mem
   \<Rightarrow> ((smp_error + unit) \<times> out_mem) option" where
  "smp_message_get_craw msg index p psize out =
     smp_message_get msg index (va_typed TYPE_RAW [VaOut p, VaOut psize]) out"

definition smp_message_set_uint8 ::
  "message option \<Rightarrow> c_int \<Rightarrow> byte \<Rightarrow> ((smp_error + unit) \<times> message option) option" where
  "smp_message_set_uint8 msg index x =
     smp_message_set msg index (va_typed TYPE_UINT8 [VaInt (ucast x)])"

definition smp_message_set_int8 ::
  "message option \<Rightarrow> c_int \<Rightarrow> byte \<Rightarrow> ((smp_error + unit) \<times> message option) option" where
  "smp_message_set_int8 msg index x =
     smp_message_set msg index (va_typed TYPE_INT8 [VaInt (scast x)])"

definition smp_message_set_uint16 ::
  "message option \<Rightarrow> c_int \<Rightarrow> u16 \<Rightarrow> ((smp_error + unit) \<times> message option) option" where
  "smp_message_set_uint16 msg index x =
     smp_message_set msg index (va_typed TYPE_UINT16 [VaInt (ucast x)])"

definition smp_message_set_int16 ::
  "message option \<Rightarrow> c_int \<Rightarrow> u16 \<Rightarrow> ((smp_error + unit) \<times> message option) option" where
  "smp_message_set_int16 msg index x =
     smp_message_set msg index (va_typed TYPE_INT16 [VaInt (scast x)])"

definition smp_message_set_uint32 ::
  "message option \<Rightarrow> c_int \<Rightarrow> u32 \<Rightarrow> ((smp_error + unit) \<times> message option) option" where
  "smp_message_set_uint32 msg index x =
     smp_message_set msg index (va_typed TYPE_UINT32 [VaInt x])"

definition smp_message_set_int32 ::
  "message option \<Rightarrow> c_int \<Rightarrow> u32 \<Rightarrow> ((smp_error + unit) \<times> message option) option" where
  "smp_message_set_int32 msg index x =
     smp_message_set msg index (va_typed TYPE_INT32 [VaInt x])"

definition smp_message_set_uint64 ::
  "message option \<Rightarrow> c_int \<Rightarrow> u64 \<Rightarrow> ((smp_error + unit) \<times> message option) option" where
  "smp_message_set_uint64 msg index x =
     smp_message_set msg index (va_typed TYPE_UINT64 [VaLong x])"

definition smp_message_set_int64 ::
  "message option \<Rightarrow> c_int \<Rightarrow> u64 \<Rightarrow> ((smp_error + unit) \<times> message option) option" where
  "smp_message_set_int64 msg index x =
     smp_message_set msg index (va_typed TYPE_INT64 [VaLong x])"

definition smp_message_set_float ::
  "message option \<Rightarrow> c_int \<Rightarrow> u32 \<Rightarrow> ((smp_error + unit) \<times> message option) option" where
  "smp_message_set_float msg index x =
     smp_message_set msg index (va_typed TYPE_F32 [VaDouble (float_to_double x)])"

definition smp_message_set_double ::
  "message option \<Rightarrow> c_int \<Rightarrow> u64 \<Rightarrow> ((smp_error + unit) \<times> message option) option" where
  "smp_message_set_double msg index x =
     smp_message_set msg index (va_typed TYPE_F64 [VaDouble x])"

definition smp_message_set_cstring ::
  "message option \<Rightarrow> c_int \<Rightarrow> mem option \<Rightarrow> ((smp_error + unit) \<times> message option) option" where
  "smp_message_set_cstring msg index x =
     smp_message_set msg index (va_typed TYPE_STRING [VaPtr x])"

definition smp_message_set_craw ::
  "message option \<Rightarrow> c_int \<Rightarrow> mem option \<Rightarrow> size_t \<Rightarrow> ((smp_error + unit) \<times> message option) option" where
  "smp_message_set_craw msg index raw n =
     smp_message_set msg index (va_typed TYPE_RAW [VaPtr raw, VaLong n])"

end
