(* ===== verification/Smp_Message_Parse.thy ===== *)
theory Smp_Message_Parse
  imports Smp_Message_Codec
begin

text \<open>
  The parser of \<open>src/message.c\<close> against the wire format: how the capacity of a message grows
  and what the loop over the arguments does on the encoding of a list of arguments.
\<close>

section \<open>The values in use\<close>

definition used :: "message \<Rightarrow> smp_value list" where
  "used m = take (unat (capacity m)) (msg_values m)"

definition untyped :: "smp_value list \<Rightarrow> bool" where
  "untyped vs \<longleftrightarrow> (\<forall>v\<in>set vs. vtype v = TYPE_NONE)"

text \<open>Every request for at most \<open>bound\<close> bytes is granted.\<close>

definition grants :: "allocator \<Rightarrow> nat \<Rightarrow> bool" where
  "grants alloc bound \<longleftrightarrow> (\<forall>n. unat n \<le> bound \<longrightarrow> alloc n)"

lemma grants_mono: "grants alloc b \<Longrightarrow> c \<le> b \<Longrightarrow> grants alloc c"
  by (simp add: grants_def)

lemma untyped_simps [simp]:
  "untyped []"
  "untyped (v # vs) \<longleftrightarrow> vtype v = TYPE_NONE \<and> untyped vs"
  "untyped (vs @ ws) \<longleftrightarrow> untyped vs \<and> untyped ws"
  "untyped (replicate n zero_value)"
  by (auto simp: untyped_def zero_value_def)

lemma length_used: "message_wf m \<Longrightarrow> length (used m) = unat (capacity m)"
  by (simp add: used_def message_wf_def)

lemma message_args_used: "message_wf m \<Longrightarrow> message_args m = values_args (used m)"
  by (simp add: message_args_def used_wf used_def)

lemma used_msgid [simp]: "used (m\<lparr>msgid := x\<rparr>) = used m"
  by (simp add: used_def)

lemma values_set_used:
  assumes "message_wf m" and "i < unat (capacity m)"
  shows "\<exists>m'. values_set m i v = Some m' \<and> used m' = (used m)[i := v] \<and> message_wf m' \<and>
    capacity m' = capacity m \<and> msg_static m' = msg_static m \<and> msgid m' = msgid m"
  using assms by (auto simp: values_set_def used_def message_wf_def take_update_swap)

lemma values_get_used:
  "message_wf m \<Longrightarrow> i < unat (capacity m) \<Longrightarrow> values_get m i = Some (used m ! i)"
  by (auto simp: values_get_def used_def message_wf_def)

lemma values_args_untyped: "untyped ws \<Longrightarrow> values_args (vs @ ws) = values_args vs"
  by (induction vs) (simp_all add: values_args_none untyped_def)

section \<open>Growing\<close>

text \<open>
  A request for more values keeps the old ones and adds values without a type; any other
  outcome leaves the message as it was.
\<close>

lemma set_capacity_grows:
  assumes "message_wf m" and "\<not> msg_static m" and "capacity m < cap"
    and "unat cap * 24 < 2 ^ 64" and "alloc (cap * SIZEOF_VALUE)"
  shows "\<exists>m'. smp_message_set_capacity alloc (Some m) cap = Some (Inr (), Some m') \<and>
    message_wf m' \<and> capacity m' = cap \<and> msgid m' = msgid m \<and> \<not> msg_static m' \<and>
    used m' = used m @ replicate (unat (cap - capacity m)) zero_value"
proof -
  have "unat (cap - capacity m) = unat cap - unat (capacity m)"
    using assms(3) by (intro unat_sub) simp
  with assms show ?thesis
    by (auto simp: smp_message_set_capacity_def SIZEOF_VALUE_def used_def message_wf_def
        word_less_nat_alt)
qed

lemma build_room_grows:
  assumes "message_wf m" and "unat i = unat (capacity m)" and "\<not> msg_static m"
    and "unat i < 2 ^ 32" and "grants alloc (48 * (unat i + 1))"
  shows "\<exists>m' k. build_room alloc m i = Some (RoomOk m') \<and> message_wf m' \<and>
    unat i < unat (capacity m') \<and> unat (capacity m') < 2 * (unat i + 1) \<and>
    msgid m' = msgid m \<and> \<not> msg_static m' \<and> used m' = used m @ replicate k zero_value"
proof -
  have i: "i = capacity m" using assms(2) by (simp add: word_unat_eq_iff)
  have i1: "unat (i + 1) = unat i + 1" using assms(4) by (subst unat_add_size) simp_all
  from next_pow2_least [of "i + 1"] i1 assms(4) obtain k where
    k: "unat (next_pow2 (i + 1)) = 2 ^ k" "unat i + 1 \<le> 2 ^ k" "2 ^ k < 2 * (unat i + 1)"
    by auto
  let ?cap = "next_pow2 (i + 1)"
  have b: "unat ?cap * 24 < 2 ^ 64" using k assms(4) by simp
  have "unat (?cap * SIZEOF_VALUE) = unat ?cap * 24"
    using b by (simp add: SIZEOF_VALUE_def unat_word_ariths)
  then have "alloc (?cap * SIZEOF_VALUE)" using assms(5) k by (simp add: grants_def)
  moreover have "capacity m < ?cap" using k i by (simp add: word_less_nat_alt)
  ultimately obtain m' where "smp_message_set_capacity alloc (Some m) ?cap = Some (Inr (), Some m')"
    "message_wf m'" "capacity m' = ?cap" "msgid m' = msgid m" "\<not> msg_static m'"
    "used m' = used m @ replicate (unat (?cap - capacity m)) zero_value"
    using set_capacity_grows [OF assms(1,3) _ b] by blast
  with assms(3) i k show ?thesis
    by (auto simp: build_room_def smp_message_get_capacity_def)
qed

text \<open>What the head of the loop does when the message has or gets room for value \<open>i\<close>.\<close>

lemma build_room_ok:
  assumes "message_wf m" and "unat i \<le> unat (capacity m)"
    and "unat i < unat (capacity m) \<or> \<not> msg_static m \<and> grants alloc (48 * (unat i + 1))"
    and "unat i < 2 ^ 32"
  shows "\<exists>m' k. build_room alloc m i = Some (RoomOk m') \<and> message_wf m' \<and>
    unat i < unat (capacity m') \<and> capacity m \<le> capacity m' \<and>
    msgid m' = msgid m \<and> msg_static m' = msg_static m \<and> used m' = used m @ replicate k zero_value \<and>
    (unat i < unat (capacity m) \<longrightarrow> m' = m)"
proof (cases "unat i < unat (capacity m)")
  case True
  with assms(1) show ?thesis
    by (auto simp: build_room_def word_le_nat_alt intro: exI [of _ 0])
next
  case False
  with assms build_room_grows [of m i alloc] show ?thesis
    by (auto simp: word_le_nat_alt)
qed

section \<open>Parsing an encoding\<close>

lemma build_loop_one:
  assumes "message_wf m" and "used m = done @ free" and "unat i = length done"
    and "unat i < unat (capacity m) \<or> \<not> msg_static m \<and> grants alloc (48 * (unat i + 1))"
    and "unat i < 2 ^ 32" and a: "arg_wf a" "arg_fits a"
    and p: "ptr_add buffer off = Some (arg_wire bo a @ rest)"
    and len: "length (arg_wire bo a @ rest) \<le> PTRDIFF_MAX" "unat off + length (arg_wire bo a) \<le> unat sz"
  obtains m' k x fr where "build_loop bo alloc buffer sz off i m =
      build_loop bo alloc buffer sz (off + of_nat (length (arg_wire bo a))) (i + 1) m'"
    and "free @ replicate k zero_value = x # fr" and "used m' = done @ arg_value a rest # fr"
    and "message_wf m'" and "msgid m' = msgid m" and "msg_static m' = msg_static m"
    and "capacity m \<le> capacity m'" and "unat i < unat (capacity m) \<longrightarrow> capacity m' = capacity m"
proof -
  have off: "off < sz" using len(2) arg_wire_length [of bo a] by (simp add: word_less_nat_alt)
  then have szo: "unat (sz - off) = unat sz - unat off" by (intro unat_sub) simp
  have i: "unat i \<le> unat (capacity m)" using assms(1-3) length_used [of m] by simp
  obtain m1 k where room: "build_room alloc m i = Some (RoomOk m1)" and m1: "message_wf m1"
    "unat i < unat (capacity m1)" "capacity m \<le> capacity m1" "msgid m1 = msgid m"
    "msg_static m1 = msg_static m" "used m1 = used m @ replicate k zero_value"
    "unat i < unat (capacity m) \<longrightarrow> m1 = m"
    using build_room_ok [OF assms(1) i assms(4,5)] by blast
  have dec: "smp_message_decode_value bo (used m1 ! unat i) (arg_wire bo a @ rest) (sz - off)
    = Some (Inr (of_nat (length (arg_wire bo a))), arg_value a rest)"
    using a len szo by (intro decode_value_arg) simp_all
  obtain m2 where m2: "values_set m1 (unat i) (arg_value a rest) = Some m2"
    "used m2 = (used m1)[unat i := arg_value a rest]" "message_wf m2"
    "capacity m2 = capacity m1" "msg_static m2 = msg_static m1" "msgid m2 = msgid m1"
    using values_set_used m1 by blast
  have step: "build_loop bo alloc buffer sz off i m
    = build_loop bo alloc buffer sz (off + of_nat (length (arg_wire bo a))) (i + 1) m2"
    using off room p values_get_used [OF m1(1,2)] dec m2(1)
    by (subst build_loop.simps) (auto simp: word_gt_0)
  have eq: "used m1 = done @ free @ replicate k zero_value" using m1(6) assms(2) by simp
  moreover have "unat i < length (used m1)" using m1(1,2) by (simp add: length_used)
  ultimately obtain x fr where xfr: "free @ replicate k zero_value = x # fr"
    using assms(3) by (cases "free @ replicate k zero_value") auto
  then have "used m2 = done @ arg_value a rest # fr"
    using eq assms(3) by (simp add: m2(2) list_update_append)
  with step xfr m1 m2 that show thesis by simp
qed

lemma build_loop_args:
  assumes "message_wf m" and "used m = done @ free" and "unat i = length done"
    and "unat i + length as \<le> unat (capacity m) \<or>
      \<not> msg_static m \<and> grants alloc (48 * (unat i + length as))"
    and "unat i + length as \<le> 2 ^ 32"
    and "\<forall>a\<in>set as. arg_wf a \<and> arg_fits a"
    and "buffer = pre @ args_wire bo as @ post" and "length buffer \<le> PTRDIFF_MAX"
    and "length (pre @ args_wire bo as) \<le> unat sz" and "unat off = length pre"
  shows "\<exists>m' vs n off' i'. build_loop bo alloc buffer sz off i m
      = build_loop bo alloc buffer sz off' i' m' \<and>
    unat off' = length (pre @ args_wire bo as) \<and> unat i' = unat i + length as \<and>
    message_wf m' \<and> msgid m' = msgid m \<and> msg_static m' = msg_static m \<and>
    used m' = done @ vs @ drop (length as) (free @ replicate n zero_value) \<and>
    list_all2 (\<lambda>v a. value_arg v = Some a) vs as \<and>
    (unat i + length as \<le> unat (capacity m) \<longrightarrow> capacity m' = capacity m)"
  using assms
proof (induction as arbitrary: m "done" free i pre off)
  case Nil
  then show ?case by (intro exI [of _ m] exI [of _ "[]"] exI [of _ 0] exI [of _ off] exI [of _ i]) simp
next
  case (Cons a as)
  let ?rest = "args_wire bo as @ post" and ?off = "off + of_nat (length (arg_wire bo a))"
  let ?done = "done @ [arg_value a (args_wire bo as @ post)]"
  have p: "ptr_add buffer off = Some (arg_wire bo a @ ?rest)"
    using Cons.prems by (simp add: ptr_add_def)
  have len: "length (arg_wire bo a @ ?rest) \<le> PTRDIFF_MAX" "unat off + length (arg_wire bo a) \<le> unat sz"
    using Cons.prems(7-10) by simp_all
  have room: "unat i < unat (capacity m) \<or> \<not> msg_static m \<and> grants alloc (48 * (unat i + 1))"
    using Cons.prems(4) grants_mono by fastforce
  obtain m2 k x fr where m2: "build_loop bo alloc buffer sz off i m = build_loop bo alloc buffer sz ?off (i + 1) m2"
    "free @ replicate k zero_value = x # fr" "used m2 = done @ arg_value a ?rest # fr"
    "message_wf m2" "msgid m2 = msgid m" "msg_static m2 = msg_static m" "capacity m \<le> capacity m2"
    "unat i < unat (capacity m) \<longrightarrow> capacity m2 = capacity m"
    by (rule build_loop_one [OF Cons.prems(1-3) room _ _ _ p len]) (use Cons.prems(5,6) in simp_all)
  have i1: "unat (i + 1) = unat i + 1" using Cons.prems(5) by (subst unat_add_size) simp_all
  have o1: "unat ?off = unat off + length (arg_wire bo a)"
    using Cons.prems(7,8,10) by (subst unat_add_size) (simp_all add: PTRDIFF_MAX_def)
  have cap: "unat (i + 1) + length as \<le> unat (capacity m2) \<or>
    \<not> msg_static m2 \<and> grants alloc (48 * (unat (i + 1) + length as))"
    using Cons.prems(4) m2(7) by (auto simp: m2(6) i1 word_le_nat_alt)
  have "\<exists>m' vs n off' i'. build_loop bo alloc buffer sz ?off (i + 1) m2
      = build_loop bo alloc buffer sz off' i' m' \<and>
    unat off' = length ((pre @ arg_wire bo a) @ args_wire bo as) \<and> unat i' = unat (i + 1) + length as \<and>
    message_wf m' \<and> msgid m' = msgid m2 \<and> msg_static m' = msg_static m2 \<and>
    used m' = ?done @ vs @ drop (length as) (fr @ replicate n zero_value) \<and>
    list_all2 (\<lambda>v a. value_arg v = Some a) vs as \<and>
    (unat (i + 1) + length as \<le> unat (capacity m2) \<longrightarrow> capacity m' = capacity m2)"
    by (rule Cons.IH) (use Cons.prems cap m2(3,4) i1 o1 in simp_all)
  then obtain m' vs n off' i' where
    r: "build_loop bo alloc buffer sz ?off (i + 1) m2 = build_loop bo alloc buffer sz off' i' m'"
    "unat off' = length (pre @ args_wire bo (a # as))" "unat i' = unat i + length (a # as)"
    "message_wf m'" "msgid m' = msgid m2" "msg_static m' = msg_static m2"
    "used m' = done @ (arg_value a ?rest # vs) @ drop (length as) (fr @ replicate n zero_value)"
    "list_all2 (\<lambda>v a. value_arg v = Some a) vs as"
    "unat i + length (a # as) \<le> unat (capacity m2) \<longrightarrow> capacity m' = capacity m2"
    by (auto simp: i1)
  have "free @ replicate (k + n) zero_value = (x # fr) @ replicate n zero_value"
    by (simp add: replicate_add flip: m2(2))
  then have "drop (length (a # as)) (free @ replicate (k + n) zero_value) =
    drop (length as) (fr @ replicate n zero_value)" by simp
  moreover have "value_arg (arg_value a ?rest) = Some a"
    using Cons.prems by (intro value_arg_arg_value [where bo = bo]) simp_all
  ultimately show ?case using m2 r
    by (intro exI [of _ m'] exI [of _ "arg_value a ?rest # vs"] exI [of _ "k + n"]
        exI [of _ off'] exI [of _ i']) simp
qed

lemma args_wire_count: "2 * length as \<le> length (args_wire bo as)"
proof (induction as)
  case (Cons a as)
  then show ?case using arg_wire_length [of bo a] by simp
qed simp

lemma read_header:
  assumes "buffer = message_wire bo ident as @ post" and "length buffer \<le> PTRDIFF_MAX"
  shows "smp_read_uint32 bo buffer = Some ident"
    and "ptr_add buffer 4 = Some (object_bytes bo 4 (of_nat (length (args_wire bo as)) :: u32) @ args_wire bo as @ post)"
    and "smp_read_uint32 bo (object_bytes bo 4 (of_nat (length (args_wire bo as)) :: u32) @ args_wire bo as @ post)
      = Some (of_nat (length (args_wire bo as)))"
  using assms(2) unfolding assms(1) message_wire_def
  by (simp_all add: u32.rd_enc ptr_add_def)

text \<open>The parser on the encoding of a list of arguments is the loop over them.\<close>

lemma build_header:
  assumes "buffer = message_wire bo ident as @ post" and "length buffer \<le> PTRDIFF_MAX"
    and "length (args_wire bo as) < 2 ^ 32" and "unat sz = 8 + length (args_wire bo as)"
  shows "smp_message_build_from_buffer bo alloc (Some m) (Some buffer) sz =
    do {
      (ret, off, m2) \<leftarrow> build_loop bo alloc buffer sz 8 0 (m\<lparr>msgid := ident\<rparr>);
      case ret of
        Inl e \<Rightarrow> Some (Inl e, Some m2)
      | Inr _ \<Rightarrow> if sz - off > 0 then Some (Inl SMP_ERROR_TOO_BIG, Some m2) else Some (Inr (), Some m2)
    }"
proof -
  let ?n = "ucast (of_nat (length (args_wire bo as)) :: u32) :: size_t"
  have n: "unat ?n = length (args_wire bo as)"
    using assms(3) by (simp add: unat_of_nat take_bit_eq_mod)
  then have "unat (8 + ?n) = 8 + length (args_wire bo as)"
    using assms(3) by (subst unat_add_size) simp_all
  then have "\<not> sz < 8" "\<not> sz < 8 + ?n" using assms(4) by (simp_all add: word_less_nat_alt)
  then show ?thesis
    using read_header [OF assms(1,2)]
    by (simp add: smp_message_build_from_buffer_def MSG_HEADER_SIZE_def)
qed

lemma build_over_room:
  assumes "buffer = message_wire bo ident as @ post" and "length buffer \<le> PTRDIFF_MAX"
    and "length (args_wire bo as) < 2 ^ 32" and "unat sz = 8 + length (args_wire bo as)"
    and "message_wf m" and "\<forall>a\<in>set as. arg_wf a \<and> arg_fits a"
    and room: "length as \<le> unat (capacity m) \<or> \<not> msg_static m \<and> grants alloc (48 * length as)"
  shows "\<exists>m' vs k. smp_message_build_from_buffer bo alloc (Some m) (Some buffer) sz = Some (Inr (), Some m') \<and>
      message_wf m' \<and> msgid m' = ident \<and> msg_static m' = msg_static m \<and>
      used m' = vs @ drop (length as) (used m @ replicate k zero_value) \<and> list_all2 (\<lambda>v a. value_arg v = Some a) vs as \<and>
      (length as \<le> unat (capacity m) \<longrightarrow> capacity m' = capacity m)"
proof -
  let ?m = "m\<lparr>msgid := ident\<rparr>"
  define pre where "pre = object_bytes bo 4 ident @ object_bytes bo 4 (of_nat (length (args_wire bo as)) :: u32)"
  have wf: "message_wf ?m" using assms(5) by (simp add: message_wf_def)
  have count: "length as \<le> 2 ^ 32" using args_wire_count [of as bo] assms(3) by simp
  note hd = build_header [OF assms(1-4)]
  from build_loop_args [of ?m "[]" "used m" 0 as alloc buffer pre bo post sz 8]
  obtain m' vs k off' i' where
    loop: "build_loop bo alloc buffer sz 8 0 ?m = build_loop bo alloc buffer sz off' i' m'"
    "unat off' = 8 + length (args_wire bo as)"
    and m': "message_wf m'" "msgid m' = ident" "msg_static m' = msg_static m" 
      "used m' = vs @ drop (length as) (used m @ replicate k zero_value)" "list_all2 (\<lambda>v a. value_arg v = Some a) vs as"
      "length as \<le> unat (capacity m) \<longrightarrow> capacity m' = capacity m"
    using wf assms room count by (auto simp: pre_def message_wire_def)
  have "off' = sz" using loop(2) assms(4) by (simp add: word_unat_eq_iff)
  then have "build_loop bo alloc buffer sz 8 0 ?m = Some (Inr (), sz, m')"
    unfolding loop(1) by (subst build_loop.simps) simp
  with hd m' show ?thesis by auto
qed

lemma build_over_full:
  assumes "buffer = message_wire bo ident as @ post" and "length buffer \<le> PTRDIFF_MAX"
    and "length (args_wire bo as) < 2 ^ 32" and "unat sz = 8 + length (args_wire bo as)"
    and "message_wf m" and "\<forall>a\<in>set as. arg_wf a \<and> arg_fits a"
    and static: "msg_static m" and few: "unat (capacity m) < length as"
  shows "\<exists>m'. smp_message_build_from_buffer bo alloc (Some m) (Some buffer) sz
        = Some (Inl SMP_ERROR_TOO_BIG, Some m') \<and>
      message_wf m' \<and> msgid m' = ident \<and>
      list_all2 (\<lambda>v a. value_arg v = Some a) (used m') (take (unat (capacity m)) as)"
proof -
  let ?m = "m\<lparr>msgid := ident\<rparr>"
  define pre where "pre = object_bytes bo 4 ident @ object_bytes bo 4 (of_nat (length (args_wire bo as)) :: u32)"
  have wf: "message_wf ?m" using assms(5) by (simp add: message_wf_def)
  have count: "length as \<le> 2 ^ 32" using args_wire_count [of as bo] assms(3) by simp
  note hd = build_header [OF assms(1-4)]
  let ?c = "unat (capacity m)"
  have split: "args_wire bo as = args_wire bo (take ?c as) @ args_wire bo (drop ?c as)"
    by (simp flip: concat_append map_append add: args_wire_def)
  have "args_wire bo (drop ?c as) \<noteq> []" using few by (cases "drop ?c as") auto
  then have pos: "0 < length (args_wire bo (drop ?c as))" by simp
  have buf: "buffer = pre @ args_wire bo (take ?c as) @ args_wire bo (drop ?c as) @ post"
    using assms(1) by (simp add: pre_def message_wire_def flip: split)
  have ok: "\<forall>a\<in>set (take ?c as). arg_wf a \<and> arg_fits a" using assms(6) by (auto dest: in_set_takeD)
  have len: "length pre = 8" "length (take ?c as) = ?c" using few by (simp_all add: pre_def)
  have le: "length (pre @ args_wire bo (take ?c as)) \<le> unat sz" using assms(4) len by (simp add: split)
  from build_loop_args [of ?m "[]" "used m" 0 "take ?c as" alloc, OF wf _ _ _ _ ok buf assms(2) le, of 8]
  obtain m' vs k off' i' where
    loop: "build_loop bo alloc buffer sz 8 0 ?m = build_loop bo alloc buffer sz off' i' m'"
    "unat off' = 8 + length (args_wire bo (take ?c as))" "unat i' = ?c"
    and m': "message_wf m'" "msgid m' = ident" "msg_static m' = msg_static m" 
      "used m' = vs @ drop (length (take ?c as)) (used m @ replicate k zero_value)"
      "list_all2 (\<lambda>v a. value_arg v = Some a) vs (take ?c as)" "capacity m' = capacity m"
    using few count len by (auto simp del: length_take)
  from m'(6) have "length (used m') = ?c" using length_used [OF m'(1)] by simp
  moreover have "length vs = ?c" using list_all2_lengthD [OF m'(5)] few by simp
  ultimately have "used m' = vs" using m'(4) by simp
  have "off' < sz" using loop(2) assms(4) pos by (simp add: split word_less_nat_alt)
  moreover have "\<not> i' < capacity m'" using loop(3) m'(6) by (simp add: word_less_nat_alt)
  ultimately have "build_loop bo alloc buffer sz 8 0 ?m = Some (Inr (), off', m')"
    unfolding loop(1) using m'(3) static by (subst build_loop.simps) (auto simp: build_room_def)
  with hd m' \<open>used m' = vs\<close> \<open>off' < sz\<close> show ?thesis by (auto simp: word_gt_0)
qed

text \<open>Into a message that is empty.\<close>

lemma build_message:
  assumes "buffer = message_wire bo ident as @ post" and "length buffer \<le> PTRDIFF_MAX"
    and "length (args_wire bo as) < 2 ^ 32" and "unat sz = 8 + length (args_wire bo as)"
    and "message_wf m" and "untyped (used m)" and "\<forall>a\<in>set as. arg_wf a \<and> arg_fits a"
    and "length as \<le> unat (capacity m) \<or> \<not> msg_static m \<and> grants alloc (48 * length as)"
  shows "\<exists>m' vs free. smp_message_build_from_buffer bo alloc (Some m) (Some buffer) sz = Some (Inr (), Some m') \<and>
    message_wf m' \<and> msgid m' = ident \<and> msg_static m' = msg_static m \<and>
    used m' = vs @ free \<and> untyped free \<and> list_all2 (\<lambda>v a. value_arg v = Some a) vs as \<and>
    (length as \<le> unat (capacity m) \<longrightarrow> capacity m' = capacity m)"
proof -
  have "untyped (drop (length as) (used m @ replicate k zero_value))" for k
    using assms(6) by (auto simp: untyped_def zero_value_def dest: in_set_dropD)
  with build_over_room [OF assms(1-5,7,8)] show ?thesis by blast
qed

end
