(* ===== verification/Smp_Message_Access.thy ===== *)
theory Smp_Message_Access
  imports Smp_Message_Api Smp_Message_Parse
begin

text \<open>
  The accessors of a message: what setting and getting by index do to the list of values, and
  that a call with many arguments is the sequence of the calls with one.
\<close>

section \<open>Indices\<close>

lemma unat_scast_index: "\<not> negative i \<Longrightarrow> unat (scast i :: size_t) = unat i"
proof -
  assume "\<not> negative i"
  then have top: "\<not> bit i 31" using bit_last_iff [of i] by (simp add: negative_def)
  have "scast i = (ucast i :: size_t)"
  proof (rule bit_eqI)
    fix n
    show "bit (scast i :: size_t) n \<longleftrightarrow> bit (ucast i :: size_t) n"
    proof (cases "n < 31")
      case True
      then show ?thesis by (simp add: bit_simps min_def)
    next
      case False
      then have "\<not> bit i n" using top bit_imp_le_length [of i n] by (cases "n = 31") auto
      with False top show ?thesis by (simp add: bit_simps min_def)
    qed
  qed
  then show ?thesis by simp
qed

lemma negative_minus_one [simp]: "negative (- 1)"
  by (simp add: negative_def)

definition in_range :: "message \<Rightarrow> c_int \<Rightarrow> bool" where
  "in_range m i \<longleftrightarrow> \<not> negative i \<and> unat i < unat (capacity m)"

lemma in_range_iff: "\<not> negative i \<Longrightarrow> scast i \<ge> capacity m \<longleftrightarrow> \<not> in_range m i"
  by (auto simp: in_range_def word_le_nat_alt unat_scast_index)

section \<open>One value\<close>

lemma set_value_in_range:
  assumes "message_wf m" and "in_range m i"
  shows "\<exists>m'. smp_message_set_value (Some m) i (Some v) = Some (Inr (), Some m') \<and>
    used m' = (used m)[unat i := v] \<and> message_wf m' \<and> capacity m' = capacity m \<and>
    msg_static m' = msg_static m \<and> msgid m' = msgid m"
proof -
  have neg: "\<not> negative i" using assms(2) by (simp add: in_range_def)
  from assms(2) have "unat i < unat (capacity m)" by (simp add: in_range_def)
  from values_set_used [OF assms(1) this, of v] neg in_range_iff [OF neg, of m] assms(2) show ?thesis
    by (auto simp: smp_message_set_value_def)
qed

lemma get_value_in_range:
  assumes "message_wf m" and "in_range m i" and "vtype (used m ! unat i) \<noteq> TYPE_NONE"
  shows "smp_message_get_value (Some m) i = Some (Inr (used m ! unat i))"
proof -
  have neg: "\<not> negative i" using assms(2) by (simp add: in_range_def)
  with in_range_iff [OF neg, of m] assms values_get_used [OF assms(1), of "unat i"] show ?thesis
    by (simp add: smp_message_get_value_def in_range_def)
qed

section \<open>Argument lists\<close>

text \<open>An item of a list: the type and the arguments that follow it are taken whole.\<close>

lemma va_append:
  "va_int ap = Some (x, ap') \<Longrightarrow> va_int (ap @ rest) = Some (x, ap' @ rest)"
  "va_long ap = Some (y, ap') \<Longrightarrow> va_long (ap @ rest) = Some (y, ap' @ rest)"
  "va_double ap = Some (z, ap') \<Longrightarrow> va_double (ap @ rest) = Some (z, ap' @ rest)"
  "va_ptr ap = Some (p, ap') \<Longrightarrow> va_ptr (ap @ rest) = Some (p, ap' @ rest)"
  "va_out ap = Some (a, ap') \<Longrightarrow> va_out (ap @ rest) = Some (a, ap' @ rest)"
  by (auto elim!: va_int.elims va_long.elims va_double.elims va_ptr.elims va_out.elims)

lemma set_take_value_append:
  assumes "set_take_value ap = Some (v, ap')"
  shows "set_take_value (ap @ rest) = Some (v, ap' @ rest)"
proof -
  from assms obtain w ap0 where "va_int ap = Some (w, ap0)"
    by (auto simp: set_take_value_def bind_eq_Some_conv)
  with assms va_append show ?thesis
    by (cases "type_of_int w")
      (auto simp: set_take_value_def Let_def bind_eq_Some_conv)
qed

lemma set_one:
  assumes "set_take_value ap = Some (v, [VaInt (- 1)])"
  shows "smp_message_set msg i ap =
    (if msg = None then Some (Inl SMP_ERROR_INVALID_PARAM, None)
     else smp_message_set_value msg i (Some v))"
proof (cases "msg = None \<or> negative i")
  case True
  then show ?thesis
    by (auto simp: smp_message_set_def smp_message_set_valist_def smp_message_set_value_def
        split: option.splits)
next
  case False
  then have "smp_message_set msg i ap = set_valist_loop msg i ap"
    by (auto simp: smp_message_set_def smp_message_set_valist_def)
  also have "\<dots> = smp_message_set_value msg i (Some v)"
    by (subst set_valist_loop.simps, cases "smp_message_set_value msg i (Some v)")
      (simp_all add: assms split: prod.split sum.split)
  finally show ?thesis using False by auto
qed

lemma set_take_typed [simp]:
  "set_take_value (va_typed TYPE_UINT8 [VaInt a]) = Some (\<lparr>vtype = TYPE_UINT8, vval = UU8 (ucast a)\<rparr>, [VaInt (- 1)])"
  "set_take_value (va_typed TYPE_INT8 [VaInt a]) = Some (\<lparr>vtype = TYPE_INT8, vval = UI8 (ucast a)\<rparr>, [VaInt (- 1)])"
  "set_take_value (va_typed TYPE_UINT16 [VaInt a]) = Some (\<lparr>vtype = TYPE_UINT16, vval = UU16 (ucast a)\<rparr>, [VaInt (- 1)])"
  "set_take_value (va_typed TYPE_INT16 [VaInt a]) = Some (\<lparr>vtype = TYPE_INT16, vval = UI16 (ucast a)\<rparr>, [VaInt (- 1)])"
  "set_take_value (va_typed TYPE_UINT32 [VaInt a]) = Some (\<lparr>vtype = TYPE_UINT32, vval = UU32 a\<rparr>, [VaInt (- 1)])"
  "set_take_value (va_typed TYPE_INT32 [VaInt a]) = Some (\<lparr>vtype = TYPE_INT32, vval = UI32 a\<rparr>, [VaInt (- 1)])"
  "set_take_value (va_typed TYPE_UINT64 [VaLong b]) = Some (\<lparr>vtype = TYPE_UINT64, vval = UU64 b\<rparr>, [VaInt (- 1)])"
  "set_take_value (va_typed TYPE_INT64 [VaLong b]) = Some (\<lparr>vtype = TYPE_INT64, vval = UI64 b\<rparr>, [VaInt (- 1)])"
  "set_take_value (va_typed TYPE_F32 [VaDouble d]) = Some (\<lparr>vtype = TYPE_F32, vval = UF32 (double_to_float d)\<rparr>, [VaInt (- 1)])"
  "set_take_value (va_typed TYPE_F64 [VaDouble d]) = Some (\<lparr>vtype = TYPE_F64, vval = UF64 d\<rparr>, [VaInt (- 1)])"
  "set_take_value (va_typed TYPE_STRING [VaPtr p]) = Some (\<lparr>vtype = TYPE_STRING, vval = UCstring p\<rparr>, [VaInt (- 1)])"
  "set_take_value (va_typed TYPE_RAW [VaPtr p, VaLong n]) = Some (\<lparr>vtype = TYPE_RAW, vval = UCraw p n\<rparr>, [VaInt (- 1)])"
  by (simp_all add: set_take_value_def va_typed_def type_of_int_def)

text \<open>
  A call with many items is the call with the first one, then, if that succeeds, the call with
  the others.
\<close>

lemma set_cons:
  assumes "set_take_value ap = Some (v, [])" and "\<not> negative j"
  shows "smp_message_set msg i (ap @ VaInt j # rest) =
    (case smp_message_set msg i (ap @ [VaInt (- 1)]) of
       Some (Inr _, msg') \<Rightarrow> smp_message_set msg' j rest
     | r \<Rightarrow> r)"
proof -
  note tk = set_take_value_append [OF assms(1)]
  have one: "smp_message_set msg i (ap @ [VaInt (- 1)]) =
      (if msg = None then Some (Inl SMP_ERROR_INVALID_PARAM, None)
       else smp_message_set_value msg i (Some v))"
    using tk [of "[VaInt (- 1)]"] by (intro set_one) simp
  show ?thesis
  proof (cases "msg = None \<or> negative i")
    case True
    then have "smp_message_set msg i xs = Some (Inl SMP_ERROR_INVALID_PARAM, msg)" for xs
      by (auto simp: smp_message_set_def smp_message_set_valist_def)
    then show ?thesis by simp
  next
    case False
    then have "smp_message_set msg i (ap @ VaInt j # rest) = set_valist_loop msg i (ap @ VaInt j # rest)"
      by (auto simp: smp_message_set_def smp_message_set_valist_def)
    also have "\<dots> = (case smp_message_set_value msg i (Some v) of
        Some (Inr _, msg') \<Rightarrow> smp_message_set msg' j rest | r \<Rightarrow> r)"
    proof (cases "smp_message_set_value msg i (Some v)")
      case None
      then show ?thesis by (subst set_valist_loop.simps) (simp add: tk)
    next
      case (Some r)
      obtain ret msg' where r: "r = (ret, msg')" by (cases r)
      have "msg' \<noteq> None" using Some False
        by (auto simp: r smp_message_set_value_def bind_eq_Some_conv split: option.splits if_splits)
      then show ?thesis
        using Some assms(2) by (subst set_valist_loop.simps)
          (auto simp: tk r smp_message_set_def smp_message_set_valist_def split: sum.splits)
    qed
    finally show ?thesis using False one by auto
  qed
qed

text \<open>What an item of a getter leaves in the caller's memory does not depend on what follows it.\<close>

lemma get_put_value_append:
  assumes "length ps = (if t = TYPE_RAW then 2 else 1)"
  shows "get_put_value t v (map (VaOut \<circ> Some) ps @ rest) out =
    (case get_put_value t v (map (VaOut \<circ> Some) ps) out of
       Some (Inr _, out') \<Rightarrow> Some (Inr rest, out')
     | r \<Rightarrow> r)"
proof (cases "t = TYPE_RAW")
  case True
  with assms obtain a b where "ps = [a, b]" by (auto simp: numeral_2_eq_2 length_Suc_conv)
  with True show ?thesis
    by (cases "union_craw (vval v)") (auto simp: get_put_value_def)
next
  case False
  with assms obtain a where "ps = [a]" by (auto simp: length_Suc_conv)
  with False show ?thesis
    by (cases t) (auto simp: get_put_value_def split: bind_splits)
qed

lemma get_one:
  assumes "length ps = (if t = TYPE_RAW then 2 else 1)" and "type_of_int w = t"
    and "message_wf m" and "in_range m i" and "vtype (used m ! unat i) = t" and "t \<noteq> TYPE_NONE"
  shows "smp_message_get (Some m) i (VaInt w # map (VaOut \<circ> Some) ps @ [VaInt (- 1)]) out =
    (case get_put_value t (used m ! unat i) (map (VaOut \<circ> Some) ps) out of
       None \<Rightarrow> None
     | Some (Inl e, out') \<Rightarrow> Some (Inl e, out')
     | Some (Inr _, out') \<Rightarrow> Some (Inr (), out'))"
proof -
  have "\<not> negative i" using assms(4) by (simp add: in_range_def)
  then have "smp_message_get (Some m) i (VaInt w # map (VaOut \<circ> Some) ps @ [VaInt (- 1)]) out =
    get_valist_loop (Some m) i (VaInt w # map (VaOut \<circ> Some) ps @ [VaInt (- 1)]) out"
    by (simp add: smp_message_get_def smp_message_get_valist_def)
  also have "\<dots> = (case get_put_value t (used m ! unat i) (map (VaOut \<circ> Some) ps) out of
       None \<Rightarrow> None
     | Some (Inl e, out') \<Rightarrow> Some (Inl e, out')
     | Some (Inr _, out') \<Rightarrow> Some (Inr (), out'))"
    using assms get_value_in_range [OF assms(3,4)] get_put_value_append [OF assms(1), of "used m ! unat i" "[VaInt (- 1)]" out]
    by (subst get_valist_loop.simps) (auto split: option.splits sum.splits)
  finally show ?thesis .
qed

section \<open>Setting a whole message\<close>

text \<open>The promoted arguments of a call that sets one argument, a string being nul-terminated.\<close>

fun arg_va :: "arg \<Rightarrow> va_arg list" where
  "arg_va (AU8 x) = [VaInt (ucast x)]"
| "arg_va (AI8 x) = [VaInt (scast x)]"
| "arg_va (AU16 x) = [VaInt (ucast x)]"
| "arg_va (AI16 x) = [VaInt (scast x)]"
| "arg_va (AU32 x) = [VaInt x]"
| "arg_va (AI32 x) = [VaInt x]"
| "arg_va (AU64 x) = [VaLong x]"
| "arg_va (AI64 x) = [VaLong x]"
| "arg_va (AF32 x) = [VaDouble (float_to_double x)]"
| "arg_va (AF64 x) = [VaDouble x]"
| "arg_va (AStr s) = [VaPtr (Some (s @ [0]))]"
| "arg_va (ARaw s) = [VaPtr (Some s), VaLong (of_nat (length s))]"

definition arg_item :: "arg \<Rightarrow> va_arg list" where
  "arg_item a = VaInt (int_of_type (arg_type a)) # arg_va a"

text \<open>A \<open>float\<close> that is a signalling NaN does not survive the promotion to \<open>double\<close>.\<close>

fun arg_promotable :: "arg \<Rightarrow> bool" where
  "arg_promotable (AF32 x) \<longleftrightarrow> \<not> (f32_exp x = 255 \<and> 0 < f32_frac x \<and> f32_frac x < 2 ^ 22)"
| "arg_promotable _ \<longleftrightarrow> True"

lemma ucast_scast_u8: "ucast (ucast (x :: byte) :: u32) = x" "ucast (scast x :: u32) = x"
proof -
  show "ucast (ucast x :: u32) = x" by (rule bit_eqI) (simp add: bit_simps)
  show "ucast (scast x :: u32) = x"
  proof (rule bit_eqI)
    fix n
    assume "possible_bit TYPE(8 word) n"
    then show "bit (ucast (scast x :: u32) :: byte) n \<longleftrightarrow> bit x n"
      by (cases "n = 7") (simp_all add: bit_simps min_def)
  qed
qed

lemma ucast_scast_u16: "ucast (ucast (x :: u16) :: u32) = x" "ucast (scast x :: u32) = x"
proof -
  show "ucast (ucast x :: u32) = x" by (rule bit_eqI) (simp add: bit_simps)
  show "ucast (scast x :: u32) = x"
  proof (rule bit_eqI)
    fix n
    assume "possible_bit TYPE(16 word) n"
    then show "bit (ucast (scast x :: u32) :: u16) n \<longleftrightarrow> bit x n"
      by (cases "n = 15") (simp_all add: bit_simps min_def)
  qed
qed

lemmas ucast_scast_narrow = ucast_scast_u8 ucast_scast_u16

lemma set_take_item:
  "arg_promotable a \<Longrightarrow> set_take_value (arg_item a) = Some (arg_value a [], [])"
  by (cases a) (simp_all add: arg_item_def set_take_value_def type_of_int_def arg_value_def
      ucast_scast_narrow float_double_float)

text \<open>The argument list that sets the values from index \<open>k\<close> on, without the first index.\<close>

fun args_va :: "nat \<Rightarrow> arg list \<Rightarrow> va_arg list" where
  "args_va k [] = []"
| "args_va k [a] = arg_item a @ [VaInt (- 1)]"
| "args_va k (a # as) = arg_item a @ VaInt (of_nat (Suc k)) # args_va (Suc k) as"

lemma index_of_nat: "k < 2 ^ 31 \<Longrightarrow> unat (of_nat k :: c_int) = k \<and> \<not> negative (of_nat k)"
proof -
  assume k: "k < 2 ^ 31"
  then have u: "unat (of_nat k :: c_int) = k" by (simp add: unat_of_nat take_bit_eq_mod)
  have "\<not> bit (unat (of_nat k :: c_int)) 31" using k by (simp add: u bit_iff_odd)
  then have "\<not> bit (of_nat k :: c_int) 31" by (simp only: bit_unsigned_iff) simp
  then show ?thesis using u bit_last_iff [of "of_nat k :: c_int"] by (simp add: negative_def)
qed

lemma set_args:
  assumes "message_wf m" and "k + length as \<le> unat (capacity m)" and "k + length as \<le> 2 ^ 31"
    and "as \<noteq> []" and "\<forall>a\<in>set as. arg_promotable a"
  shows "\<exists>m'. smp_message_set (Some m) (of_nat k) (args_va k as) = Some (Inr (), Some m') \<and>
    used m' = take k (used m) @ map (\<lambda>a. arg_value a []) as @ drop (k + length as) (used m) \<and>
    message_wf m' \<and> capacity m' = capacity m \<and> msg_static m' = msg_static m \<and> msgid m' = msgid m"
  using assms
proof (induction k as arbitrary: m rule: args_va.induct)
  case (1 k)
  then show ?case by simp
next
  case (2 k a)
  then have r: "in_range m (of_nat k)" using index_of_nat [of k] by (simp add: in_range_def)
  have "set_take_value (arg_item a @ [VaInt (- 1)]) = Some (arg_value a [], [VaInt (- 1)])"
    using set_take_value_append [OF set_take_item] 2 by fastforce
  with set_one set_value_in_range [OF 2(1) r, of "arg_value a []"] index_of_nat [of k] 2 length_used [of m]
  show ?case by (auto simp: upd_conv_take_nth_drop)
next
  case (3 k a b as)
  then have k: "unat (of_nat k :: c_int) = k" "\<not> negative (of_nat k)"
    and k1: "\<not> negative (of_nat (Suc k))"
    using index_of_nat [of k] index_of_nat [of "Suc k"] by simp_all
  then have r: "in_range m (of_nat k)" using 3 by (simp add: in_range_def)
  have tk: "set_take_value (arg_item a) = Some (arg_value a [], [])"
    using 3 by (intro set_take_item) simp
  have "smp_message_set (Some m) (of_nat k) (arg_item a @ [VaInt (- 1)]) =
    smp_message_set_value (Some m) (of_nat k) (Some (arg_value a []))"
    using set_one [of _ "arg_value a []"] set_take_value_append [OF tk, of "[VaInt (- 1)]"] by simp
  with set_value_in_range [OF 3(2) r, of "arg_value a []"] k obtain m1 where
    m1: "smp_message_set (Some m) (of_nat k) (arg_item a @ [VaInt (- 1)]) = Some (Inr (), Some m1)"
      "used m1 = (used m)[k := arg_value a []]" "message_wf m1" "capacity m1 = capacity m"
      "msg_static m1 = msg_static m" "msgid m1 = msgid m"
    by auto
  from 3(1) [of m1] 3 m1 obtain m' where
    m': "smp_message_set (Some m1) (of_nat (Suc k)) (args_va (Suc k) (b # as)) = Some (Inr (), Some m')"
      "used m' = take (Suc k) (used m1) @ map (\<lambda>a. arg_value a []) (b # as) @ drop (Suc k + length (b # as)) (used m1)"
      "message_wf m'" "capacity m' = capacity m1" "msg_static m' = msg_static m1" "msgid m' = msgid m1"
    by auto
  have "k < length (used m)" using length_used [OF 3(2)] 3(3) by simp
  then have "take (Suc k) (used m1) = take k (used m) @ [arg_value a []]"
    by (simp add: m1(2) take_Suc_conv_app_nth)
  then show ?case
    using set_cons [OF tk k1, of "Some m" "of_nat k" "args_va (Suc k) (b # as)"] m1 m' by simp
qed

end
