(* ===== verification/Smp_Message_Api_Spec.thy ===== *)
theory Smp_Message_Api_Spec
  imports Smp_Message_Access
begin

text \<open>
  The properties of the accessors of \<open>src/message.c\<close>, each with an instance at a concrete
  input.
\<close>

definition three_values :: message where
  "three_values =
     \<lparr>msgid = 7, msg_values = [zero_value, \<lparr>vtype = TYPE_INT8, vval = UI8 5\<rparr>, zero_value],
      capacity = 3, msg_static = True\<rparr>"

lemma three_values_facts: "message_wf three_values" "in_range three_values 1" "in_range three_values 0"
  "capacity three_values = 3" "used three_values ! Suc 0 = \<lparr>vtype = TYPE_INT8, vval = UI8 5\<rparr>"
  by (simp_all add: three_values_def message_wf_def in_range_def negative_def used_def)

lemma get_typed:
  assumes "message_wf m" and "in_range m i" and "vtype (used m ! unat i) = t"
    and "type_of_int (int_of_type t) = t" and "t \<noteq> TYPE_NONE" and "t \<noteq> TYPE_RAW"
  shows "smp_message_get (Some m) i (va_typed t [VaOut (Some p)]) out =
    (case get_put_value t (used m ! unat i) [VaOut (Some p)] out of
       None \<Rightarrow> None
     | Some (Inl e, out') \<Rightarrow> Some (Inl e, out')
     | Some (Inr _, out') \<Rightarrow> Some (Inr (), out'))"
  using get_one [of "[p]" t "int_of_type t" m i out] assms by (simp add: va_typed_def)

text \<open>A set followed by a get at the same index, from what each does to its argument list.\<close>

lemma set_get:
  assumes "message_wf m" and "in_range m i"
    and tk: "set_take_value (va_typed t xs) = Some (v, [VaInt (- 1)])"
    and t: "vtype v = t" "type_of_int (int_of_type t) = t" "t \<noteq> TYPE_NONE"
      "length ps = (if t = TYPE_RAW then 2 else 1)"
    and put: "get_put_value t v (map (VaOut \<circ> Some) ps) out = Some (Inr [], out')"
  shows "\<exists>m'. smp_message_set (Some m) i (va_typed t xs) = Some (Inr (), Some m') \<and>
    smp_message_get (Some m') i (va_typed t (map (VaOut \<circ> Some) ps)) out = Some (Inr (), out')"
proof -
  from set_value_in_range [OF assms(1,2), of v] obtain m' where
    m': "smp_message_set_value (Some m) i (Some v) = Some (Inr (), Some m')"
      "used m' = (used m)[unat i := v]" "message_wf m'" "capacity m' = capacity m"
    by blast
  have r: "in_range m' i" using assms(2) by (simp add: in_range_def m'(4))
  have "unat i < length (used m)"
    using assms(1,2) length_used by (simp add: in_range_def)
  then have v: "used m' ! unat i = v" by (simp add: m'(2))
  have "smp_message_set (Some m) i (va_typed t xs) = Some (Inr (), Some m')"
    using set_one [OF tk] m'(1) by simp
  moreover have "smp_message_get (Some m') i (va_typed t (map (VaOut \<circ> Some) ps)) out = Some (Inr (), out')"
    using get_one [OF t(4,2) m'(3) r, of out] t put v by (simp add: va_typed_def)
  ultimately show ?thesis by blast
qed

lemmas typed_accessors =
  smp_message_set_uint8_def smp_message_get_uint8_def smp_message_set_int8_def smp_message_get_int8_def
  smp_message_set_uint16_def smp_message_get_uint16_def smp_message_set_int16_def smp_message_get_int16_def
  smp_message_set_uint32_def smp_message_get_uint32_def smp_message_set_int32_def smp_message_get_int32_def
  smp_message_set_uint64_def smp_message_get_uint64_def smp_message_set_int64_def smp_message_get_int64_def
  smp_message_set_float_def smp_message_get_float_def smp_message_set_double_def smp_message_get_double_def
  smp_message_set_cstring_def smp_message_get_cstring_def smp_message_set_craw_def smp_message_get_craw_def

text \<open>
  C32: Whatever a typed setter stores at an index within the capacity, the getter of the same type
  reads back at that index into the location it is given, for every type of the library. A float
  comes back bit for bit unless it is a signalling NaN.
\<close>

theorem typed_set_get:
  assumes "message_wf m" and "in_range m i"
  shows "(\<exists>m'. smp_message_set_uint8 (Some m) i u8 = Some (Inr (), Some m') \<and>
      smp_message_get_uint8 (Some m') i (Some p) out = Some (Inr (), out(p \<mapsto> OutU8 u8))) \<and>
    (\<exists>m'. smp_message_set_int8 (Some m) i u8 = Some (Inr (), Some m') \<and>
      smp_message_get_int8 (Some m') i (Some p) out = Some (Inr (), out(p \<mapsto> OutI8 u8))) \<and>
    (\<exists>m'. smp_message_set_uint16 (Some m) i u16 = Some (Inr (), Some m') \<and>
      smp_message_get_uint16 (Some m') i (Some p) out = Some (Inr (), out(p \<mapsto> OutU16 u16))) \<and>
    (\<exists>m'. smp_message_set_int16 (Some m) i u16 = Some (Inr (), Some m') \<and>
      smp_message_get_int16 (Some m') i (Some p) out = Some (Inr (), out(p \<mapsto> OutI16 u16))) \<and>
    (\<exists>m'. smp_message_set_uint32 (Some m) i u32 = Some (Inr (), Some m') \<and>
      smp_message_get_uint32 (Some m') i (Some p) out = Some (Inr (), out(p \<mapsto> OutU32 u32))) \<and>
    (\<exists>m'. smp_message_set_int32 (Some m) i u32 = Some (Inr (), Some m') \<and>
      smp_message_get_int32 (Some m') i (Some p) out = Some (Inr (), out(p \<mapsto> OutI32 u32))) \<and>
    (\<exists>m'. smp_message_set_uint64 (Some m) i u64 = Some (Inr (), Some m') \<and>
      smp_message_get_uint64 (Some m') i (Some p) out = Some (Inr (), out(p \<mapsto> OutU64 u64))) \<and>
    (\<exists>m'. smp_message_set_int64 (Some m) i u64 = Some (Inr (), Some m') \<and>
      smp_message_get_int64 (Some m') i (Some p) out = Some (Inr (), out(p \<mapsto> OutI64 u64))) \<and>
    (\<exists>m'. smp_message_set_double (Some m) i u64 = Some (Inr (), Some m') \<and>
      smp_message_get_double (Some m') i (Some p) out = Some (Inr (), out(p \<mapsto> OutF64 u64))) \<and>
    (\<exists>m'. smp_message_set_cstring (Some m) i str = Some (Inr (), Some m') \<and>
      smp_message_get_cstring (Some m') i (Some p) out = Some (Inr (), out(p \<mapsto> OutStr str))) \<and>
    (\<not> (f32_exp f = 255 \<and> 0 < f32_frac f \<and> f32_frac f < 2 ^ 22) \<longrightarrow>
      (\<exists>m'. smp_message_set_float (Some m) i f = Some (Inr (), Some m') \<and>
        smp_message_get_float (Some m') i (Some p) out = Some (Inr (), out(p \<mapsto> OutF32 f)))) \<and>
    (\<exists>m'. smp_message_set_craw (Some m) i str n = Some (Inr (), Some m') \<and>
      smp_message_get_craw (Some m') i (Some p) (Some q) out
        = Some (Inr (), out(p \<mapsto> OutRaw str, q \<mapsto> OutSize n)))"
proof -
  note one = set_take_typed(1-11) [THEN set_get [OF assms, where ps = "[p]"], simplified]
    and raw = set_get [OF assms set_take_typed(12), where ps = "[p, q]", simplified]
  show ?thesis
    unfolding typed_accessors
    by (intro conjI impI; (rule one | rule raw);
        simp add: get_put_value_def type_of_int_def ucast_scast_narrow float_double_float)
qed

theorem typed_set_get_witness:
  "\<exists>m'. smp_message_set_int16 (Some three_values) 1 (- 2) = Some (Inr (), Some m') \<and>
    smp_message_get_int16 (Some m') 1 (Some 40) (\<lambda>_. None) = Some (Inr (), [40 \<mapsto> OutI16 (- 2)])"
  using typed_set_get [OF three_values_facts(1,2), of 0 40 "\<lambda>_. None" "- 2"] by blast

text \<open>
  Setting the value at an index changes what is read at that index and at no other one, and
  a value without a type reads as no value.
\<close>

theorem set_value_get_value:
  assumes "message_wf m" and "smp_message_set_value (Some m) i (Some v) = Some (Inr (), Some m')"
  shows "smp_message_get_value (Some m') j =
    (if j \<noteq> i then smp_message_get_value (Some m) j
     else if vtype v = TYPE_NONE then Some (Inl SMP_ERROR_NOT_FOUND) else Some (Inr v))"
proof -
  have neg: "\<not> negative i" using assms(2) by (auto simp: smp_message_set_value_def split: if_splits)
  with assms(2) have lt: "in_range m i"
    using in_range_iff [OF neg, of m] by (auto simp: smp_message_set_value_def split: if_splits)
  with neg assms(2) have m': "m' = m\<lparr>msg_values := (msg_values m)[unat i := v]\<rparr>"
      "unat i < length (msg_values m)"
    by (auto simp: smp_message_set_value_def values_set_def bind_eq_Some_conv split: if_splits)
  have "unat j \<noteq> unat i" if "j \<noteq> i" using that by (simp add: word_unat_eq_iff)
  with m' neg in_range_iff [OF neg, of m] lt show ?thesis
    by (cases "j = i") (simp_all add: smp_message_get_value_def values_get_def)
qed

theorem set_value_get_value_witness:
  "\<exists>m'. smp_message_set_value (Some three_values) 0 (Some \<lparr>vtype = TYPE_UINT8, vval = UU8 1\<rparr>)
      = Some (Inr (), Some m') \<and>
    smp_message_get_value (Some m') 1 = Some (Inr \<lparr>vtype = TYPE_INT8, vval = UI8 5\<rparr>)"
proof -
  obtain m' where m': "smp_message_set_value (Some three_values) 0 (Some \<lparr>vtype = TYPE_UINT8, vval = UU8 1\<rparr>)
      = Some (Inr (), Some m')"
    using set_value_in_range [OF three_values_facts(1,3)] by blast
  have "smp_message_get_value (Some three_values) 1 = Some (Inr \<lparr>vtype = TYPE_INT8, vval = UI8 5\<rparr>)"
    using get_value_in_range [OF three_values_facts(1,2)] by (simp add: three_values_facts)
  with set_value_get_value [OF three_values_facts(1) m', of 1] m' show ?thesis by simp
qed

text \<open>
  C33: Reading a value as another type than its own is an error that writes nothing to the
  caller's memory, whatever arguments follow.
\<close>

theorem get_wrong_type:
  assumes "smp_message_get_value (Some m) i = Some (Inr v)" and "type_of_int w \<noteq> vtype v"
  shows "smp_message_get (Some m) i (VaInt w # ap) out = Some (Inl SMP_ERROR_BAD_TYPE, out)"
proof -
  have "\<not> negative i" using assms(1) by (auto simp: smp_message_get_value_def)
  then have "smp_message_get (Some m) i (VaInt w # ap) out = get_valist_loop (Some m) i (VaInt w # ap) out"
    by (simp add: smp_message_get_def smp_message_get_valist_def)
  also have "\<dots> = Some (Inl SMP_ERROR_BAD_TYPE, out)"
    using assms by (subst get_valist_loop.simps) simp
  finally show ?thesis .
qed

theorem get_wrong_type_witness:
  "smp_message_get_uint8 (Some three_values) 1 (Some 40) (\<lambda>_. None) = Some (Inl SMP_ERROR_BAD_TYPE, \<lambda>_. None)"
  using get_wrong_type [of three_values 1 "\<lparr>vtype = TYPE_INT8, vval = UI8 5\<rparr>" 1 "[VaOut (Some 40), VaInt (- 1)]" "\<lambda>_. None"]
    get_value_in_range [OF three_values_facts(1,2)]
  by (simp add: three_values_facts smp_message_get_uint8_def va_typed_def type_of_int_def)

text \<open>
  A call that sets many arguments is the sequence of the calls that set one: the first one,
  then, when it succeeds, the call with the rest of the list on the message it leaves.
\<close>

theorem set_valist_sequence:
  assumes "set_take_value ap = Some (v, [])" and "\<not> negative j"
  shows "smp_message_set msg i (ap @ VaInt j # rest) =
    (case smp_message_set msg i (ap @ [VaInt (- 1)]) of
       Some (Inr _, msg') \<Rightarrow> smp_message_set msg' j rest
     | r \<Rightarrow> r)"
  using assms by (rule set_cons)

theorem set_valist_sequence_witness:
  "smp_message_set (Some three_values) 0
      [VaInt 1, VaInt 17, VaInt 5, VaInt 1, VaInt 9, VaInt (- 1)] =
    (case smp_message_set (Some three_values) 0 [VaInt 1, VaInt 17, VaInt (- 1)] of
       Some (Inr _, msg') \<Rightarrow> smp_message_set msg' 5 [VaInt 1, VaInt 9, VaInt (- 1)]
     | r \<Rightarrow> r)"
  using set_valist_sequence [of "[VaInt 1, VaInt 17]" _ 5 "Some three_values" 0 "[VaInt 1, VaInt 9, VaInt (- 1)]"]
  by (simp add: set_take_value_def type_of_int_def negative_def)

text \<open>
  A call that gets many arguments is the sequence of the calls that get one, each writing to
  the memory the one before left.
\<close>

theorem get_valist_sequence:
  assumes "length ps = (if t = TYPE_RAW then 2 else 1)" and "type_of_int w = t" and "\<not> negative j"
  shows "smp_message_get msg i (VaInt w # map (VaOut \<circ> Some) ps @ VaInt j # rest) out =
    (case smp_message_get msg i (VaInt w # map (VaOut \<circ> Some) ps @ [VaInt (- 1)]) out of
       Some (Inr _, out') \<Rightarrow> smp_message_get msg j rest out'
     | r \<Rightarrow> r)"
proof (cases "msg = None \<or> negative i")
  case True
  then have "smp_message_get msg i xs out = Some (Inl SMP_ERROR_INVALID_PARAM, out)" for xs
    by (auto simp: smp_message_get_def smp_message_get_valist_def)
  then show ?thesis by simp
next
  case False
  then have loop: "smp_message_get msg i xs out = get_valist_loop msg i xs out" for xs
    by (auto simp: smp_message_get_def smp_message_get_valist_def)
  have rest: "smp_message_get msg j rest out' = get_valist_loop msg j rest out'" for out'
    using False assms(3) by (auto simp: smp_message_get_def smp_message_get_valist_def)
  show ?thesis
  proof (cases "smp_message_get_value msg i")
    case None
    then show ?thesis unfolding loop by (subst (1 2) get_valist_loop.simps) simp
  next
    case (Some r)
    show ?thesis
    proof (cases r)
      case (Inl e)
      with Some show ?thesis unfolding loop by (subst (1 2) get_valist_loop.simps) simp
    next
      case (Inr v)
      define r where "r = get_put_value t v (map (VaOut \<circ> Some) ps) out"
      have "get_put_value t v (map (VaOut \<circ> Some) ps @ xs) out =
        (case r of Some (Inr _, out') \<Rightarrow> Some (Inr xs, out') | r \<Rightarrow> r)" for xs
        unfolding r_def by (rule get_put_value_append [OF assms(1)])
      then show ?thesis
        using Some Inr assms(2,3) unfolding loop rest
        by (subst (1 2) get_valist_loop.simps, cases r) (auto split: sum.split)
    qed
  qed
qed

theorem get_valist_sequence_witness:
  "smp_message_get (Some three_values) 1
      [VaInt 2, VaOut (Some 40), VaInt 0, VaInt 1, VaOut (Some 48), VaInt (- 1)] (\<lambda>_. None) =
    (case smp_message_get (Some three_values) 1 [VaInt 2, VaOut (Some 40), VaInt (- 1)] (\<lambda>_. None) of
       Some (Inr _, out') \<Rightarrow> smp_message_get (Some three_values) 0 [VaInt 1, VaOut (Some 48), VaInt (- 1)] out'
     | r \<Rightarrow> r)"
  using get_valist_sequence [of "[40]" TYPE_INT8 2 0 "Some three_values" 1 "[VaInt 1, VaOut (Some 48), VaInt (- 1)]"]
  by (simp add: type_of_int_def negative_def)

lemma set_args_message:
  assumes "message_wf m" and "untyped (used m)" and "length as \<le> unat (capacity m)"
    and "length as \<le> 2 ^ 31" and "as \<noteq> []" and "\<forall>a\<in>set as. arg_promotable a"
    and "\<forall>a\<in>set as. arg_wf a \<and> arg_fits a"
  obtains m' where "smp_message_set (Some m) 0 (args_va 0 as) = Some (Inr (), Some m')"
    "message_wf m'" "message_args m' = Some as" "msgid m' = msgid m"
proof -
  from set_args [of m 0 as] assms obtain m' where
    m': "smp_message_set (Some m) 0 (args_va 0 as) = Some (Inr (), Some m')"
      "used m' = map (\<lambda>a. arg_value a []) as @ drop (length as) (used m)" "message_wf m'" "msgid m' = msgid m"
    by auto
  have "value_arg (arg_value a []) = Some a" if "a \<in> set as" for a
  proof (rule value_arg_arg_value [where bo = LittleEndian])
    show "length (arg_wire LittleEndian a @ []) \<le> PTRDIFF_MAX"
      using assms(7) that by (cases a) (auto simp: arg_wire_def PTRDIFF_MAX_def)
  qed (use assms(7) that in auto)
  then have "list_all2 (\<lambda>v a. value_arg v = Some a) (map (\<lambda>a. arg_value a []) as) as"
    by (simp add: list_all2_map1 list.rel_refl_strong)
  then have "values_args (map (\<lambda>a. arg_value a []) as) = Some as" by (rule values_args_all)
  moreover have "untyped (drop (length as) (used m))"
    using assms(2) by (auto simp: untyped_def dest: in_set_dropD)
  ultimately have "message_args m' = Some as"
    using m' by (simp add: message_args_used values_args_untyped)
  with m' that show thesis by blast
qed

text \<open>
  One call that sets the arguments from index 0 on an empty message with room for them
  makes it the message with exactly these arguments.
\<close>

theorem set_builds_message:
  assumes "message_wf m" and "untyped (used m)" and "length as \<le> unat (capacity m)"
    and "length as \<le> 2 ^ 31" and "as \<noteq> []" and "\<forall>a\<in>set as. arg_promotable a"
    and "\<forall>a\<in>set as. arg_wf a \<and> arg_fits a"
  shows "\<exists>m'. smp_message_set (Some m) 0 (args_va 0 as) = Some (Inr (), Some m') \<and>
    message_args m' = Some as \<and> msgid m' = msgid m"
  using set_args_message [OF assms] by blast

theorem set_builds_message_witness:
  "\<exists>m'. smp_message_set (Some \<lparr>msgid = 3, msg_values = [zero_value, zero_value], capacity = 2, msg_static = True\<rparr>)
      0 [VaInt 4, VaInt (- 5), VaInt 1, VaInt 9, VaPtr (Some [104, 105, 0]), VaInt (- 1)]
      = Some (Inr (), Some m') \<and>
    message_args m' = Some [AI16 (- 5), AStr [104, 105]] \<and> msgid m' = 3"
  using set_builds_message [of "\<lparr>msgid = 3, msg_values = [zero_value, zero_value], capacity = 2, msg_static = True\<rparr>"
      "[AI16 (- 5), AStr [104, 105]]"]
  by (simp add: message_wf_def used_def zero_value_def arg_item_def)

text \<open>
  The number of arguments of a message is the length of the run of typed values at its
  start: all indices below it can be read, and the next one cannot.
\<close>

theorem n_args_counts:
  assumes "message_wf m" and "unat (capacity m) < 2 ^ 31"
    and "smp_message_n_args (Some m) = Some (Inr n)"
  shows "(\<forall>i. \<not> negative i \<and> unat i < unat n \<longrightarrow> (\<exists>v. smp_message_get_value (Some m) i = Some (Inr v))) \<and>
    smp_message_get_value (Some m) (of_nat (unat n)) = Some (Inl SMP_ERROR_NOT_FOUND)"
proof -
  let ?run = "takeWhile (\<lambda>v. vtype v \<noteq> TYPE_NONE) (used m)"
  have le: "length ?run \<le> unat (capacity m)"
    using length_takeWhile_le [of _ "used m"] length_used [OF assms(1)] by metis
  then have "unat (of_nat (length ?run) :: size_t) = length ?run" using assms(2) by simp
  with assms have n: "unat n = length ?run"
    by (auto simp: smp_message_n_args_def used_wf used_def Let_def split: if_splits)
  have "smp_message_get_value (Some m) i = Some (Inr (used m ! unat i))"
    if "\<not> negative i" "unat i < unat n" for i
  proof -
    have "?run ! unat i \<in> set ?run" using that n by simp
    then have "vtype (used m ! unat i) \<noteq> TYPE_NONE"
      using that n by (auto simp: takeWhile_nth dest: set_takeWhileD)
    with that n le show ?thesis
      by (intro get_value_in_range [OF assms(1)]) (simp_all add: in_range_def)
  qed
  moreover have "smp_message_get_value (Some m) (of_nat (unat n)) = Some (Inl SMP_ERROR_NOT_FOUND)"
  proof -
    have i: "unat (of_nat (unat n) :: c_int) = unat n" "\<not> negative (of_nat (unat n))"
      using index_of_nat [of "unat n"] n le assms(2) by simp_all
    show ?thesis
    proof (cases "unat n < unat (capacity m)")
      case True
      then have "length ?run < length (used m)" using n length_used [OF assms(1)] by simp
      then have "vtype (used m ! unat n) = TYPE_NONE" using nth_length_takeWhile n by fastforce
      with True i in_range_iff [OF i(2), of m] values_get_used [OF assms(1) True] show ?thesis
        by (simp add: smp_message_get_value_def in_range_def)
    next
      case False
      with i in_range_iff [OF i(2), of m] show ?thesis
        by (simp add: smp_message_get_value_def in_range_def)
    qed
  qed
  ultimately show ?thesis by blast
qed

theorem n_args_counts_witness:
  "smp_message_n_args (Some (three_values\<lparr>msg_values := drop 1 (msg_values three_values), capacity := 2\<rparr>))
     = Some (Inr 1) \<and>
   smp_message_get_value (Some (three_values\<lparr>msg_values := drop 1 (msg_values three_values), capacity := 2\<rparr>)) 1
     = Some (Inl SMP_ERROR_NOT_FOUND)"
proof -
  let ?m = "three_values\<lparr>msg_values := drop 1 (msg_values three_values), capacity := 2\<rparr>"
  have n: "smp_message_n_args (Some ?m) = Some (Inr 1)"
    by (simp add: smp_message_n_args_def values_used_def three_values_def zero_value_def INT_MAX_def)
  from n_args_counts [OF _ _ this] n show ?thesis
    by (simp add: three_values_def message_wf_def)
qed

end
