(* ===== verification/Smp_Message_Safety.thy ===== *)
theory Smp_Message_Safety
  imports Smp_Message_Parse
begin

text \<open>
  The parser of \<open>src/message.c\<close> on arbitrary bytes. It stays inside the buffer unless it arrives at
  an argument that is a string whose size field is zero and after which no nul byte comes: the
  check for the final nul byte of such a string looks at the size field itself.
\<close>

section \<open>The arguments of a frame\<close>

text \<open>
  The bytes of the argument at the start of \<open>p\<close>, the rest of the frame, when it is accepted. A
  string that does not end, inside the frame, with a nul byte is taken as a null pointer, of which
  the parser skips the size field and one byte more; any other is skipped up to its first nul byte.
  Of raw bytes that do not fit only the size field is skipped.
\<close>

definition string_span :: "byte_order \<Rightarrow> byte list \<Rightarrow> nat option" where
  "string_span bo q =
     (case smp_read_uint16 bo q of
        None \<Rightarrow> None
      | Some w \<Rightarrow>
          if length q < 3 then None
          else if unat w + 2 \<le> length q \<and> q ! (unat w + 1) = 0
          then Some (3 + length (takeWhile (\<lambda>b. b \<noteq> 0) (drop 2 q)))
          else Some 3)"

definition raw_span :: "byte_order \<Rightarrow> byte list \<Rightarrow> nat option" where
  "raw_span bo q =
     (case smp_read_uint16 bo q of
        None \<Rightarrow> None
      | Some w \<Rightarrow> Some (if unat w + 2 \<le> length q then 2 + unat w else 2))"

definition fixed_span :: "smp_type \<Rightarrow> byte list \<Rightarrow> nat option" where
  "fixed_span ty q =
     (let n = unat (smp_type_size ty) in if 0 < n \<and> n \<le> length q then Some n else None)"

fun argument_span :: "byte_order \<Rightarrow> byte list \<Rightarrow> nat option" where
  "argument_span bo [] = None"
| "argument_span bo (t # q) =
     (let ty = type_of_int (ucast t) in
      map_option Suc
        (if ty = TYPE_STRING then string_span bo q
         else if ty = TYPE_RAW then raw_span bo q
         else fixed_span ty q))"

lemma argument_span_pos: "argument_span bo p = Some n \<Longrightarrow> 0 < n \<and> p \<noteq> []"
  by (cases p) (auto simp: Let_def)

text \<open>A string of size zero with no nul byte after it, and whether the parser arrives at one.\<close>

definition unterminated_empty :: "byte list \<Rightarrow> bool" where
  "unterminated_empty p \<longleftrightarrow> take 3 p = [9, 0, 0] \<and> 3 < length p \<and> 0 \<notin> set (drop 3 p)"

function reaches_unterminated :: "byte_order \<Rightarrow> byte list \<Rightarrow> bool" where
  "reaches_unterminated bo p \<longleftrightarrow> unterminated_empty p \<or>
     (case argument_span bo p of None \<Rightarrow> False | Some n \<Rightarrow> reaches_unterminated bo (drop n p))"
  by auto

termination
  by (relation "measure (\<lambda>(bo, p). length p)") (use argument_span_pos in fastforce)+

declare reaches_unterminated.simps [simp del]

lemma reaches_unterminated_step:
  assumes "\<not> reaches_unterminated bo p"
  shows "\<not> unterminated_empty p"
    and "argument_span bo p = Some n \<Longrightarrow> \<not> reaches_unterminated bo (drop n p)"
  using assms by (subst (asm) reaches_unterminated.simps; simp)+

text \<open>Only the bytes of the frame count.\<close>

lemma read_uint16_take: "2 \<le> k \<Longrightarrow> smp_read_uint16 bo (take k q) = smp_read_uint16 bo q"
  by (simp add: smp_read_uint16_def mem_read_def)

lemma takeWhile_take_nul:
  assumes "j < k" and "j < length s" and "s ! j = 0"
  shows "takeWhile (\<lambda>b. b \<noteq> 0) (take k s) = takeWhile (\<lambda>b. b \<noteq> (0 :: byte)) s"
proof -
  have "take k s ! j = 0" "j < length (take k s)" using assms by simp_all
  then have "0 \<in> set (take k s)" by (metis nth_mem)
  then have "takeWhile (\<lambda>b. b \<noteq> 0) (take k s @ drop k s) = takeWhile (\<lambda>b. b \<noteq> 0) (take k s)"
    by (intro takeWhile_append1) auto
  then show ?thesis by simp
qed

lemma bytes_word_zero:
  assumes "bytes_word bs = (0 :: 'a::len word)" and "LENGTH('a) = 8 * length bs"
  shows "\<forall>b\<in>set bs. b = 0"
proof
  fix b
  assume "b \<in> set bs"
  then obtain j where j: "j < length bs" "b = bs ! j" by (metis in_set_conv_nth)
  show "b = 0"
  proof (rule bit_eqI)
    fix k
    assume "possible_bit TYPE(8 word) k"
    then have k: "k < 8" by (simp add: possible_bit_word)
    have "\<not> bit (bytes_word bs :: 'a word) (8 * j + k)" using assms(1) by simp
    with k j assms(2) show "bit b k \<longleftrightarrow> bit (0 :: byte) k" by (simp add: bit_bytes_word)
  qed
qed

lemma read_uint16_zero:
  assumes "smp_read_uint16 bo p = Some 0"
  shows "\<exists>rest. p = 0 # 0 # rest"
proof -
  from assms obtain x y rest where p: "p = x # y # rest"
    by (cases p rule: remdups_adj.cases) (auto simp: smp_read_uint16_def mem_read_def)
  with assms have "object_word bo [x, y] = (0 :: u16)"
    by (simp add: smp_read_uint16_def mem_read_def)
  then have "x = 0 \<and> y = 0"
    using bytes_word_zero [of "[x, y]", where 'a = 16] bytes_word_zero [of "[y, x]", where 'a = 16]
    by (cases bo) (simp_all add: object_word_def)
  with p show ?thesis by simp
qed

section \<open>One value\<close>

lemma c_strlen_nul:
  assumes "0 \<in> set s" and "length s \<le> PTRDIFF_MAX"
  shows "\<exists>n. c_strlen s = Some n \<and> unat n = length (takeWhile (\<lambda>b. b \<noteq> 0) s) \<and> unat n < length s"
proof -
  let ?n = "length (takeWhile (\<lambda>b. b \<noteq> 0) s)"
  have "takeWhile (\<lambda>b. b \<noteq> 0) s \<noteq> s" using assms(1) by (metis set_takeWhileD)
  then have "?n < length s"
    by (metis length_takeWhile_le le_neq_implies_less takeWhile_eq_take take_all_iff nat_le_linear)
  moreover from this have "unat (of_nat ?n :: size_t) = ?n"
    using assms(2) by (intro unat_of_nat_size) (simp add: PTRDIFF_MAX_def)
  ultimately show ?thesis using assms(2) by (simp add: c_strlen_def Let_def)
qed

text \<open>
  A string: \<open>q\<close> begins with its size field, and \<open>take (unat sz) q\<close> is the rest of the frame.
\<close>

lemma decode_string_safe:
  assumes "unat sz \<le> length q" and "length q \<le> PTRDIFF_MAX"
    and "3 \<le> unat sz" and "\<not> unterminated_empty (9 # take (unat sz) q)"
  shows "\<exists>s n. smp_message_decode_string bo q sz = Some s \<and>
    smp_value_compute_size (v\<lparr>vtype := TYPE_STRING, vval := UCstring s\<rparr>) = Some n \<and> unat n \<le> unat sz \<and>
    string_span bo (take (unat sz) q) = Some (unat n)"
proof -
  obtain w where w: "smp_read_uint16 bo q = Some w"
    using assms u16.rd_None_iff [of bo q] by fastforce
  have w': "smp_read_uint16 bo (take (unat sz) q) = Some w"
    using w assms(3) by (simp add: read_uint16_take)
  have len: "length (take (unat sz) q) = unat sz" using assms(1) by simp
  have u2: "unat (2 + ucast w :: size_t) = unat w + 2" "unat (1 + ucast w :: size_t) = unat w + 1"
    using unat_u16_less [of w] by (subst unat_add_size; simp)+
  have m1: "2 + ucast w - 1 = (1 + ucast w :: size_t)" by simp
  show ?thesis
  proof (cases "sz < 2 + ucast w \<or> q ! (unat w + 1) \<noteq> 0")
    case True
    have "smp_message_decode_string bo q sz = Some None"
    proof (cases "sz < 2 + ucast w")
      case True
      with w show ?thesis by (simp add: smp_message_decode_string_def)
    next
      case False
      with True have "q ! (unat w + 1) \<noteq> 0" "unat w + 2 \<le> unat sz"
        using u2 by (simp_all add: word_less_nat_alt)
      with w False u2 assms(1,3) show ?thesis
        by (simp add: smp_message_decode_string_def mem_get_def word_less_nat_alt)
    qed
    moreover have "\<not> (unat w + 2 \<le> unat sz \<and> q ! (unat w + 1) = 0)"
      using True u2 by (auto simp: word_less_nat_alt)
    ultimately show ?thesis using assms(1,3) w'
      by (auto simp: smp_value_compute_size_def string_span_def)
  next
    case False
    then have sz: "unat w + 2 \<le> unat sz" "q ! (unat w + 1) = 0"
      using u2 by (simp_all add: word_less_nat_alt)
    have dec: "smp_message_decode_string bo q sz = Some (Some (drop 2 q))"
      using w False u2 sz assms(1-3)
      by (simp add: smp_message_decode_string_def mem_get_def ptr_add_def word_less_nat_alt)
    let ?s = "drop 2 q"
    have "\<exists>j<unat sz - 2. ?s ! j = 0"
    proof (cases "w = 0")
      case True
      with w obtain rest where q: "q = 0 # 0 # rest" using read_uint16_zero by blast
      then have "take 3 (9 # take (unat sz) q) = [9, 0, 0]" "drop 3 (9 # take (unat sz) q) = take (unat sz - 2) ?s"
        using assms(3) by (simp_all add: take_Cons' drop_Cons' numeral_2_eq_2)
      with assms(1,3,4) have "0 \<in> set (take (unat sz - 2) ?s)" by (simp add: unterminated_empty_def)
      then show ?thesis by (auto simp: in_set_conv_nth)
    next
      case False
      then have "0 < unat w" by (simp add: unat_gt_0)
      with sz assms(1) show ?thesis by (intro exI [of _ "unat w - 1"]) auto
    qed
    then obtain j where j: "j < unat sz - 2" "?s ! j = 0" by blast
    have nul: "0 \<in> set (take (unat sz - 2) ?s)"
      using j assms(1) by (metis (no_types, lifting) length_drop length_take min_less_iff_conj nth_mem nth_take
        diff_le_mono le_trans less_le_trans)
    have tw: "takeWhile (\<lambda>b. b \<noteq> 0) (take (unat sz - 2) ?s) = takeWhile (\<lambda>b. b \<noteq> 0) ?s"
      using j assms(1) by (intro takeWhile_take_nul) simp_all
    have "length ?s \<le> PTRDIFF_MAX" using assms(2) by simp
    from c_strlen_nul [OF in_set_takeD [OF nul] this]
    obtain n where n: "c_strlen ?s = Some n" "unat n = length (takeWhile (\<lambda>b. b \<noteq> 0) ?s)"
      by blast
    have "unat n < unat sz - 2"
    proof -
      have "length (take (unat sz - 2) ?s) \<le> PTRDIFF_MAX" using assms(1,2) by simp
      from c_strlen_nul [OF nul this] n(2) show ?thesis by (auto simp: tw)
    qed
    moreover have "unat (3 + n) = 3 + unat n"
      using calculation unat_less_2_64 [of sz] by (subst unat_add_size) simp_all
    moreover have "string_span bo (take (unat sz) q) = Some (3 + unat n)"
      using w' sz assms(1,3) n(2) tw by (simp add: string_span_def drop_take)
    ultimately show ?thesis using n(1) dec by (simp add: smp_value_compute_size_def)
  qed
qed

lemma decode_raw_safe:
  assumes "unat sz \<le> length q" and "length q \<le> PTRDIFF_MAX" and "2 \<le> unat sz"
  shows "smp_message_decode_raw bo v q sz = Some (Inl SMP_ERROR_BAD_MESSAGE, v) \<and>
      raw_span bo (take (unat sz) q) = Some 2 \<or>
    (\<exists>n. smp_message_decode_raw bo v q sz = Some (Inr (), v\<lparr>vval := UCraw (Some (drop 2 q)) n\<rparr>) \<and>
      unat (2 + n) \<le> unat sz \<and> unat n < 2 ^ 16 \<and> raw_span bo (take (unat sz) q) = Some (unat (2 + n)))"
proof -
  obtain w where w: "smp_read_uint16 bo q = Some w"
    using assms u16.rd_None_iff [of bo q] by fastforce
  have w': "smp_read_uint16 bo (take (unat sz) q) = Some w"
    using w assms(3) by (simp add: read_uint16_take)
  have u2: "unat (2 + ucast w :: size_t) = unat w + 2"
    using unat_u16_less [of w] by (subst unat_add_size) simp_all
  have "\<not> sz < 2" using assms(3) by (simp add: word_less_nat_alt)
  with w w' u2 assms unat_u16_less [of w] show ?thesis
    by (cases "sz < 2 + ucast w")
      (simp_all add: smp_message_decode_raw_def raw_span_def Let_def ptr_add_def word_less_nat_alt
        exI [of _ "ucast w"])
qed

text \<open>What the lemmas below show of one value at \<open>p\<close>: the parser returns, and steps over it.\<close>

definition value_parsed ::
  "byte_order \<Rightarrow> size_t \<Rightarrow> mem \<Rightarrow> ((smp_error + size_t) \<times> smp_value) option \<Rightarrow> bool" where
  "value_parsed bo sz p r \<longleftrightarrow> (\<exists>ret v. r = Some (ret, v) \<and>
     (\<forall>n. ret = Inr n \<longrightarrow> unat n \<le> unat sz \<and> argument_span bo (take (unat sz) p) = Some (unat n)))"

text \<open>A fixed-size value reads exactly its size, which the code has checked.\<close>

lemma decode_fixed_safe:
  assumes "\<not> sz < 2" and p: "p = t # q" and "unat sz \<le> Suc (length q)" and "length q < PTRDIFF_MAX"
    and "type_of_int (ucast t) = ty" and "ty \<noteq> TYPE_STRING" and "ty \<noteq> TYPE_RAW"
  shows "value_parsed bo sz p (smp_message_decode_value bo v p sz)"
proof -
  note assms(1,5-7) [simp]
  have get [simp]: "mem_get p 0 = Some t" "ptr_add p 1 = Some q"
    using assms(4) by (simp_all add: p mem_get_def ptr_add_def)
  have rd: "2 \<le> length q \<Longrightarrow> \<exists>x. smp_read_uint16 bo q = Some x"
    "4 \<le> length q \<Longrightarrow> \<exists>x. smp_read_uint32 bo q = Some x"
    "8 \<le> length q \<Longrightarrow> \<exists>x. smp_read_uint64 bo q = Some x"
    "1 \<le> length q \<Longrightarrow> \<exists>x. mem_get q 0 = Some x"
    using u16.rd_defined u32.rd_defined u64.rd_defined by (auto simp: mem_get_def)
  have span: "argument_span bo (take (unat sz) p) = map_option Suc (fixed_span ty (take (unat sz - 1) q))"
    using assms(1) by (simp add: p take_Cons' word_less_nat_alt)
  show ?thesis
  proof (cases "sz < 1 + smp_type_size ty")
    case True
    then show ?thesis by (simp add: smp_message_decode_value_def Let_def value_parsed_def)
  next
    case False
    then have size: "unat (1 + smp_type_size ty) = 1 + unat (smp_type_size ty)"
        "1 + unat (smp_type_size ty) \<le> unat sz"
      by (cases ty; simp add: word_less_nat_alt)+
    with assms(3) have "unat (smp_type_size ty) \<le> length q" "unat (smp_type_size ty) \<le> unat sz - 1" by simp_all
    with False rd assms(6,7) size span show ?thesis
      by (cases ty) (auto simp: smp_message_decode_value_def value_parsed_def fixed_span_def Let_def wire_simps)
  qed
qed

text \<open>The two types that carry their own length, from the byte after the type on.\<close>

lemma decode_value_string_safe:
  assumes "\<not> sz < 2" and p: "p = t # q" and "unat sz \<le> Suc (length q)" and "length q < PTRDIFF_MAX"
    and ty: "type_of_int (ucast t) = TYPE_STRING" and "\<not> unterminated_empty (take (unat sz) p)"
  shows "value_parsed bo sz p (smp_message_decode_value bo v p sz)"
proof (cases "sz < 4")
  case True
  with ty assms(1,4) show ?thesis
    by (simp add: smp_message_decode_value_def value_parsed_def p mem_get_def ptr_add_def)
next
  case False
  then have sz4: "4 \<le> unat sz" by (simp add: word_less_nat_alt)
  then have szm: "unat (sz - 1) = unat sz - 1"
    by (subst unat_sub) (simp_all add: word_le_nat_alt)
  have "(ucast t :: u32) = 9" using ty by (auto simp: type_of_int_def split: if_splits)
  then have t: "t = 9" by (simp add: word_unat_eq_iff)
  have take: "take (unat sz) p = t # take (unat (sz - 1)) q"
    using sz4 by (simp add: p take_Cons' szm)
  have "unat (sz - 1) \<le> length q" "3 \<le> unat (sz - 1)"
    using assms(3) szm sz4 by simp_all
  then obtain s n where "smp_message_decode_string bo q (sz - 1) = Some s"
    "smp_value_compute_size (v\<lparr>vtype := TYPE_STRING, vval := UCstring s\<rparr>) = Some n"
    "unat n \<le> unat (sz - 1)" "string_span bo (take (unat (sz - 1)) q) = Some (unat n)"
    using decode_string_safe [of "sz - 1" q bo v] assms(4,6) t take by auto
  moreover from this have "unat (1 + n) = 1 + unat n"
    using szm sz4 unat_less_2_64 [of sz] by (subst unat_add_size) simp_all
  ultimately show ?thesis using ty assms(1,4) False szm sz4 take
    by (simp add: smp_message_decode_value_def value_parsed_def p mem_get_def ptr_add_def)
qed

lemma decode_value_raw_safe:
  assumes "\<not> sz < 2" and p: "p = t # q" and "unat sz \<le> Suc (length q)" and "length q < PTRDIFF_MAX"
    and ty: "type_of_int (ucast t) = TYPE_RAW"
  shows "value_parsed bo sz p (smp_message_decode_value bo v p sz)"
proof (cases "sz < 3")
  case True
  with ty assms(1,4) show ?thesis
    by (simp add: smp_message_decode_value_def value_parsed_def p mem_get_def ptr_add_def)
next
  case False
  then have sz3: "3 \<le> unat sz" by (simp add: word_less_nat_alt)
  then have szm: "unat (sz - 1) = unat sz - 1"
    by (subst unat_sub) (simp_all add: word_le_nat_alt)
  have le: "unat (sz - 1) \<le> length q" "length q \<le> PTRDIFF_MAX" "2 \<le> unat (sz - 1)"
    using assms(3,4) szm sz3 by simp_all
  have take: "take (unat sz) p = t # take (unat (sz - 1)) q"
    using sz3 by (simp add: p take_Cons' szm)
  let ?v = "v\<lparr>vtype := TYPE_RAW\<rparr>"
  from decode_raw_safe [OF le, of bo ?v] szm
  consider "smp_message_decode_raw bo ?v q (sz - 1) = Some (Inl SMP_ERROR_BAD_MESSAGE, ?v)"
      and "raw_span bo (take (unat (sz - 1)) q) = Some 2"
    | n where "smp_message_decode_raw bo ?v q (sz - 1)
        = Some (Inr (), v\<lparr>vtype := TYPE_RAW, vval := UCraw (Some (drop 2 q)) n\<rparr>)"
      and "unat (2 + n) \<le> unat sz - 1" and "raw_span bo (take (unat (sz - 1)) q) = Some (unat (2 + n))"
    by auto
  then show ?thesis
  proof cases
    case 1
    with ty assms(1,4) False sz3 take show ?thesis
      by (simp add: smp_message_decode_value_def value_parsed_def p mem_get_def ptr_add_def)
  next
    case 2
    then have "unat (1 + (2 + n)) = 1 + unat (2 + n)"
      using sz3 unat_less_2_64 [of sz] by (subst unat_add_size) simp_all
    with 2 ty assms(1,4) False sz3 take show ?thesis
      by (simp add: smp_message_decode_value_def value_parsed_def smp_value_compute_size_def p
          mem_get_def ptr_add_def)
  qed
qed

lemma decode_value_safe:
  assumes "unat sz \<le> length p" and "length p \<le> PTRDIFF_MAX"
    and "\<not> unterminated_empty (take (unat sz) p)"
  shows "value_parsed bo sz p (smp_message_decode_value bo v p sz)"
proof (cases "sz < 2")
  case True
  then show ?thesis by (simp add: smp_message_decode_value_def value_parsed_def)
next
  case sz: False
  then obtain t q where p: "p = t # q" using assms(1) by (cases p) (auto simp: word_less_nat_alt)
  have len: "unat sz \<le> Suc (length q)" "length q < PTRDIFF_MAX"
    using assms(1,2) by (simp_all add: p)
  note parsed = decode_value_string_safe [OF sz p len _ assms(3)] decode_value_raw_safe [OF sz p len]
    decode_fixed_safe [OF sz p len refl]
  show ?thesis
    by (cases "type_of_int (ucast t)") (rule parsed; simp)+
qed

section \<open>The whole message\<close>

lemma build_room_total:
  assumes "message_wf m" and "unat i \<le> unat (capacity m)" and "unat i < 2 ^ 32"
  obtains "build_room alloc m i = Some RoomBreak"
  | e m' where "build_room alloc m i = Some (RoomFail e m')" and "message_wf m'"
  | m' where "build_room alloc m i = Some (RoomOk m')" and "message_wf m'"
    and "unat i < unat (capacity m')"
proof (cases "unat i < unat (capacity m)")
  case True
  with assms(1) that show ?thesis by (simp add: build_room_def word_le_nat_alt)
next
  case False
  with assms(2) have i: "i = capacity m" by (simp add: word_unat_eq_iff)
  have i1: "unat (i + 1) = unat i + 1" using assms(3) by (subst unat_add_size) simp_all
  from next_pow2_least [of "i + 1"] i1 assms(3) obtain k where
    k: "unat (next_pow2 (i + 1)) = 2 ^ k" "unat i + 1 \<le> 2 ^ k" "2 ^ k < 2 * (unat i + 1)"
    by auto
  let ?cap = "next_pow2 (i + 1)"
  have b: "unat ?cap * 24 < 2 ^ 64" using k assms(3) by simp
  have gt: "capacity m < ?cap" using k i by (simp add: word_less_nat_alt)
  then have ne: "\<not> ?cap < capacity m" "?cap \<noteq> capacity m" by auto
  show ?thesis
  proof (cases "msg_static m")
    case True
    with that i show ?thesis by (simp add: build_room_def)
  next
    case False
    show ?thesis
    proof (cases "alloc (?cap * SIZEOF_VALUE)")
      case True
      then obtain m' where "smp_message_set_capacity alloc (Some m) ?cap = Some (Inr (), Some m')"
        "message_wf m'" "capacity m' = ?cap"
        using set_capacity_grows [OF assms(1) False gt b] by blast
      with that(3) [of m'] False i k show ?thesis
        by (simp add: build_room_def smp_message_get_capacity_def)
    next
      case nomem: False
      with False ne i have "build_room alloc m i = Some (RoomFail SMP_ERROR_NO_MEM m)"
        by (simp add: build_room_def smp_message_get_capacity_def smp_message_set_capacity_def)
      with assms(1) that show ?thesis by blast
    qed
  qed
qed

text \<open>One turn of the loop: it stops with a result, or goes on at least two bytes further.\<close>

lemma build_loop_step:
  assumes "message_wf m" and "unat i \<le> unat (capacity m)" and "unat i < 2 ^ 32"
    and "unat off < unat sz" and "unat sz \<le> length buffer" and "length buffer \<le> PTRDIFF_MAX"
    and "\<not> reaches_unterminated bo (take (unat sz - unat off) (drop (unat off) buffer))"
  obtains ret m' where "build_loop bo alloc buffer sz off i m = Some (ret, off, m')" and "message_wf m'"
  | off' m' where "build_loop bo alloc buffer sz off i m = build_loop bo alloc buffer sz off' (i + 1) m'"
    and "message_wf m'" and "unat (i + 1) \<le> unat (capacity m')"
    and "unat off + 2 \<le> unat off'" and "unat off' \<le> unat sz"
    and "\<not> reaches_unterminated bo (take (unat sz - unat off') (drop (unat off') buffer))"
proof -
  have ne: "sz - off \<noteq> 0" using assms(4) by auto
  then have pos: "0 < sz - off" by (simp add: word_gt_0)
  have szo: "unat (sz - off) = unat sz - unat off"
    using assms(4) by (intro unat_sub) (simp add: word_le_nat_alt)
  let ?p = "drop (unat off) buffer"
  have p: "ptr_add buffer off = Some ?p" using assms(4-6) by (simp add: ptr_add_def)
  let ?rest = "take (unat (sz - off)) ?p"
  have noz: "\<not> reaches_unterminated bo ?rest" using assms(7) szo by simp
  have le: "unat (sz - off) \<le> length ?p" "length ?p \<le> PTRDIFF_MAX"
    using szo assms(5,6) by auto
  from build_room_total [OF assms(1-3), of alloc] show ?thesis
  proof cases
    case 1
    with that(1) assms(1) pos show ?thesis by (subst (asm) build_loop.simps) simp
  next
    case (2 e m')
    with that(1) pos show ?thesis by (subst (asm) build_loop.simps) simp
  next
    case (3 m1)
    obtain ret v' where dec: "smp_message_decode_value bo (used m1 ! unat i) ?p (sz - off) = Some (ret, v')"
      "\<And>n. ret = Inr n \<Longrightarrow> unat n \<le> unat (sz - off) \<and> argument_span bo ?rest = Some (unat n)"
      using decode_value_safe [OF le reaches_unterminated_step(1) [OF noz], of bo "used m1 ! unat i"]
      unfolding value_parsed_def by blast
    obtain m2 where m2: "values_set m1 (unat i) v' = Some m2" "message_wf m2" "capacity m2 = capacity m1"
      using values_set_used [OF 3(2,3)] by blast
    have get: "values_get m1 (unat i) = Some (used m1 ! unat i)" using 3 by (intro values_get_used)
    show ?thesis
    proof (cases ret)
      case (Inl e)
      with that(1) 3 p dec get m2 pos show ?thesis by (subst (asm) build_loop.simps) simp
    next
      case (Inr n)
      have n: "2 \<le> unat n" using decode_value_size dec(1) Inr by blast
      have off': "unat (off + n) = unat off + unat n"
        using conjunct1 [OF dec(2) [OF Inr]] szo assms(4) unat_less_2_64 [of sz] by (intro unat_add_size) simp
      have noz': "\<not> reaches_unterminated bo (take (unat sz - unat (off + n)) (drop (unat (off + n)) buffer))"
        using reaches_unterminated_step(2) [OF noz, of "unat n"] dec(2) [OF Inr] szo off'
        by (simp add: drop_take add.commute)
      have "build_loop bo alloc buffer sz off i m = build_loop bo alloc buffer sz (off + n) (i + 1) m2"
        using Inr 3 p dec(1) get m2 pos by (subst build_loop.simps) simp
      moreover have "unat (i + 1) \<le> unat (capacity m2)"
        using 3 m2 assms(3) by (subst unat_add_size) simp_all
      ultimately show ?thesis
        using that(2) [of "off + n" m2] m2 n off' conjunct1 [OF dec(2) [OF Inr]] szo assms(4) noz' by simp
    qed
  qed
qed

lemma build_loop_safe:
  assumes "message_wf m" and "unat i \<le> unat (capacity m)"
    and "unat off \<le> unat sz" and "unat sz \<le> length buffer" and "length buffer \<le> PTRDIFF_MAX"
    and "unat i + (unat sz - unat off) < 2 ^ 32"
    and "\<not> reaches_unterminated bo (take (unat sz - unat off) (drop (unat off) buffer))"
  shows "\<exists>ret off' m'. build_loop bo alloc buffer sz off i m = Some (ret, off', m') \<and>
    message_wf m' \<and> unat off' \<le> unat sz"
  using assms
proof (induction "unat sz - unat off" arbitrary: off i m rule: less_induct)
  case less
  show ?case
  proof (cases "sz = off")
    case True
    with less.prems show ?thesis by (subst build_loop.simps) simp
  next
    case False
    with less.prems(3) have off: "unat off < unat sz" by (simp add: word_unat_eq_iff)
    have i: "unat i < 2 ^ 32" using less.prems by simp
    from build_loop_step [OF less.prems(1,2) i off less.prems(4,5,7), of alloc] show ?thesis
    proof cases
      case (1 ret m')
      with off show ?thesis by auto
    next
      case (2 off' m')
      have "unat (i + 1) = unat i + 1" using i by (subst unat_add_size) simp_all
      with less.hyps [of off' m' "i + 1"] less.prems 2 off show ?thesis by auto
    qed
  qed
qed

lemma build_safe:
  assumes "message_wf m" and "unat sz \<le> length buffer" and "length buffer \<le> PTRDIFF_MAX"
    and "unat sz < 2 ^ 32" and "\<not> reaches_unterminated bo (drop 8 (take (unat sz) buffer))"
  shows "\<exists>ret m'. smp_message_build_from_buffer bo alloc (Some m) (Some buffer) sz = Some (ret, Some m') \<and>
    message_wf m'"
proof (cases "sz < 8")
  case True
  with assms(1) show ?thesis by (simp add: smp_message_build_from_buffer_def MSG_HEADER_SIZE_def)
next
  case False
  then have sz: "8 \<le> unat sz" by (simp add: word_less_nat_alt)
  obtain ident where ident: "smp_read_uint32 bo buffer = Some ident"
    using assms(2) sz u32.rd_defined [of buffer bo] by auto
  obtain w where w: "smp_read_uint32 bo (drop 4 buffer) = Some w"
    using u32.rd_defined [of "drop 4 buffer" bo] assms(2) sz by fastforce
  have p4: "ptr_add buffer 4 = Some (drop 4 buffer)" using assms(2,3) sz by (simp add: ptr_add_def)
  have wf: "message_wf (m\<lparr>msgid := ident\<rparr>)" using assms(1) by (simp add: message_wf_def)
  have "unat (0 :: size_t) + (unat sz - unat (8 :: size_t)) < 2 ^ 32" using assms(4) by simp
  note safe = build_loop_safe [OF wf _ _ assms(2,3) this, of bo alloc]
  obtain ret off m' where "build_loop bo alloc buffer sz 8 0 (m\<lparr>msgid := ident\<rparr>) = Some (ret, off, m')"
    "message_wf m'"
    using safe sz assms(5) by (auto simp: drop_take)
  with False ident w p4 wf show ?thesis
    by (cases ret) (auto simp: smp_message_build_from_buffer_def MSG_HEADER_SIZE_def Let_def)
qed

end
