(* ===== verification/Smp_Message_Spec.thy ===== *)
theory Smp_Message_Spec
  imports Smp_Message_Safety
begin

text \<open>
  The properties of the message codec of \<open>src/message.c\<close>, each with an instance at a concrete
  input.
\<close>

section \<open>Sample inputs\<close>

definition sample_message :: message where
  "sample_message =
     \<lparr>msgid = 33,
      msg_values =
        [\<lparr>vtype = TYPE_UINT16, vval = UU16 0x1234\<rparr>,
         zero_value,
         \<lparr>vtype = TYPE_STRING, vval = UCstring (Some [104, 105, 0, 7])\<rparr>,
         \<lparr>vtype = TYPE_RAW, vval = UCraw (Some [1, 2, 3]) 2\<rparr>],
      capacity = 4, msg_static = True\<rparr>"

definition sample_args :: "arg list" where
  "sample_args = [AU16 0x1234, AStr [104, 105], ARaw [1, 2]]"

definition empty_message :: "bool \<Rightarrow> message" where
  "empty_message static =
     \<lparr>msgid = 0, msg_values = [zero_value, zero_value, zero_value], capacity = 3, msg_static = static\<rparr>"

lemma sample_message_args: "message_args sample_message = Some sample_args"
  by (simp add: message_args_def values_used_def sample_message_def sample_args_def zero_value_def
      value_arg_def c_strlen_def PTRDIFF_MAX_def mem_read_def)

lemma sample_args_wire_length: "length (args_wire bo sample_args) = 14"
  by (simp add: sample_args_def arg_wire_def)

lemma sample_facts: "msgid sample_message = 33" "length sample_args = 3" "filter arg_fits sample_args = sample_args"
  by (simp_all add: sample_message_def sample_args_def)

lemma sample_args_fit: "\<forall>a\<in>set sample_args. arg_wf a \<and> arg_fits a"
  by (simp add: sample_args_def)

lemma empty_message_facts: "message_wf (empty_message s)" "untyped (used (empty_message s))"
  "capacity (empty_message s) = 3" "msg_static (empty_message s) = s"
  by (simp_all add: empty_message_def message_wf_def used_def zero_value_def)

section \<open>Encoding and parsing\<close>

text \<open>The values of the parsed message, one for each argument that was encoded.\<close>

lemma encode_then_build:
  assumes "message_args m = Some as" and "\<forall>a\<in>set as. arg_fits a"
    and "length (args_wire bo as) < 2 ^ 32" and "unat sz \<le> length buf" and "length buf \<le> PTRDIFF_MAX"
    and "smp_message_encode bo (Some m) (Some buf) sz = Some (Inr n, Some buf')"
    and "message_wf r" and "untyped (used r)"
    and "length as \<le> unat (capacity r) \<or> \<not> msg_static r \<and> grants alloc (48 * length as)"
  obtains r' vs free where
    "smp_message_build_from_buffer bo alloc (Some r) (Some buf') n = Some (Inr (), Some r')"
    "message_wf r'" "msgid r' = msgid m" "used r' = vs @ free" "untyped free"
    "list_all2 (\<lambda>v a. value_arg v = Some a) vs as"
proof -
  have fit: "filter arg_fits as = as" using assms(2) by (simp add: filter_id_conv)
  have wf: "\<forall>a\<in>set as. arg_wf a \<and> arg_fits a"
    using assms(1,2) by (auto simp: message_args_def bind_eq_Some_conv dest: values_args_wf)
  have lt: "length buf < 2 ^ 64" using assms(5) by (simp add: PTRDIFF_MAX_def)
  note enc = encode_message [OF assms(1,3,4) lt]
  have room: "8 + length (args_wire bo as) \<le> unat sz"
    using enc(2) assms(6) by (cases "unat sz < 8 + length (args_wire bo as)") simp_all
  from enc(3) [OF room refl] assms(6) have n: "n = of_nat (8 + length (args_wire bo as))"
    and pre: "take (8 + length (args_wire bo as)) buf' = message_wire bo (msgid m) as"
    and len: "length buf' = length buf"
    by (auto simp: fit)
  have buf: "buf' = message_wire bo (msgid m) as @ drop (8 + length (args_wire bo as)) buf'"
    unfolding pre [symmetric] by simp
  have un: "unat n = 8 + length (args_wire bo as)"
    unfolding n using assms(3) by (intro unat_of_nat_size) simp
  from build_message [OF buf _ assms(3) un assms(7,8) wf assms(9)] len assms(5) that
  show thesis by auto
qed

text \<open>
  C3: Round trip: whatever the encoder writes for a message whose arguments fit their size fields,
  the parser reads back into any empty message with room for the arguments (or one that can grow)
  as the same identifier and the same arguments, values without a type being left out.
\<close>

theorem message_roundtrip:
  assumes "message_args m = Some as" and "\<forall>a\<in>set as. arg_fits a"
    and "length (args_wire bo as) < 2 ^ 32" and "unat sz \<le> length buf" and "length buf \<le> PTRDIFF_MAX"
    and "smp_message_encode bo (Some m) (Some buf) sz = Some (Inr n, Some buf')"
    and "message_wf r" and "untyped (used r)"
    and "length as \<le> unat (capacity r) \<or> \<not> msg_static r \<and> grants alloc (48 * length as)"
  shows "\<exists>r'. smp_message_build_from_buffer bo alloc (Some r) (Some buf') n = Some (Inr (), Some r') \<and>
    msgid r' = msgid m \<and> message_args r' = Some as"
proof -
  from encode_then_build [OF assms] obtain r' vs free where
    r': "smp_message_build_from_buffer bo alloc (Some r) (Some buf') n = Some (Inr (), Some r')"
    "message_wf r'" "msgid r' = msgid m" "used r' = vs @ free" "untyped free"
    "list_all2 (\<lambda>v a. value_arg v = Some a) vs as" .
  then have "message_args r' = Some as"
    using values_args_append [OF values_args_all values_args_none] by (fastforce simp: message_args_used untyped_def)
  with r' show ?thesis by blast
qed

theorem message_roundtrip_witness:
  "\<exists>buf' n r'. smp_message_encode LittleEndian (Some sample_message) (Some (replicate 30 0)) 30
      = Some (Inr n, Some buf') \<and>
    smp_message_build_from_buffer LittleEndian (\<lambda>_. True) (Some (empty_message True)) (Some buf') n
      = Some (Inr (), Some r') \<and>
    msgid r' = 33 \<and> message_args r' = Some sample_args"
proof -
  obtain buf' where enc: "smp_message_encode LittleEndian (Some sample_message) (Some (replicate 30 0)) 30
      = Some (Inr 22, Some buf')"
    using encode_message(3) [OF sample_message_args, of LittleEndian 30 "replicate 30 0", OF _ _ _ _ refl]
    by (auto simp: sample_args_wire_length sample_facts)
  from message_roundtrip [OF sample_message_args _ _ _ _ enc empty_message_facts(1,2), of True "\<lambda>_. True"]
  have "\<exists>r'. smp_message_build_from_buffer LittleEndian (\<lambda>_. True) (Some (empty_message True)) (Some buf') 22
      = Some (Inr (), Some r') \<and> msgid r' = msgid sample_message \<and> message_args r' = Some sample_args"
    using sample_args_fit
    by (simp add: sample_args_wire_length empty_message_facts PTRDIFF_MAX_def sample_facts)
  with enc show ?thesis by (auto simp: sample_facts)
qed

text \<open>
  C28: The encoder, given a buffer of at least the encoded size, writes the header and the
  arguments in order, leaving out those whose length does not fit the 16-bit size field, returns
  the number of bytes written and leaves the bytes past the encoded size alone; given a smaller
  buffer it returns an error and writes nothing.
\<close>

theorem message_encode_functional:
  assumes "message_args m = Some as" and "length (args_wire bo as) < 2 ^ 32"
    and "unat sz \<le> length buf" and "length buf < 2 ^ 64"
  shows "if unat sz < 8 + length (args_wire bo as)
    then smp_message_encode bo (Some m) (Some buf) sz = Some (Inl SMP_ERROR_NO_MEM, Some buf)
    else (let wire = message_wire bo (msgid m) (filter arg_fits as)
          in \<exists>buf'. smp_message_encode bo (Some m) (Some buf) sz = Some (Inr (of_nat (length wire)), Some buf') \<and>
            take (length wire) buf' = wire \<and> length buf' = length buf \<and>
            drop (8 + length (args_wire bo as)) buf' = drop (8 + length (args_wire bo as)) buf)"
  using encode_message(2) [OF assms] encode_message(3) [OF assms _ refl] by (simp add: Let_def)

theorem message_encode_functional_witness:
  "smp_message_encode BigEndian (Some sample_message) (Some (replicate 21 0)) 21
      = Some (Inl SMP_ERROR_NO_MEM, Some (replicate 21 0)) \<and>
   (\<exists>buf'. smp_message_encode BigEndian (Some sample_message) (Some (replicate 22 0)) 22
      = Some (Inr 22, Some buf') \<and> buf' = message_wire BigEndian 33 sample_args)"
  using message_encode_functional [OF sample_message_args, of BigEndian 21 "replicate 21 0"]
    message_encode_functional [OF sample_message_args, of BigEndian 22 "replicate 22 0"]
  by (auto simp: sample_args_wire_length sample_facts Let_def)

text \<open>
  C12: On any bytes, for any message and any answers of the allocator, the parser returns: it never
  reads or writes out of the buffer or of the value array, and the message it leaves has its whole
  capacity backed by the array. The exception are bytes in which, going from argument to
  argument from byte 8 on, the parser arrives at a string that announces size zero and after which
  no nul byte comes in the frame. (The buffer holds \<open>unat sz\<close> bytes or more, below 4 GiB.)
\<close>

theorem message_parse_memory_safe:
  assumes "message_wf m" and "unat sz \<le> length buffer" and "length buffer \<le> PTRDIFF_MAX"
    and "unat sz < 2 ^ 32" and "\<not> reaches_unterminated bo (drop 8 (take (unat sz) buffer))"
  shows "\<exists>ret m'. smp_message_build_from_buffer bo alloc (Some m) (Some buffer) sz = Some (ret, Some m') \<and>
    message_wf m'"
  using assms by (rule build_safe)

theorem message_parse_memory_safe_witness:
  "\<exists>ret m'. smp_message_build_from_buffer LittleEndian (\<lambda>_. False) (Some (empty_message False))
      (Some [9, 0, 0, 0, 17, 0, 0, 0, 5, 9, 0, 0, 0, 9, 255, 0, 65, 3, 9, 0, 0, 0, 10, 2, 0]) 25 =
      Some (ret, Some m') \<and> message_wf m'"
proof -
  have "\<not> reaches_unterminated LittleEndian [5, 9, 0, 0, 0, 9, 255, 0, 65, 3, 9, 0, 0, 0, 10, 2, 0]"
    by code_simp
  then show ?thesis
    by (intro message_parse_memory_safe) (simp_all add: empty_message_facts PTRDIFF_MAX_def)
qed

text \<open>
  C29: A string argument of size zero passes the check for its final nul byte, so the length of
  the string is computed from whatever follows: when no nul byte follows in the object, the
  parser reads past the end of the buffer it was given.
\<close>

theorem message_empty_string_overrun:
  assumes "message_wf m" and "0 < capacity m" and "0 \<notin> set tail" and "tail \<noteq> []"
    and "length tail < 2 ^ 31"
  shows "smp_message_build_from_buffer bo alloc (Some m)
    (Some (object_bytes bo 4 (ident :: u32) @ object_bytes bo 4 (of_nat (3 + length tail) :: u32) @ [9, 0, 0] @ tail))
    (of_nat (11 + length tail)) = None"
proof -
  define hd where "hd = object_bytes bo 4 ident @ object_bytes bo 4 (of_nat (3 + length tail) :: u32)"
  define rest where "rest = [9, 0, 0] @ tail"
  define sz :: size_t where "sz = of_nat (11 + length tail)"
  let ?buf = "hd @ rest"
  let ?m = "m\<lparr>msgid := ident\<rparr>"
  have sz: "unat sz = 11 + length tail"
    unfolding sz_def using assms(5) by (intro unat_of_nat_size) simp
  then have szo: "unat (sz - 8) = 3 + length tail" by (subst unat_sub) (simp_all add: word_le_nat_alt)
  then have sz1: "unat (sz - 8 - 1) = 2 + length tail" by (subst unat_sub) (simp_all add: word_le_nat_alt)
  have "takeWhile (\<lambda>b. b \<noteq> 0) tail = tail"
    using assms(3) unfolding takeWhile_eq_all_conv by metis
  then have "c_strlen tail = None" by (simp only: c_strlen_def Let_def less_irrefl simp_thms if_False)
  moreover have "smp_message_decode_string bo (0 # 0 # tail) (sz - 8 - 1) = Some (Some tail)"
  proof -
    have "smp_read_uint16 bo (0 # 0 # tail) = Some 0"
      by (cases bo) (simp_all add: smp_read_uint16_def mem_read_def object_word_def bytes_word_def)
    moreover have "\<not> sz - 8 - 1 < 2" using sz1 by (simp add: word_less_nat_alt del: diff_diff_eq)
    ultimately show ?thesis
      using assms(5) by (simp add: smp_message_decode_string_def mem_get_def ptr_add_def PTRDIFF_MAX_def
          del: diff_diff_eq)
  qed
  moreover have "\<not> sz - 8 < 2" "\<not> sz - 8 < 4"
    using szo assms(4) by (cases tail; simp add: word_less_nat_alt)+
  moreover have "mem_get rest 0 = Some 9" "ptr_add rest 1 = Some (0 # 0 # tail)"
    using assms(5) by (simp_all add: rest_def mem_get_def ptr_add_def PTRDIFF_MAX_def)
  ultimately have dec: "smp_message_decode_value bo v rest (sz - 8) = None" for v
    by (simp add: smp_message_decode_value_def type_of_int_def smp_value_compute_size_def)
  have "values_get ?m 0 = Some (msg_values m ! 0)"
    using assms(1,2) by (auto simp: values_get_def message_wf_def word_less_nat_alt)
  moreover have "ptr_add ?buf 8 = Some rest" "0 < sz - 8"
    using assms(5) szo by (simp_all add: hd_def rest_def ptr_add_def PTRDIFF_MAX_def word_less_nat_alt)
  ultimately have loop: "build_loop bo alloc ?buf sz 8 0 ?m = None"
    using assms(2) dec by (subst build_loop.simps) (simp add: build_room_def word_gt_0)
  let ?len = "of_nat (3 + length tail) :: u32"
  have "unat (ucast ?len :: size_t) = 3 + length tail"
    using assms(5) by (simp add: unat_of_nat take_bit_eq_mod del: of_nat_add)
  then have "unat (8 + ucast ?len :: size_t) = 11 + length tail"
    using assms(5) by (subst unat_add_size) simp_all
  then have "\<not> sz < 8" "\<not> sz < 8 + ucast ?len" using sz by (simp_all add: word_less_nat_alt)
  moreover have "smp_read_uint32 bo ?buf = Some ident"
    "ptr_add ?buf 4 = Some (object_bytes bo 4 ?len @ rest)"
    "smp_read_uint32 bo (object_bytes bo 4 ?len @ rest) = Some ?len"
    using assms(5) by (simp_all add: hd_def rest_def u32.rd_enc ptr_add_def PTRDIFF_MAX_def)
  ultimately have "smp_message_build_from_buffer bo alloc (Some m) (Some ?buf) sz = None"
    using loop by (simp add: smp_message_build_from_buffer_def MSG_HEADER_SIZE_def del: of_nat_add)
  then show ?thesis by (simp add: hd_def rest_def sz_def)
qed

theorem message_empty_string_overrun_witness:
  "smp_message_build_from_buffer LittleEndian (\<lambda>_. True) (Some (empty_message True))
    (Some [1, 0, 0, 0, 4, 0, 0, 0, 9, 0, 0, 65]) 12 = None"
  using message_empty_string_overrun [of "empty_message True" "[65]" LittleEndian "\<lambda>_. True" 1]
  by (simp add: empty_message_facts object_bytes_def word_bytes_def upt_rec)

text \<open>
  A message with a fixed array that is too small for the arguments of a frame is filled with
  the first of them, and the parser reports that the frame holds too many.
\<close>

theorem message_parse_too_big:
  assumes "buffer = message_wire bo ident as @ post" and "length buffer \<le> PTRDIFF_MAX"
    and "length (args_wire bo as) < 2 ^ 32" and "\<forall>a\<in>set as. arg_wf a \<and> arg_fits a"
    and "message_wf m" and "untyped (used m)" and "msg_static m" and "unat (capacity m) < length as"
  shows "\<exists>m'. smp_message_build_from_buffer bo alloc (Some m) (Some buffer)
        (of_nat (8 + length (args_wire bo as))) = Some (Inl SMP_ERROR_TOO_BIG, Some m') \<and>
    msgid m' = ident \<and> message_args m' = Some (take (unat (capacity m)) as)"
proof -
  have sz: "unat (of_nat (8 + length (args_wire bo as)) :: size_t) = 8 + length (args_wire bo as)"
    using assms(3) by (intro unat_of_nat_size) simp
  from build_over_full [OF assms(1-3) sz assms(5,4,7,8), of alloc] show ?thesis
    by (auto simp: message_args_used intro: values_args_all)
qed

theorem message_parse_too_big_witness:
  "\<exists>m'. smp_message_build_from_buffer LittleEndian (\<lambda>_. True) (Some (empty_message True))
      (Some (message_wire LittleEndian 5 [AU8 1, AU8 2, AU8 3, AU8 4])) 16
      = Some (Inl SMP_ERROR_TOO_BIG, Some m') \<and>
    msgid m' = 5 \<and> message_args m' = Some [AU8 1, AU8 2, AU8 3]"
  using message_parse_too_big [of _ LittleEndian 5 "[AU8 1, AU8 2, AU8 3, AU8 4]" "[]" "empty_message True" "\<lambda>_. True"]
  by (simp add: empty_message_facts arg_wire_def PTRDIFF_MAX_def)

text \<open>
  C30: A frame cut short anywhere is rejected, and the arguments of the message it was parsed into
  stay as they were.
\<close>

theorem message_truncated_rejected:
  assumes "k < 8 + length (args_wire bo as)" and "length (args_wire bo as) < 2 ^ 32"
    and "\<forall>a\<in>set as. arg_wf a \<and> arg_fits a"
  shows "\<exists>m'. smp_message_build_from_buffer bo alloc (Some m) (Some (take k (message_wire bo ident as)))
      (of_nat k) = Some (Inl SMP_ERROR_BAD_MESSAGE, Some m') \<and> message_args m' = message_args m"
proof (cases "k < 8")
  case True
  then have "(of_nat k :: size_t) < 8" by (simp add: word_less_nat_alt)
  then show ?thesis by (simp add: smp_message_build_from_buffer_def MSG_HEADER_SIZE_def)
next
  case False
  let ?n = "length (args_wire bo as)"
  let ?len = "object_bytes bo 4 (of_nat ?n :: u32)"
  let ?body = "take (k - 8) (args_wire bo as)"
  have buf: "take k (message_wire bo ident as) = object_bytes bo 4 ident @ ?len @ ?body"
    using False by (simp add: message_wire_def)
  have k: "unat (of_nat k :: size_t) = k" using assms(1,2) by (intro unat_of_nat_size) simp
  have n: "unat (ucast (of_nat ?n :: u32) :: size_t) = ?n"
    using assms(2) by (simp add: unat_of_nat take_bit_eq_mod)
  then have "unat (8 + ucast (of_nat ?n :: u32) :: size_t) = 8 + ?n"
    using assms(2) by (subst unat_add_size) simp_all
  then have "(of_nat k :: size_t) < 8 + ucast (of_nat ?n :: u32)" "\<not> (of_nat k :: size_t) < 8"
    using k False assms(1) by (simp_all add: word_less_nat_alt)
  moreover have "smp_read_uint32 bo (object_bytes bo 4 ident @ ?len @ ?body) = Some ident"
    "ptr_add (object_bytes bo 4 ident @ ?len @ ?body) 4 = Some (?len @ ?body)"
    "smp_read_uint32 bo (?len @ ?body) = Some (of_nat ?n)"
    using assms(1,2) by (simp_all add: u32.rd_enc ptr_add_def PTRDIFF_MAX_def)
  ultimately show ?thesis
    unfolding buf
    by (simp add: smp_message_build_from_buffer_def MSG_HEADER_SIZE_def message_args_def values_used_def)
qed

theorem message_truncated_rejected_witness:
  "\<exists>m'. smp_message_build_from_buffer BigEndian (\<lambda>_. True) (Some sample_message)
      (Some (take 21 (message_wire BigEndian 5 sample_args))) 21
      = Some (Inl SMP_ERROR_BAD_MESSAGE, Some m') \<and> message_args m' = Some sample_args"
  using message_truncated_rejected [of 21 BigEndian sample_args "\<lambda>_. True" sample_message 5] sample_args_fit
  by (simp add: sample_args_wire_length sample_message_args)

section \<open>Capacity\<close>

text \<open>
  The capacity of a message grows to the smallest power of two that holds one value more.
\<close>

theorem next_pow2_smallest:
  assumes "1 \<le> unat v" and "unat v \<le> 2 ^ 63"
  shows "\<exists>k. unat (next_pow2 v) = 2 ^ k \<and> unat v \<le> 2 ^ k \<and> (\<forall>j. unat v \<le> 2 ^ j \<longrightarrow> k \<le> j)"
proof -
  from next_pow2_least [OF assms] obtain k where k: "unat (next_pow2 v) = 2 ^ k" "unat v \<le> 2 ^ k"
    "2 ^ k < 2 * unat v" by blast
  have "k \<le> j" if "unat v \<le> 2 ^ j" for j
  proof -
    have "(2 :: nat) ^ k < 2 ^ Suc j" using k(3) that by simp
    then have "k < Suc j" by (rule power_less_imp_less_exp [rotated]) simp
    then show ?thesis by simp
  qed
  with k show ?thesis by blast
qed

theorem next_pow2_smallest_witness:
  "\<exists>k. unat (next_pow2 9) = 2 ^ k \<and> 9 \<le> (2 :: nat) ^ k \<and> (\<forall>j. 9 \<le> (2 :: nat) ^ j \<longrightarrow> k \<le> j)"
  using next_pow2_smallest [of 9] by simp

text \<open>
  C31: Setting the capacity never loses an argument: on success the capacity is the one asked for
  and the arguments are the same, on any error the message is unchanged. It succeeds exactly on
  a message with its own array, for a capacity that is not smaller, when the memory is granted.
\<close>

theorem set_capacity_keeps_arguments:
  assumes "message_wf m" and "unat cap * 24 < 2 ^ 64"
  shows "\<exists>ret m'. smp_message_set_capacity alloc (Some m) cap = Some (ret, Some m') \<and>
    message_wf m' \<and> message_args m' = message_args m \<and> msgid m' = msgid m \<and>
    (ret = Inr () \<longleftrightarrow> \<not> msg_static m \<and> capacity m \<le> cap \<and> (cap = capacity m \<or> alloc (cap * 24))) \<and>
    (case ret of Inr _ \<Rightarrow> capacity m' = cap | Inl _ \<Rightarrow> m' = m)"
proof (cases "\<not> msg_static m \<and> capacity m < cap \<and> alloc (cap * 24)")
  case True
  then obtain m' where m': "smp_message_set_capacity alloc (Some m) cap = Some (Inr (), Some m')"
    "message_wf m'" "capacity m' = cap" "msgid m' = msgid m"
    "used m' = used m @ replicate (unat (cap - capacity m)) zero_value"
    using set_capacity_grows [OF assms(1) _ _ assms(2), of alloc] by (auto simp: SIZEOF_VALUE_def)
  with assms(1) True show ?thesis by (auto simp: message_args_used values_args_untyped)
next
  case False
  with assms(1) show ?thesis
    by (auto simp: smp_message_set_capacity_def SIZEOF_VALUE_def)
qed

theorem set_capacity_keeps_arguments_witness:
  "\<exists>ret m'. smp_message_set_capacity (\<lambda>n. n \<le> 1000) (Some (sample_message\<lparr>msg_static := False\<rparr>)) 8
      = Some (ret, Some m') \<and> ret = Inr () \<and> capacity m' = 8 \<and> message_args m' = Some sample_args"
proof -
  have "message_wf (sample_message\<lparr>msg_static := False\<rparr>)"
    by (simp add: message_wf_def sample_message_def)
  moreover have "message_args (sample_message\<lparr>msg_static := False\<rparr>) = Some sample_args"
    using sample_message_args by (simp add: message_args_def values_used_def split: if_splits)
  moreover have "capacity sample_message = 4" by (simp add: sample_message_def)
  ultimately show ?thesis
    using set_capacity_keeps_arguments [of "sample_message\<lparr>msg_static := False\<rparr>" 8 "\<lambda>n. n \<le> 1000"]
    by (auto split: sum.splits)
qed

end
