(* ===== verification/Smp_Message_Transfer.thy ===== *)
theory Smp_Message_Transfer
  imports Smp_Message_Api_Spec Smp_Message_Spec
begin

text \<open>
  The way of a message through the library's interface: an application sets the arguments, the
  message is encoded and parsed, and the other application gets the arguments.
\<close>

section \<open>What an application finds in its variables\<close>

text \<open>The argument that the variables at \<open>ps\<close> hold after a getter for the type \<open>t\<close> has written them.\<close>

fun out_arg :: "smp_type \<Rightarrow> nat list \<Rightarrow> out_mem \<Rightarrow> arg option" where
  "out_arg TYPE_STRING [p] out =
     (case out p of
        Some (OutStr (Some s)) \<Rightarrow> do { n \<leftarrow> c_strlen s; Some (AStr (take (unat n) s)) }
      | _ \<Rightarrow> None)"
| "out_arg TYPE_RAW [p, q] out =
     (case (out p, out q) of
        (Some (OutRaw s), Some (OutSize n)) \<Rightarrow>
          if n = 0 then Some (ARaw []) else do { s \<leftarrow> s; bs \<leftarrow> mem_read s 0 (unat n); Some (ARaw bs) }
      | _ \<Rightarrow> None)"
| "out_arg t [p] out =
     (case (t, out p) of
        (TYPE_UINT8, Some (OutU8 x)) \<Rightarrow> Some (AU8 x)
      | (TYPE_INT8, Some (OutI8 x)) \<Rightarrow> Some (AI8 x)
      | (TYPE_UINT16, Some (OutU16 x)) \<Rightarrow> Some (AU16 x)
      | (TYPE_INT16, Some (OutI16 x)) \<Rightarrow> Some (AI16 x)
      | (TYPE_UINT32, Some (OutU32 x)) \<Rightarrow> Some (AU32 x)
      | (TYPE_INT32, Some (OutI32 x)) \<Rightarrow> Some (AI32 x)
      | (TYPE_UINT64, Some (OutU64 x)) \<Rightarrow> Some (AU64 x)
      | (TYPE_INT64, Some (OutI64 x)) \<Rightarrow> Some (AI64 x)
      | (TYPE_F32, Some (OutF32 x)) \<Rightarrow> Some (AF32 x)
      | (TYPE_F64, Some (OutF64 x)) \<Rightarrow> Some (AF64 x)
      | _ \<Rightarrow> None)"
| "out_arg _ _ _ = None"

definition arg_outs :: "arg \<Rightarrow> nat list \<Rightarrow> bool" where
  "arg_outs a ps \<longleftrightarrow> distinct ps \<and> length ps = (if arg_type a = TYPE_RAW then 2 else 1)"

lemma get_put_arg:
  assumes "value_arg v = Some a" and "arg_outs a ps"
  shows "\<exists>out'. get_put_value (arg_type a) v (map (VaOut \<circ> Some) ps) out = Some (Inr [], out') \<and>
    out_arg (arg_type a) ps out' = Some a \<and> (\<forall>p. p \<notin> set ps \<longrightarrow> out' p = out p)"
proof -
  note t = value_arg_type [OF assms(1), symmetric]
  show ?thesis
  proof (cases "vtype v = TYPE_RAW")
    case True
    then obtain p q where ps: "ps = [p, q]" "p \<noteq> q"
      using assms(2) t by (auto simp: arg_outs_def length_Suc_conv numeral_2_eq_2)
    from assms(1) True obtain s n where "union_craw (vval v) = Some (s, n)"
      and "(if n = 0 then Some (ARaw []) else do { q \<leftarrow> s; bs \<leftarrow> mem_read q 0 (unat n); Some (ARaw bs) }) = Some a"
      by (auto simp: value_arg_def bind_eq_Some_conv)
    with True ps show ?thesis unfolding t by (auto simp: get_put_value_def)
  next
    case False
    then obtain p where ps: "ps = [p]"
      using assms(2) t by (auto simp: arg_outs_def length_Suc_conv)
    show ?thesis
      using assms(1) False unfolding t ps by (cases "vtype v") (auto simp: value_arg_def get_put_value_def bind_eq_Some_conv)
  qed
qed

lemma arg_type_facts: "type_of_int (int_of_type (arg_type a)) = arg_type a" "arg_type a \<noteq> TYPE_NONE"
  by (cases a; simp add: type_of_int_def)+

text \<open>Every argument of a parsed message can be read by its index.\<close>

lemma get_arg:
  assumes "message_wf r" and "used r = vs @ free" and "list_all2 (\<lambda>v a. value_arg v = Some a) vs as"
    and "i < length as" and "length as \<le> 2 ^ 31" and "arg_outs (as ! i) ps"
  shows "\<exists>out'. smp_message_get (Some r) (of_nat i) (va_typed (arg_type (as ! i)) (map (VaOut \<circ> Some) ps)) out
      = Some (Inr (), out') \<and>
    out_arg (arg_type (as ! i)) ps out' = Some (as ! i) \<and> (\<forall>p. p \<notin> set ps \<longrightarrow> out' p = out p)"
proof -
  have len: "length vs = length as" using list_all2_lengthD [OF assms(3)] .
  have v: "value_arg (used r ! i) = Some (as ! i)"
    using list_all2_nthD2 [OF assms(3,4)] assms(2,4) len by (simp add: nth_append)
  have i: "unat (of_nat i :: c_int) = i" "\<not> negative (of_nat i)"
    using index_of_nat [of i] assms(4,5) by simp_all
  have "i < unat (capacity r)" using length_used [OF assms(1)] assms(2,4) len by simp
  then have "in_range r (of_nat i)" using i by (simp add: in_range_def)
  moreover have "length ps = (if arg_type (as ! i) = TYPE_RAW then 2 else 1)"
    using assms(6) by (simp add: arg_outs_def)
  ultimately have "smp_message_get (Some r) (of_nat i) (va_typed (arg_type (as ! i)) (map (VaOut \<circ> Some) ps)) out =
    (case get_put_value (arg_type (as ! i)) (used r ! i) (map (VaOut \<circ> Some) ps) out of
       None \<Rightarrow> None
     | Some (Inl e, out') \<Rightarrow> Some (Inl e, out')
     | Some (Inr _, out') \<Rightarrow> Some (Inr (), out'))"
    using get_one [of ps "arg_type (as ! i)" "int_of_type (arg_type (as ! i))" r "of_nat i" out]
      assms(1) arg_type_facts value_arg_type [OF v] i(1)
    by (simp add: va_typed_def)
  with get_put_arg [OF v assms(6), of out] show ?thesis by auto
qed

text \<open>
  C21: Application to application: arguments that one call sets on an empty message are encoded, for
  any buffer of the encoded size, and the bytes parse into any empty message with room for them, where
  the getter for the type of each argument stores exactly that argument in the caller's variables and
  writes nothing else. A \<open>float\<close> that is a signalling NaN is excluded: the variadic call quiets it.
\<close>

theorem api_transfer:
  assumes "message_wf m" and "untyped (used m)" and "length as \<le> unat (capacity m)"
    and "length as \<le> 2 ^ 31" and "as \<noteq> []"
    and "\<forall>a\<in>set as. arg_promotable a \<and> arg_wf a \<and> arg_fits a"
    and "length (args_wire bo as) < 2 ^ 32" and "8 + length (args_wire bo as) \<le> unat sz"
    and "unat sz \<le> length buf" and "length buf \<le> PTRDIFF_MAX"
    and "message_wf r" and "untyped (used r)"
    and "length as \<le> unat (capacity r) \<or> \<not> msg_static r \<and> grants alloc (48 * length as)"
  shows "\<exists>m' buf' n r'. smp_message_set (Some m) 0 (args_va 0 as) = Some (Inr (), Some m') \<and>
    smp_message_encode bo (Some m') (Some buf) sz = Some (Inr n, Some buf') \<and>
    smp_message_build_from_buffer bo alloc (Some r) (Some buf') n = Some (Inr (), Some r') \<and>
    msgid r' = msgid m \<and>
    (\<forall>i<length as. \<forall>ps out. arg_outs (as ! i) ps \<longrightarrow>
      (\<exists>out'. smp_message_get (Some r') (of_nat i) (va_typed (arg_type (as ! i)) (map (VaOut \<circ> Some) ps)) out
          = Some (Inr (), out') \<and>
        out_arg (arg_type (as ! i)) ps out' = Some (as ! i) \<and> (\<forall>p. p \<notin> set ps \<longrightarrow> out' p = out p)))"
proof -
  have args: "\<forall>a\<in>set as. arg_promotable a" "\<forall>a\<in>set as. arg_wf a \<and> arg_fits a" "\<forall>a\<in>set as. arg_fits a"
    using assms(6) by simp_all
  obtain m' where m': "smp_message_set (Some m) 0 (args_va 0 as) = Some (Inr (), Some m')"
    "message_args m' = Some as" "msgid m' = msgid m"
    using set_args_message [OF assms(1-5) args(1,2)] by blast
  have "length buf < 2 ^ 64" using assms(10) by (simp add: PTRDIFF_MAX_def)
  from encode_message(3) [OF m'(2) assms(7,9) this assms(8) refl] obtain n buf' where
    enc: "smp_message_encode bo (Some m') (Some buf) sz = Some (Inr n, Some buf')" by blast
  obtain r' vs free where
    r': "smp_message_build_from_buffer bo alloc (Some r) (Some buf') n = Some (Inr (), Some r')"
    "message_wf r'" "msgid r' = msgid m'" "used r' = vs @ free"
    "list_all2 (\<lambda>v a. value_arg v = Some a) vs as"
    by (rule encode_then_build [OF m'(2) args(3) assms(7,9,10) enc assms(11-13)])
  have "\<forall>i<length as. \<forall>ps out. arg_outs (as ! i) ps \<longrightarrow>
      (\<exists>out'. smp_message_get (Some r') (of_nat i) (va_typed (arg_type (as ! i)) (map (VaOut \<circ> Some) ps)) out
          = Some (Inr (), out') \<and>
        out_arg (arg_type (as ! i)) ps out' = Some (as ! i) \<and> (\<forall>p. p \<notin> set ps \<longrightarrow> out' p = out p))"
    by (intro allI impI) (rule get_arg [OF r'(2,4,5) _ assms(4)])
  moreover have "msgid r' = msgid m" using r'(3) m'(3) by simp
  ultimately show ?thesis using m'(1) enc r'(1) by blast
qed

text \<open>An \<open>int16\<close> and a string through a buffer of 20 bytes.\<close>

theorem api_transfer_witness:
  "\<exists>m' buf' n r'. smp_message_set (Some (empty_message True)) 0
      [VaInt 4, VaInt (- 5), VaInt 1, VaInt 9, VaPtr (Some [104, 105, 0]), VaInt (- 1)] = Some (Inr (), Some m') \<and>
    smp_message_encode LittleEndian (Some m') (Some (replicate 20 0)) 20 = Some (Inr n, Some buf') \<and>
    smp_message_build_from_buffer LittleEndian (\<lambda>_. False) (Some (empty_message True)) (Some buf') n
      = Some (Inr (), Some r') \<and>
    (\<exists>out'. smp_message_get_int16 (Some r') 0 (Some 40) (\<lambda>_. None) = Some (Inr (), out') \<and>
      out_arg TYPE_INT16 [40] out' = Some (AI16 (- 5)))"
proof -
  let ?as = "[AI16 (- 5), AStr [104, 105]]"
  have va: "args_va 0 ?as = [VaInt 4, VaInt (- 5), VaInt 1, VaInt 9, VaPtr (Some [104, 105, 0]), VaInt (- 1)]"
    by (simp add: arg_item_def)
  have len: "length (args_wire LittleEndian ?as) = 9" by (simp add: arg_wire_def)
  have outs: "arg_outs (?as ! 0) [40]" by (simp add: arg_outs_def)
  from api_transfer [of "empty_message True" ?as LittleEndian 20 "replicate 20 0" "empty_message True" "\<lambda>_. False"]
  obtain m' buf' n r' where
    r': "smp_message_set (Some (empty_message True)) 0 (args_va 0 ?as) = Some (Inr (), Some m')"
    "smp_message_encode LittleEndian (Some m') (Some (replicate 20 0)) 20 = Some (Inr n, Some buf')"
    "smp_message_build_from_buffer LittleEndian (\<lambda>_. False) (Some (empty_message True)) (Some buf') n
      = Some (Inr (), Some r')"
    and get: "\<forall>i<length ?as. \<forall>ps out. arg_outs (?as ! i) ps \<longrightarrow>
      (\<exists>out'. smp_message_get (Some r') (of_nat i) (va_typed (arg_type (?as ! i)) (map (VaOut \<circ> Some) ps)) out
          = Some (Inr (), out') \<and>
        out_arg (arg_type (?as ! i)) ps out' = Some (?as ! i) \<and> (\<forall>p. p \<notin> set ps \<longrightarrow> out' p = out p))"
    unfolding len by (auto simp: empty_message_facts PTRDIFF_MAX_def simp del: args_va.simps)
  have "0 < length ?as" by simp
  with get outs have "\<exists>out'. smp_message_get (Some r') (of_nat 0) (va_typed (arg_type (?as ! 0)) (map (VaOut \<circ> Some) [40]))
      (\<lambda>_. None) = Some (Inr (), out') \<and> out_arg (arg_type (?as ! 0)) [40] out' = Some (?as ! 0)"
    by blast
  then have "\<exists>out'. smp_message_get_int16 (Some r') 0 (Some 40) (\<lambda>_. None) = Some (Inr (), out') \<and>
      out_arg TYPE_INT16 [40] out' = Some (AI16 (- 5))"
    by (simp add: smp_message_get_int16_def)
  with r' va show ?thesis by metis
qed

end
