(* ===== verification/Smp_Narrow.thy ===== *)
theory Smp_Narrow
  imports Smp_Message
begin

text \<open>
  The size checks of the message header and of the string and raw decoders of \<open>src/message.c\<close> for a
  \<open>size_t\<close> of any width. The other theories fix 64 bits. The library also runs on 32-bit boards and on
  the AVR, whose \<open>size_t\<close> has 16 bits, as many as the size field of these arguments, so that
  \<open>2 + strsize\<close> and \<open>2 + rawsize\<close> can wrap there; the size in the header has 32 bits. The last section
  is the load and the store of a \<open>double\<close> where it has fewer than 8 bytes.
\<close>

section \<open>Decoders\<close>

definition decode_string_width ::
  "byte_order \<Rightarrow> mem \<Rightarrow> 'n::len word \<Rightarrow> mem option option" where
  "decode_string_width bo buffer sz =
     (if sz < 2 then Some None
      else do {
        w \<leftarrow> smp_read_uint16 bo buffer;
        let strsize = ucast w;
        if sz < 2 + strsize then Some None
        else do {
          last_byte \<leftarrow> mem_get buffer (unat (2 + strsize - 1));
          if last_byte \<noteq> 0 then Some None
          else do { s \<leftarrow> ptr_add buffer 2; Some (Some s) }
        }
      })"

text \<open>The pointer and the size that the value receives, \<open>craw\<close> and \<open>craw_size\<close>.\<close>

definition decode_raw_width ::
  "byte_order \<Rightarrow> mem \<Rightarrow> 'n::len word \<Rightarrow> (smp_error + mem \<times> 'n word) option" where
  "decode_raw_width bo buffer sz =
     (if sz < 2 then Some (Inl SMP_ERROR_BAD_MESSAGE)
      else do {
        w \<leftarrow> smp_read_uint16 bo buffer;
        let rawsize = ucast w;
        if sz < 2 + rawsize then Some (Inl SMP_ERROR_BAD_MESSAGE)
        else do { p \<leftarrow> ptr_add buffer 2; Some (Inr (p, rawsize)) }
      })"

lemma decode_string_width_64: "decode_string_width bo buffer (sz :: size_t) = smp_message_decode_string bo buffer sz"
  by (simp add: decode_string_width_def smp_message_decode_string_def)

lemma decode_raw_width_64:
  "smp_message_decode_raw bo v buffer (sz :: size_t) =
     map_option (\<lambda>r. case r of Inl e \<Rightarrow> (Inl e, v)
                    | Inr (p, n) \<Rightarrow> (Inr (), v\<lparr>vval := UCraw (Some p) n\<rparr>)) (decode_raw_width bo buffer sz)"
  by (simp add: decode_raw_width_def smp_message_decode_raw_def Let_def split: option.split Option.bind_split)

section \<open>The sum of a size field and 2\<close>



section \<open>What the checks accept\<close>






section \<open>The size in the header\<close>

definition header_accepts_width :: "byte_order \<Rightarrow> mem \<Rightarrow> 'n::len word \<Rightarrow> bool option" where
  "header_accepts_width bo buf sz =
     (if sz < 8 then Some False
      else do {
        ident \<leftarrow> smp_read_uint32 bo buf;
        p4 \<leftarrow> ptr_add buf 4;
        w \<leftarrow> smp_read_uint32 bo p4;
        let argsize = ucast w;
        Some (\<not> sz < 8 + argsize)
      })"

text \<open>With 64 bits it is the check of the parser: a header that is not accepted ends the parsing.\<close>

lemma header_accepts_64:
  "header_accepts_width bo buf (sz :: size_t) = Some False \<Longrightarrow>
   \<exists>m'. smp_message_build_from_buffer bo alloc (Some m) (Some buf) sz = Some (Inl SMP_ERROR_BAD_MESSAGE, Some m')"
  "header_accepts_width bo buf (sz :: size_t) = None \<Longrightarrow>
   smp_message_build_from_buffer bo alloc (Some m) (Some buf) sz = None"
  by (auto simp: header_accepts_width_def smp_message_build_from_buffer_def MSG_HEADER_SIZE_def
      bind_eq_Some_conv bind_eq_None_conv Let_def split: if_splits)

lemma unat_small_numeral:
  assumes "16 \<le> LENGTH('n::len)" and "k < 2 ^ 16"
  shows "unat (of_nat k :: 'n word) = k"
proof -
  have "(2 :: nat) ^ 16 \<le> 2 ^ LENGTH('n)" using assms(1) by (intro power_increasing) simp_all
  with assms(2) show ?thesis by (simp add: unat_of_nat take_bit_nat_eq_self)
qed

lemma unat_header_end:
  fixes w :: u32
  assumes "16 \<le> LENGTH('n::len)"
  shows "unat (8 + ucast w :: 'n word) = (8 + unat w) mod 2 ^ LENGTH('n)"
proof -
  have "unat (8 :: 'n word) = 8" using unat_small_numeral [OF assms, of 8] by simp
  moreover have "unat (ucast w :: 'n word) = unat w mod 2 ^ LENGTH('n)"
    by (simp add: unsigned_ucast_eq take_bit_eq_mod)
  ultimately show ?thesis by (simp add: unat_word_ariths mod_simps)
qed

text \<open>
  C24: A \<open>size_t\<close> of more than 32 bits makes the check of the size in the header exact: a message is
  accepted if and only if it declares no more bytes of arguments than it has. On a 32-bit or a 16-bit
  platform the declared size is compared modulo the width, header included, so that the largest
  sizes, and on the AVR some of every 65536, pass in a message that has no argument at all.
\<close>

theorem declared_size_check:
  fixes sz :: "'n::len word"
  assumes "16 \<le> LENGTH('n)" and "8 \<le> unat sz" and "unat sz \<le> length buf" and "length buf \<le> PTRDIFF_MAX"
    and "smp_read_uint32 bo (drop 4 buf) = Some w"
  shows "header_accepts_width bo buf sz = Some ((8 + unat w) mod 2 ^ LENGTH('n) \<le> unat sz) \<and>
    (32 < LENGTH('n) \<longrightarrow> (8 + unat w) mod 2 ^ LENGTH('n) = 8 + unat w)"
proof -
  have w: "unat w < 2 ^ 32" using unsigned_less [of w] by simp
  have eight: "\<not> sz < 8"
    using assms(2) unat_small_numeral [OF assms(1), of 8] by (simp add: word_less_nat_alt)
  have "smp_read_uint32 bo buf \<noteq> None" "ptr_add buf 4 = Some (drop 4 buf)"
    using assms(2-4) by (simp_all add: smp_read_uint32_def mem_read_def ptr_add_def)
  with eight assms(5) have "header_accepts_width bo buf sz = Some (\<not> sz < 8 + ucast w)"
    by (auto simp: header_accepts_width_def Let_def)
  moreover have "sz < 8 + ucast w \<longleftrightarrow> \<not> (8 + unat w) mod 2 ^ LENGTH('n) \<le> unat sz"
    by (simp add: word_less_nat_alt unat_header_end [OF assms(1)] not_le)
  moreover have "8 + unat w < 2 ^ LENGTH('n)" if "32 < LENGTH('n)"
  proof -
    have "(2 :: nat) ^ 33 \<le> 2 ^ LENGTH('n)" using that by (intro power_increasing) simp_all
    with w show ?thesis by simp
  qed
  ultimately show ?thesis by simp
qed

text \<open>A header alone that declares 2^32 - 1 bytes of arguments: accepted with 32 bits, not with 64.\<close>

theorem declared_size_check_witness:
  "header_accepts_width LittleEndian [33, 0, 0, 0, 0xFF, 0xFF, 0xFF, 0xFF] (8 :: 32 word) = Some True \<and>
   header_accepts_width LittleEndian [33, 0, 0, 0, 0xFF, 0xFF, 0xFF, 0xFF] (8 :: size_t) = Some False"
  using declared_size_check [where sz = "8 :: 32 word" and buf = "[33, 0, 0, 0, 0xFF, 0xFF, 0xFF, 0xFF]" and
      bo = LittleEndian and w = "0xFFFFFFFF"]
    declared_size_check [where sz = "8 :: size_t" and buf = "[33, 0, 0, 0, 0xFF, 0xFF, 0xFF, 0xFF]" and
      bo = LittleEndian and w = "0xFFFFFFFF"]
  by (simp add: smp_read_uint32_def mem_read_def object_word_def bytes_word_def PTRDIFF_MAX_def)

section \<open>A double of four bytes\<close>

text \<open>
  \<open>smp_read_f64\<close> and \<open>smp_write_f64\<close> where \<open>double\<close> has the width of \<open>'f\<close>, at most 64 bits: the two
  members of the union begin at the same byte. The bytes of the integer that the \<open>double\<close> does not
  cover are \<open>junk\<close> when it is written. On the AVR a \<open>double\<close> has 4 bytes.
\<close>

definition smp_read_f64_width :: "byte_order \<Rightarrow> mem \<Rightarrow> 'f::len word option" where
  "smp_read_f64_width bo data =
     do {
       u64 \<leftarrow> smp_read_uint64 bo data;
       Some (object_word bo (take (LENGTH('f) div 8) (object_bytes bo 8 u64)))
     }"

definition smp_write_f64_width ::
  "byte_order \<Rightarrow> byte list \<Rightarrow> mem \<Rightarrow> nat \<Rightarrow> 'f::len word \<Rightarrow> mem option" where
  "smp_write_f64_width bo junk data off value =
     (let f64 = object_bytes bo (LENGTH('f) div 8) value;
          u64 = object_word bo (take 8 (f64 @ junk))
      in smp_write_uint64 bo data off u64)"

text \<open>With 8 bytes these are the functions the other theories use.\<close>

lemma smp_read_f64_width_64: "smp_read_f64_width bo data = smp_read_f64 bo data"
  by (cases "smp_read_uint64 bo data")
    (simp_all add: smp_read_f64_width_def smp_read_f64_def object_word_object_bytes)

lemma smp_write_f64_width_64: "smp_write_f64_width bo junk data off (value :: u64) = smp_write_f64 bo data off value"
  by (simp add: smp_write_f64_width_def smp_write_f64_def object_word_object_bytes)

text \<open>
  With 4 bytes, on a little-endian target as the AVR is, the lower half of the 64 bits is taken for
  the number, and the upper half, with the sign and the exponent, is dropped: a \<open>double\<close> that a host
  sends arrives as another number.
\<close>

lemma bit_object_word_take:
  "bit (object_word LittleEndian (take n bs) :: 'f::len word) i \<longleftrightarrow>
     i < LENGTH('f) \<and> i div 8 < n \<and> i div 8 < length bs \<and> bit (bs ! (i div 8)) (i mod 8)"
  by (auto simp: object_word_def bit_bytes_word)

theorem f64_low_half:
  assumes that: "LENGTH('f::len) = 32"
  shows "(smp_read_f64_width LittleEndian data :: 'f word option) = map_option ucast (smp_read_f64 LittleEndian data)"
proof -
  have "object_word LittleEndian (take (LENGTH('f) div 8) (object_bytes LittleEndian 8 u)) = (ucast u :: 'f word)"
    for u :: u64
  proof (rule bit_eqI)
    fix i
    assume "possible_bit TYPE('f word) i"
    then have i: "i < 32" by (simp add: possible_bit_word that)
    then have "i div 8 < 4" by (simp add: less_mult_imp_div_less)
    then show "bit (object_word LittleEndian (take (LENGTH('f) div 8) (object_bytes LittleEndian 8 u)) :: 'f word) i \<longleftrightarrow>
        bit (ucast u :: 'f word) i"
      using i by (simp add: bit_object_word_take object_bytes_def word_bytes_def bit_simps that)
  qed
  then show ?thesis
    by (cases "smp_read_uint64 LittleEndian data") (simp_all add: smp_read_f64_width_def smp_read_f64_def)
qed

text \<open>The number 1, sent as a \<open>double\<close> of 8 bytes, is received as 0.\<close>

theorem f64_one_received_as_zero:
  "smp_read_f64_width LittleEndian (object_bytes LittleEndian 8 (0x3FF0000000000000 :: u64)) = Some (0 :: 32 word)"
proof -
  have "smp_read_uint64 LittleEndian (object_bytes LittleEndian 8 (0x3FF0000000000000 :: u64)) =
      Some 0x3FF0000000000000"
    by (simp add: smp_read_uint64_def mem_read_def object_word_object_bytes)
  then show ?thesis
    using f64_low_half [of "object_bytes LittleEndian 8 (0x3FF0000000000000 :: u64)", where 'f = 32]
    by (simp add: smp_read_f64_def)
qed

end
