(* ===== verification/Smp_Device.thy ===== *)
theory Smp_Device
  imports Smp_Error
begin

text \<open>
  The serial device a context talks to: the functions of \<open>src/serial-device.h\<close>, one of whose
  implementations (\<open>serial-device-posix.c\<close>, \<open>serial-device-avr.c\<close>, \<open>serial-device-win32.c\<close>,
  \<open>serial-device-arduino.cpp\<close>) is linked into the library. The table of the functions is a record over the type of the device
  state, which holds the structure \<open>SmpSerialDevice\<close> and the world behind it. \<^const>\<open>None\<close> is an
  operation that never returns or has undefined behaviour.
\<close>

section \<open>Configuration\<close>

datatype smp_serial_baudrate =
    BAUDRATE_1200 | BAUDRATE_2400 | BAUDRATE_4800 | BAUDRATE_9600 | BAUDRATE_19200
  | BAUDRATE_38400 | BAUDRATE_57600 | BAUDRATE_115200 | BAUDRATE_230400 | BAUDRATE_460800
  | BAUDRATE_921600 | BAUDRATE_1000000 | BAUDRATE_2000000 | BAUDRATE_4000000
  | BAUDRATE_OTHER int

datatype smp_serial_parity = PARITY_NONE | PARITY_ODD | PARITY_EVEN | PARITY_OTHER int

section \<open>Functions\<close>

text \<open>A read returns the bytes it stored in the caller's buffer, at most as many as asked for.\<close>

record 'd device_ops =
  dev_init :: "'d \<Rightarrow> 'd"
  dev_open :: "'d \<Rightarrow> string \<Rightarrow> ((smp_error + int) \<times> 'd) option"
  dev_close :: "'d \<Rightarrow> 'd option"
  dev_get_fd :: "'d \<Rightarrow> smp_error + int"
  dev_set_config :: "'d \<Rightarrow> smp_serial_baudrate \<Rightarrow> smp_serial_parity \<Rightarrow> bool
    \<Rightarrow> ((smp_error + unit) \<times> 'd) option"
  dev_write :: "'d \<Rightarrow> byte list \<Rightarrow> ((smp_error + size_t) \<times> 'd) option"
  dev_read :: "'d \<Rightarrow> nat \<Rightarrow> ((smp_error + byte list) \<times> 'd) option"
  dev_wait :: "'d \<Rightarrow> 32 word \<Rightarrow> ((smp_error + unit) \<times> 'd) option"

section \<open>The contract\<close>

text \<open>
  What a context relies on. \<open>sent\<close> are the bytes the device has put on the line, \<open>pending\<close> those
  it has received or will receive and that were not read. A device can lose received bytes
  when it is not read in time; \<open>healthy\<close> says that it has not.
\<close>

locale serial_device =
  fixes ops :: "'d device_ops"
    and is_open :: "'d \<Rightarrow> bool"
    and sent :: "'d \<Rightarrow> byte list"
    and pending :: "'d \<Rightarrow> byte list"
    and healthy :: "'d \<Rightarrow> bool"
  assumes write_sent: "is_open d \<Longrightarrow> length bs < 2 ^ 64 \<Longrightarrow> dev_write ops d bs = Some (Inr n, d') \<Longrightarrow>
      is_open d' \<and> unat n \<le> length bs \<and> sent d' = sent d @ take (unat n) bs"
    and read_pending: "is_open d \<Longrightarrow> dev_read ops d k = Some (Inr bs, d') \<Longrightarrow>
      is_open d' \<and> length bs \<le> k \<and> sent d' = sent d \<and>
      (healthy d' \<longrightarrow> healthy d \<and> pending d = bs @ pending d')"
    and read_error: "is_open d \<Longrightarrow> dev_read ops d k = Some (Inl e, d') \<Longrightarrow>
      is_open d' \<and> sent d' = sent d \<and> (healthy d' \<longrightarrow> healthy d \<and> pending d' = pending d)"
    and read_returns: "is_open d \<Longrightarrow> dev_read ops d k \<noteq> None"
    and read_shrinks: "is_open d \<Longrightarrow> dev_read ops d k = Some (Inr bs, d') \<Longrightarrow>
      length (pending d') + length bs \<le> length (pending d)"

text \<open>A device that can also be waited for: waiting loses nothing that reading would not lose.\<close>

locale waiting_device = serial_device ops is_open sent pending healthy
  for ops :: "'d device_ops" and is_open sent pending healthy +
  assumes wait_keeps: "is_open d \<Longrightarrow> dev_wait ops d t = Some (r, d') \<Longrightarrow>
      is_open d' \<and> sent d' = sent d \<and> (healthy d' \<longrightarrow> healthy d \<and> pending d' = pending d)"

text \<open>
  The life of a device: opening opens it, and no other call but closing closes it. \<open>sound\<close> is what
  the device keeps at all times, opened or not.
\<close>

locale managed_device =
  fixes ops :: "'d device_ops"
    and is_open :: "'d \<Rightarrow> bool"
    and sound :: "'d \<Rightarrow> bool"
  assumes init_sound: "sound d \<Longrightarrow> sound (dev_init ops d)"
    and open_opens: "sound d \<Longrightarrow> dev_open ops d path = Some (r, d') \<Longrightarrow>
      sound d' \<and> (\<forall>fd. r = Inr fd \<longrightarrow> is_open d')"
    and close_sound: "sound d \<Longrightarrow> dev_close ops d = Some d' \<Longrightarrow> sound d'"
    and config_keeps: "sound d \<Longrightarrow> dev_set_config ops d baudrate parity fc = Some (s, d') \<Longrightarrow>
      sound d' \<and> (is_open d \<longrightarrow> is_open d')"
    and write_keeps: "sound d \<Longrightarrow> is_open d \<Longrightarrow> dev_write ops d bs = Some (w, d') \<Longrightarrow> sound d' \<and> is_open d'"
    and read_keeps: "sound d \<Longrightarrow> is_open d \<Longrightarrow> dev_read ops d k = Some (a, d') \<Longrightarrow> sound d' \<and> is_open d'"
    and wait_keeps_open: "sound d \<Longrightarrow> is_open d \<Longrightarrow> dev_wait ops d t = Some (s, d') \<Longrightarrow> sound d' \<and> is_open d'"

text \<open>
  The uses of a device by a context: opened when it is not, closed, written, read and waited for
  when it is, configured at any time. The truth value is \<open>opened\<close> of the context.
\<close>

inductive device_life :: "('d \<Rightarrow> bool) \<Rightarrow> 'd device_ops \<Rightarrow> 'd \<Rightarrow> bool \<Rightarrow> bool"
  for start :: "'d \<Rightarrow> bool" and ops :: "'d device_ops" where
  life_init: "start d \<Longrightarrow> device_life start ops (dev_init ops d) False"
| life_open: "device_life start ops d False \<Longrightarrow> dev_open ops d path = Some (r, d') \<Longrightarrow>
    device_life start ops d' (\<not> isl r)"
| life_close: "device_life start ops d True \<Longrightarrow> dev_close ops d = Some d' \<Longrightarrow> device_life start ops d' False"
| life_config: "device_life start ops d opened \<Longrightarrow> dev_set_config ops d baudrate parity fc = Some (s, d') \<Longrightarrow>
    device_life start ops d' opened"
| life_write: "device_life start ops d True \<Longrightarrow> dev_write ops d bs = Some (w, d') \<Longrightarrow> device_life start ops d' True"
| life_read: "device_life start ops d True \<Longrightarrow> dev_read ops d k = Some (a, d') \<Longrightarrow> device_life start ops d' True"
| life_wait: "device_life start ops d True \<Longrightarrow> dev_wait ops d t = Some (s, d') \<Longrightarrow> device_life start ops d' True"

context managed_device
begin

lemma life_safe: "device_life sound ops d opened \<Longrightarrow> sound d \<and> (opened \<longrightarrow> is_open d)"
proof (induction rule: device_life.induct)
  case (life_open d path r d')
  then show ?case using open_opens [of d path r d'] by (cases r) auto
next
  case (life_config d opened baudrate parity fc s d')
  then show ?case using config_keeps by blast
next
  case (life_write d bs w d')
  then show ?case using write_keeps by blast
next
  case (life_read d k a d')
  then show ?case using read_keeps by blast
next
  case (life_wait d t s d')
  then show ?case using wait_keeps_open by blast
qed (auto intro: init_sound close_sound)

end

end
