(* ===== verification/Smp_Context.thy ===== *)
theory Smp_Context
  imports Smp_Device Smp_Buffer Smp_Message Smp_Serial_Protocol
begin

text \<open>
  The context of \<open>src/context.c\<close> and \<open>src/context.h\<close>: it ties a serial device, a frame decoder,
  the transmit buffers and the message used for reception together, and reports messages and
  errors to callbacks of the application.

  The userdata of the application is a component of the context; a callback is a function from
  the context (and a message or an error) to the context it leaves. The callbacks are an
  argument of the operations that call them: \<open>smp_context_init\<close> copies them and nothing changes
  them afterwards. The choices of the build (device, byte order, chunk size, whether \<open>__AVR\<close> is
  defined) are the record \<open>platform\<close>, the answers of the allocator the record \<open>answers\<close>. Messages are
  encoded and parsed here with a \<open>size_t\<close> of 64 bits and a \<open>double\<close> of 8 bytes: for the AVR, where
  both are smaller, the theories of the device and \<open>Smp_Narrow\<close> are what holds.
\<close>

section \<open>State\<close>

record ('d, 'u) smp_context =
  ctx_decoder :: decoder
  ctx_device :: 'd
  ctx_userdata :: 'u
  ctx_opened :: bool
  ctx_static :: bool
  ctx_msg_tx :: "smp_buffer option"
  ctx_serial_tx :: "smp_buffer option"
  ctx_msg_rx :: "message option"

record ('d, 'u) callbacks =
  new_message_cb :: "(('d, 'u) smp_context \<Rightarrow> message \<Rightarrow> ('d, 'u) smp_context) option"
  error_cb :: "(('d, 'u) smp_context \<Rightarrow> smp_error \<Rightarrow> ('d, 'u) smp_context) option"

record 'd platform =
  plat_ops :: "'d device_ops"
  plat_order :: byte_order
  plat_chunk :: nat
  plat_avr :: bool

text \<open>One predicate for each place that allocates, and what \<open>malloc\<close> leaves in a new block.\<close>

record answers =
  al_context :: "size_t \<Rightarrow> bool"
  al_decoder :: "size_t \<Rightarrow> bool"
  al_decoder_buf :: "size_t \<Rightarrow> bool"
  al_message :: "size_t \<Rightarrow> bool"
  al_values :: "size_t \<Rightarrow> bool"
  al_buffer :: "size_t \<Rightarrow> bool"
  al_buffer_data :: "size_t \<Rightarrow> bool"
  al_serial :: "size_t \<Rightarrow> bool"
  al_junk :: "nat \<Rightarrow> byte"

definition SIZEOF_CONTEXT :: size_t where
  "SIZEOF_CONTEXT = 72"

section \<open>Creation and release\<close>

text \<open>\<open>storage\<close> is the structure the context is built in; \<open>calloc\<close> clears it.\<close>

definition smp_context_init ::
  "'d platform \<Rightarrow> ('d, 'u) smp_context \<Rightarrow> decoder \<Rightarrow> 'u \<Rightarrow> bool \<Rightarrow> ('d, 'u) smp_context" where
  "smp_context_init plat storage decoder userdata statically_allocated =
     storage\<lparr>ctx_decoder := decoder,
       ctx_device := dev_init (plat_ops plat) (ctx_device storage),
       ctx_userdata := userdata,
       ctx_opened := False,
       ctx_static := statically_allocated\<rparr>"

definition cleared_context :: "'d \<Rightarrow> 'u \<Rightarrow> ('d, 'u) smp_context" where
  "cleared_context dev userdata =
     \<lparr>ctx_decoder = zeroed_decoder, ctx_device = dev, ctx_userdata = userdata, ctx_opened = False,
      ctx_static = False, ctx_msg_tx = None, ctx_serial_tx = None, ctx_msg_rx = None\<rparr>"

definition smp_context_new ::
  "'d platform \<Rightarrow> answers \<Rightarrow> 'd \<Rightarrow> ('d, 'u) callbacks option \<Rightarrow> 'u \<Rightarrow> ('d, 'u) smp_context option" where
  "smp_context_new plat al dev cbs userdata =
     (if cbs = None then None
      else if \<not> al_context al SIZEOF_CONTEXT then None
      else case smp_serial_protocol_decoder_new (plat_avr plat) (al_decoder al) (al_decoder_buf al) 0 of
          None \<Rightarrow> None
        | Some decoder \<Rightarrow>
            Some (smp_context_init plat (cleared_context dev userdata) decoder userdata False))"

definition smp_context_new_from_static ::
  "'d platform \<Rightarrow> ('d, 'u) smp_context option \<Rightarrow> size_t \<Rightarrow> ('d, 'u) callbacks option \<Rightarrow> 'u \<Rightarrow> decoder option
   \<Rightarrow> smp_buffer option \<Rightarrow> smp_buffer option \<Rightarrow> message option \<Rightarrow> ('d, 'u) smp_context option" where
  "smp_context_new_from_static plat sctx struct_size cbs userdata decoder serial_tx msg_tx msg_rx =
     (case sctx of
        None \<Rightarrow> None
      | Some storage \<Rightarrow>
          if \<not> struct_size \<ge> SIZEOF_CONTEXT then None
          else if cbs = None then None
          else (case decoder of
              None \<Rightarrow> None
            | Some dec \<Rightarrow>
                if msg_tx = None then None
                else if serial_tx = None then None
                else if msg_rx = None then None
                else Some ((smp_context_init plat storage dec userdata True)
                       \<lparr>ctx_serial_tx := serial_tx, ctx_msg_tx := msg_tx, ctx_msg_rx := msg_rx\<rparr>)))"

datatype context_release = ReleaseDecoder decoder_release | ReleaseContext

definition smp_context_free :: "('d, 'u) smp_context option \<Rightarrow> context_release list" where
  "smp_context_free ctx =
     (case ctx of
        None \<Rightarrow> []
      | Some c \<Rightarrow>
          if ctx_static c then []
          else map ReleaseDecoder (smp_serial_protocol_decoder_free (Some (ctx_decoder c)))
               @ [ReleaseContext])"

section \<open>The device\<close>

definition smp_context_open ::
  "'d platform \<Rightarrow> ('d, 'u) smp_context option \<Rightarrow> string option
   \<Rightarrow> ((smp_error + unit) \<times> ('d, 'u) smp_context option) option" where
  "smp_context_open plat ctx device =
     (case ctx of
        None \<Rightarrow> Some (Inl SMP_ERROR_INVALID_PARAM, None)
      | Some c \<Rightarrow> (case device of
          None \<Rightarrow> Some (Inl SMP_ERROR_INVALID_PARAM, ctx)
        | Some path \<Rightarrow>
            if ctx_opened c then Some (Inl SMP_ERROR_BUSY, ctx)
            else do {
              (ret, dev) \<leftarrow> dev_open (plat_ops plat) (ctx_device c) path;
              let c = c\<lparr>ctx_device := dev\<rparr>;
              Some (case ret of
                  Inl e \<Rightarrow> (Inl e, Some c)
                | Inr _ \<Rightarrow> (Inr (), Some (c\<lparr>ctx_opened := True\<rparr>)))
            }))"

definition smp_context_close ::
  "'d platform \<Rightarrow> ('d, 'u) smp_context option \<Rightarrow> ('d, 'u) smp_context option option" where
  "smp_context_close plat ctx =
     (case ctx of
        None \<Rightarrow> Some None
      | Some c \<Rightarrow>
          if \<not> ctx_opened c then Some ctx
          else do {
            dev \<leftarrow> dev_close (plat_ops plat) (ctx_device c);
            Some (Some (c\<lparr>ctx_device := dev, ctx_opened := False\<rparr>))
          })"

definition smp_context_set_serial_config ::
  "'d platform \<Rightarrow> ('d, 'u) smp_context option \<Rightarrow> smp_serial_baudrate \<Rightarrow> smp_serial_parity \<Rightarrow> bool
   \<Rightarrow> ((smp_error + unit) \<times> ('d, 'u) smp_context option) option" where
  "smp_context_set_serial_config plat ctx baudrate parity flow_control =
     (case ctx of
        None \<Rightarrow> Some (Inl SMP_ERROR_INVALID_PARAM, None)
      | Some c \<Rightarrow>
          do {
            (ret, dev) \<leftarrow> dev_set_config (plat_ops plat) (ctx_device c) baudrate parity flow_control;
            Some (ret, Some (c\<lparr>ctx_device := dev\<rparr>))
          })"

definition smp_context_get_fd ::
  "'d platform \<Rightarrow> ('d, 'u) smp_context option \<Rightarrow> smp_error + int" where
  "smp_context_get_fd plat ctx =
     (case ctx of
        None \<Rightarrow> Inl SMP_ERROR_INVALID_PARAM
      | Some c \<Rightarrow> dev_get_fd (plat_ops plat) (ctx_device c))"

definition smp_context_set_decoder_maximum_capacity ::
  "('d, 'u) smp_context option \<Rightarrow> size_t \<Rightarrow> (smp_error + unit) \<times> ('d, 'u) smp_context option" where
  "smp_context_set_decoder_maximum_capacity ctx mx =
     (case ctx of
        None \<Rightarrow> (Inl SMP_ERROR_INVALID_PARAM, None)
      | Some c \<Rightarrow>
          if \<not> mx > 16 then (Inl SMP_ERROR_INVALID_PARAM, ctx)
          else (case smp_serial_protocol_decoder_set_maximum_capacity (Some (ctx_decoder c)) mx of
              (ret, Some d) \<Rightarrow> (ret, Some (c\<lparr>ctx_decoder := d\<rparr>))
            | (ret, None) \<Rightarrow> (ret, ctx)))"

section \<open>Sending\<close>

text \<open>What a transmit buffer of the context holds after it was written.\<close>

definition buffer_written :: "smp_buffer option \<Rightarrow> mem \<Rightarrow> smp_buffer option" where
  "buffer_written buffer data = map_option (\<lambda>b. b\<lparr>buf_data := data\<rparr>) buffer"

definition send_release ::
  "('d, 'u) smp_context \<Rightarrow> smp_buffer \<Rightarrow> mem option \<Rightarrow> release list" where
  "send_release c msgbuf serial_buf =
     (if ctx_msg_tx c = None then smp_buffer_free (Some msgbuf) else [])
     @ (if ctx_serial_tx c = None \<and> serial_buf \<noteq> None then [ReleaseData] else [])"

text \<open>
  Steps 2 and 3: frame the first \<open>n\<close> bytes of the message buffer and write the frame to the
  device. The result also has the serial buffer, null when none was obtained.
\<close>

definition send_frame ::
  "'d platform \<Rightarrow> answers \<Rightarrow> ('d, 'u) smp_context \<Rightarrow> mem \<Rightarrow> size_t
   \<Rightarrow> ((smp_error + unit) \<times> mem option \<times> ('d, 'u) smp_context) option" where
  "send_frame plat al c data n =
     do {
       let (serial_buf, serial_bufsize) =
         (case ctx_serial_tx c of
            None \<Rightarrow> (None, 0)
          | Some b \<Rightarrow> (Some (buf_data b), buf_maxsize b));
       (ret, out) \<leftarrow> smp_serial_protocol_encode (al_serial al) (al_junk al) (Some data) n
         (Some serial_buf) serial_bufsize;
       serial \<leftarrow> out;
       case ret of
         Inl e \<Rightarrow> Some (Inl e, serial, c)
       | Inr encoded_size \<Rightarrow>
           do {
             txbuf \<leftarrow> serial;
             let c = c\<lparr>ctx_serial_tx := buffer_written (ctx_serial_tx c) txbuf\<rparr>;
             bytes \<leftarrow> mem_read txbuf 0 (unat encoded_size);
             (wret, dev) \<leftarrow> dev_write (plat_ops plat) (ctx_device c) bytes;
             let c = c\<lparr>ctx_device := dev\<rparr>;
             case wret of
               Inl e \<Rightarrow> Some (Inl e, serial, c)
             | Inr wbytes \<Rightarrow>
                 Some (if wbytes \<noteq> encoded_size then Inl SMP_ERROR_IO else Inr (), serial, c)
           }
     }"

text \<open>
  The whole function; the releases are those of the buffers it allocated, in order.
\<close>

definition smp_context_send_message ::
  "'d platform \<Rightarrow> answers \<Rightarrow> ('d, 'u) smp_context option \<Rightarrow> message option
   \<Rightarrow> ((smp_error + unit) \<times> release list \<times> ('d, 'u) smp_context option) option" where
  "smp_context_send_message plat al ctx msg =
     (case ctx of
        None \<Rightarrow> Some (Inl SMP_ERROR_INVALID_PARAM, [], None)
      | Some c \<Rightarrow>
          if msg = None then Some (Inl SMP_ERROR_INVALID_PARAM, [], ctx)
          else if \<not> ctx_opened c then Some (Inl SMP_ERROR_BAD_FD, [], ctx)
          else do {
            msgsize \<leftarrow> smp_message_get_encoded_size msg;
            let (msgbuf, early, rel) =
              (case ctx_msg_tx c of
                 None \<Rightarrow>
                   (case smp_buffer_new_allocate (al_buffer al) (al_buffer_data al) msgsize of
                      (None, rel) \<Rightarrow> (None, SMP_ERROR_NO_MEM, rel)
                    | (Some b, rel) \<Rightarrow> (Some b, SMP_ERROR_NONE, rel))
               | Some b \<Rightarrow>
                   if buf_maxsize b < msgsize then (None, SMP_ERROR_OVERFLOW, [])
                   else (Some b, SMP_ERROR_NONE, []));
            case msgbuf of
              None \<Rightarrow> Some (Inl early, rel, ctx)
            | Some b \<Rightarrow>
                do {
                  (ret, out) \<leftarrow> smp_message_encode (plat_order plat) msg (Some (buf_data b)) (buf_maxsize b);
                  data \<leftarrow> out;
                  let c = c\<lparr>ctx_msg_tx := buffer_written (ctx_msg_tx c) data\<rparr>;
                  case ret of
                    Inl e \<Rightarrow> Some (Inl e, send_release c b None, Some c)
                  | Inr n \<Rightarrow>
                      do {
                        (ret, serial, c) \<leftarrow> send_frame plat al c data n;
                        Some (ret, send_release c b serial, Some c)
                      }
                }
          })"

section \<open>Receiving\<close>

definition smp_context_notify_new_message ::
  "('d, 'u) callbacks \<Rightarrow> ('d, 'u) smp_context \<Rightarrow> message \<Rightarrow> ('d, 'u) smp_context" where
  "smp_context_notify_new_message cbs c msg =
     (case new_message_cb cbs of None \<Rightarrow> c | Some f \<Rightarrow> f c msg)"

definition smp_context_notify_error ::
  "('d, 'u) callbacks \<Rightarrow> ('d, 'u) smp_context \<Rightarrow> smp_error \<Rightarrow> ('d, 'u) smp_context" where
  "smp_context_notify_error cbs c err =
     (case error_cb cbs of None \<Rightarrow> c | Some f \<Rightarrow> f c err)"

text \<open>
  What becomes of the message a frame was parsed into: there was none, it was released, it was
  cleared, or it was left as it is.
\<close>

datatype message_fate = NoMessage | Released "message_release list" | Cleared | LeftAlone

definition smp_context_process_serial_frame ::
  "'d platform \<Rightarrow> answers \<Rightarrow> ('d, 'u) callbacks \<Rightarrow> ('d, 'u) smp_context \<Rightarrow> mem \<Rightarrow> size_t
   \<Rightarrow> (message_fate \<times> ('d, 'u) smp_context) option" where
  "smp_context_process_serial_frame plat al cbs c frame framesize =
     (case (case ctx_msg_rx c of
              Some m \<Rightarrow> Some m
            | None \<Rightarrow> smp_message_new (al_message al) (al_values al)) of
        None \<Rightarrow> Some (NoMessage, smp_context_notify_error cbs c SMP_ERROR_NO_MEM)
      | Some msg \<Rightarrow>
          do {
            (ret, out) \<leftarrow> smp_message_build_from_buffer (plat_order plat) (al_values al) (Some msg)
              (Some frame) framesize;
            msg \<leftarrow> out;
            let c = (if ctx_msg_rx c = None then c else c\<lparr>ctx_msg_rx := Some msg\<rparr>);
            case ret of
              Inl e \<Rightarrow> Some (LeftAlone, smp_context_notify_error cbs c e)
            | Inr _ \<Rightarrow>
                let c = smp_context_notify_new_message cbs c msg in
                case ctx_msg_rx c of
                  None \<Rightarrow> Some (Released (smp_message_free (Some msg)), c)
                | Some m \<Rightarrow>
                    do {
                      m' \<leftarrow> smp_message_clear (Some m);
                      Some (Cleared, c\<lparr>ctx_msg_rx := m'\<rparr>)
                    }
          })"

text \<open>The body of the loop over a chunk.\<close>

definition process_chunk_byte ::
  "'d platform \<Rightarrow> answers \<Rightarrow> ('d, 'u) callbacks \<Rightarrow> ('d, 'u) smp_context \<Rightarrow> byte
   \<Rightarrow> ('d, 'u) smp_context option" where
  "process_chunk_byte plat al cbs c b =
     do {
       (ret, out, dec) \<leftarrow> smp_serial_protocol_decoder_process_byte (al_decoder_buf al)
         (Some (ctx_decoder c)) b True True;
       d \<leftarrow> dec;
       (frame, framesize) \<leftarrow> out;
       let c = c\<lparr>ctx_decoder := d\<rparr>;
       let c = (case ret of Inl e \<Rightarrow> smp_context_notify_error cbs c e | Inr _ \<Rightarrow> c);
       case frame of
         None \<Rightarrow> Some c
       | Some buf \<Rightarrow>
           do {
             (fate, c) \<leftarrow> smp_context_process_serial_frame plat al cbs c buf framesize;
             Some c
           }
     }"

text \<open>\<open>al k\<close> are the answers of the allocator while the byte number \<open>k\<close> is processed.\<close>

fun process_chunk ::
  "'d platform \<Rightarrow> (nat \<Rightarrow> answers) \<Rightarrow> ('d, 'u) callbacks \<Rightarrow> nat \<Rightarrow> ('d, 'u) smp_context \<Rightarrow> byte list
   \<Rightarrow> ('d, 'u) smp_context option" where
  "process_chunk plat al cbs k c [] = Some c"
| "process_chunk plat al cbs k c (b # bs) =
     do { c \<leftarrow> process_chunk_byte plat (al k) cbs c b; process_chunk plat al cbs (Suc k) c bs }"

text \<open>
  The endless loop: \<^const>\<open>None\<close> also when it never returns. The chunk is a static array of the
  function; here it is the list of bytes just read. The two differ when a callback processes input
  itself, which overwrites the array: this is outside the model, and the properties of
  sequences of calls ask that callbacks do not do it.
\<close>

partial_function (option) process_loop ::
  "'d platform \<Rightarrow> (nat \<Rightarrow> answers) \<Rightarrow> ('d, 'u) callbacks \<Rightarrow> nat \<Rightarrow> ('d, 'u) smp_context
   \<Rightarrow> ((smp_error + unit) \<times> ('d, 'u) smp_context) option" where
  "process_loop plat al cbs k c =
     do {
       (ret, dev) \<leftarrow> dev_read (plat_ops plat) (ctx_device c) (plat_chunk plat);
       let c = c\<lparr>ctx_device := dev\<rparr>;
       case ret of
         Inl e \<Rightarrow> Some (if e = SMP_ERROR_WOULD_BLOCK then Inr () else Inl e, c)
       | Inr chunk \<Rightarrow>
           if chunk = [] then Some (Inr (), c)
           else do {
             c \<leftarrow> process_chunk plat al cbs k c chunk;
             process_loop plat al cbs (k + length chunk) c
           }
     }"

definition smp_context_process_fd ::
  "'d platform \<Rightarrow> (nat \<Rightarrow> answers) \<Rightarrow> ('d, 'u) callbacks \<Rightarrow> ('d, 'u) smp_context option
   \<Rightarrow> ((smp_error + unit) \<times> ('d, 'u) smp_context option) option" where
  "smp_context_process_fd plat al cbs ctx =
     (case ctx of
        None \<Rightarrow> Some (Inl SMP_ERROR_INVALID_PARAM, None)
      | Some c \<Rightarrow>
          if \<not> ctx_opened c then Some (Inl SMP_ERROR_BAD_FD, ctx)
          else do { (ret, c) \<leftarrow> process_loop plat al cbs 0 c; Some (ret, Some c) })"

definition smp_context_wait_and_process ::
  "'d platform \<Rightarrow> (nat \<Rightarrow> answers) \<Rightarrow> ('d, 'u) callbacks \<Rightarrow> ('d, 'u) smp_context option \<Rightarrow> 32 word
   \<Rightarrow> ((smp_error + unit) \<times> ('d, 'u) smp_context option) option" where
  "smp_context_wait_and_process plat al cbs ctx timeout_ms =
     (case ctx of
        None \<Rightarrow> Some (Inl SMP_ERROR_INVALID_PARAM, None)
      | Some c \<Rightarrow>
          if \<not> ctx_opened c then Some (Inl SMP_ERROR_BAD_FD, ctx)
          else do {
            (ret, dev) \<leftarrow> dev_wait (plat_ops plat) (ctx_device c) timeout_ms;
            let c = c\<lparr>ctx_device := dev\<rparr>;
            case ret of
              Inl e \<Rightarrow> Some (Inl e, Some c)
            | Inr _ \<Rightarrow> smp_context_process_fd plat al cbs (Some c)
          })"

end
