(* ===== verification/Smp_Context_Run.thy ===== *)
theory Smp_Context_Run
  imports Smp_Context Smp_Message_Parse Smp_Serial_Framing
begin

text \<open>
  Lemmas about the context of \<open>src/context.c\<close>: what a successful send puts on the line, what
  becomes of the buffers it allocated, and what the receive path reports for a stream of frames.
  The device enters through the interface \<open>serial_device\<close> only.
\<close>

section \<open>The size of the decoder's buffer\<close>

definition sized :: "decoder \<Rightarrow> bool" where
  "sized d \<longleftrightarrow> length (dec_buf d) \<le> PTRDIFF_MAX"

text \<open>The C library grants no block that is larger than an object can be.\<close>

definition sane :: "(size_t \<Rightarrow> bool) \<Rightarrow> bool" where
  "sane alloc \<longleftrightarrow> (\<forall>n. alloc n \<longrightarrow> unat n \<le> PTRDIFF_MAX)"

lemma set_capacity_sized:
  assumes "decoder_set_capacity alloc d cap = (r, d')" and "sane alloc" and "sized d"
  shows "sized d'"
proof (cases "cap > dec_bufsize d \<and> alloc cap")
  case True
  then have "unat (cap - dec_bufsize d) = unat cap - unat (dec_bufsize d)"
    by (intro unat_sub) (simp add: True less_imp_le)
  with True assms show ?thesis
    by (auto simp: decoder_set_capacity_def sized_def sane_def word_less_nat_alt split: if_splits)
next
  case False
  with assms show ?thesis
    by (auto simp: decoder_set_capacity_def sized_def split: if_splits)
qed

lemma put_byte_sized:
  assumes "decoder_put_byte alloc d b = Some (r, d')" and "sane alloc" and "sized d"
  shows "sized d'"
proof -
  have store: "sized d2" if "decoder_store d1 b = Some (r1, d2)" "sized d1" for d1 d2 r1
    using that mem_write_length by (auto simp: decoder_store_def bind_eq_Some_conv sized_def)
  show ?thesis
    using assms set_capacity_sized store
    by (auto simp: decoder_put_byte_def Let_def split: if_splits prod.splits sum.splits)
qed

lemma dispatch_sized:
  assumes "decoder_dispatch alloc d b = Some (r, frame, n, d')" and "sane alloc" and "sized d"
  shows "sized d' \<and> (\<forall>buf. frame = Some buf \<longrightarrow> buf = dec_buf d \<and> unat n \<le> length buf)"
proof (cases "dec_state d")
  case WAIT_HEADER
  with assms show ?thesis by (auto simp: decoder_dispatch_def sized_def)
next
  case IN_FRAME
  with assms put_byte_sized [OF _ assms(2,3)] show ?thesis
    by (auto simp: decoder_dispatch_def process_byte_inframe_def Let_def bind_eq_Some_conv
        sized_def mem_read_def split: if_splits)
next
  case IN_FRAME_ESC
  with assms obtain r0 d0 where "decoder_put_byte alloc d b = Some (r0, d0)"
    by (auto simp: decoder_dispatch_def bind_eq_Some_conv)
  with assms put_byte_sized [OF this assms(2,3)] IN_FRAME_ESC show ?thesis
    by (cases r0) (auto simp: decoder_dispatch_def sized_def)
qed

lemma step_sized:
  assumes "decoder_step d (alloc, b) = Some ((r, frame, n), d')" and "sane alloc" and "sized d"
  shows "sized d' \<and> (\<forall>buf. frame = Some buf \<longrightarrow> buf = dec_buf d \<and> unat n \<le> length buf)"
proof -
  from assms(1) obtain d1 where "decoder_dispatch alloc d b = Some (r, frame, n, d1)"
    and "dec_buf d' = dec_buf d1"
    by (auto simp: decoder_step_def process_byte_def bind_eq_Some_conv)
  with dispatch_sized [OF this(1) assms(2,3)] show ?thesis by (simp add: sized_def)
qed

section \<open>Sending\<close>

definition tx_ready :: "('d, 'u) smp_context \<Rightarrow> bool" where
  "tx_ready c \<longleftrightarrow>
     (\<forall>b. ctx_msg_tx c = Some b \<longrightarrow> buffer_wf b \<and> length (buf_data b) < 2 ^ 64) \<and>
     (\<forall>b. ctx_serial_tx c = Some b \<longrightarrow> buffer_wf b \<and> length (buf_data b) < 2 ^ 64)"

text \<open>The write of a frame from the serial buffer, and what is left of the context.\<close>

definition write_frame ::
  "'d platform \<Rightarrow> ('d, 'u) smp_context \<Rightarrow> mem \<Rightarrow> byte list
   \<Rightarrow> ((smp_error + unit) \<times> mem option \<times> ('d, 'u) smp_context) option" where
  "write_frame plat c txbuf frame =
     do {
       (wret, dev) \<leftarrow> dev_write (plat_ops plat) (ctx_device c) frame;
       let c = c\<lparr>ctx_serial_tx := buffer_written (ctx_serial_tx c) txbuf, ctx_device := dev\<rparr>;
       Some (case wret of
           Inl e \<Rightarrow> (Inl e, Some txbuf, c)
         | Inr wbytes \<Rightarrow> (if wbytes \<noteq> of_nat (length frame) then Inl SMP_ERROR_IO else Inr (), Some txbuf, c))
     }"

lemma write_frame_SomeE:
  assumes "write_frame plat c txbuf frame = Some (ret, serial, c')"
  obtains wret dev where "dev_write (plat_ops plat) (ctx_device c) frame = Some (wret, dev)"
    and "serial = Some txbuf"
    and "c' = c\<lparr>ctx_serial_tx := buffer_written (ctx_serial_tx c) txbuf, ctx_device := dev\<rparr>"
    and "ret = (case wret of Inl e \<Rightarrow> Inl e
          | Inr wbytes \<Rightarrow> if wbytes \<noteq> of_nat (length frame) then Inl SMP_ERROR_IO else Inr ())"
proof -
  from assms obtain wret dev where w: "dev_write (plat_ops plat) (ctx_device c) frame = Some (wret, dev)"
    by (auto simp: write_frame_def bind_eq_Some_conv)
  with assms that [OF w] show ?thesis by (cases wret) (auto simp: write_frame_def Let_def)
qed

lemma unat_frame_length:
  assumes "2 * length p + 4 < 2 ^ 64"
  shows "unat (of_nat (length (serial_frame p)) :: size_t) = length (serial_frame p)"
  using serial_frame_fits [of p] length_filter_le [of is_magic_byte p] assms
  by (intro unat_of_nat_size) linarith

lemma send_frame_encoded:
  assumes "2 * length p + 4 < 2 ^ 64"
    and "smp_serial_protocol_encode (al_serial al) (al_junk al) (Some (p @ rest)) (of_nat (length p))
        (Some (map_option buf_data (ctx_serial_tx c))) (case ctx_serial_tx c of None \<Rightarrow> 0 | Some b \<Rightarrow> buf_maxsize b) =
      Some (Inr (of_nat (length (serial_frame p))), Some (Some (serial_frame p @ tail)))"
  shows "send_frame plat al c (p @ rest) (of_nat (length p)) =
    write_frame plat c (serial_frame p @ tail) (serial_frame p)"
  using assms(2) unat_frame_length [OF assms(1)]
  by (cases "ctx_serial_tx c"; cases "dev_write (plat_ops plat) (ctx_device c) (serial_frame p)")
    (auto simp: send_frame_def write_frame_def mem_read_def Let_def split: sum.split)

text \<open>Why a buffer for \<open>n\<close> bytes of message, or for the frame of \<open>p\<close>, is refused.\<close>

definition msg_refusal :: "answers \<Rightarrow> ('d, 'u) smp_context \<Rightarrow> size_t \<Rightarrow> smp_error option" where
  "msg_refusal al c n =
     (case ctx_msg_tx c of
        None \<Rightarrow> if al_buffer al SIZEOF_BUFFER \<and> al_buffer_data al n then None else Some SMP_ERROR_NO_MEM
      | Some b \<Rightarrow> if buf_maxsize b < n then Some SMP_ERROR_OVERFLOW else None)"

definition serial_refusal :: "answers \<Rightarrow> ('d, 'u) smp_context \<Rightarrow> byte list \<Rightarrow> smp_error option" where
  "serial_refusal al c p =
     (case ctx_serial_tx c of
        None \<Rightarrow> if al_serial al (compute_payload_size p) then None else Some SMP_ERROR_NO_MEM
      | Some b \<Rightarrow> if buf_maxsize b = 0 then Some SMP_ERROR_INVALID_PARAM
          else if buf_maxsize b < compute_payload_size p then Some SMP_ERROR_OVERFLOW else None)"

lemma send_frame_cases:
  assumes "tx_ready c" and "length p < 2 ^ 62"
  obtains (error) e where "send_frame plat al c (p @ rest) (of_nat (length p)) =
      Some (Inl e, map_option buf_data (ctx_serial_tx c), c)" and "serial_refusal al c p = Some e"
  | (framed) tail where "send_frame plat al c (p @ rest) (of_nat (length p)) =
      write_frame plat c (serial_frame p @ tail) (serial_frame p)"
    and "\<forall>b. ctx_serial_tx c = Some b \<longrightarrow> length (serial_frame p @ tail) = length (buf_data b)"
    and "serial_refusal al c p = None"
proof (cases "ctx_serial_tx c")
  case None
  have l: "2 * length p + 4 < 2 ^ 64" using assms(2) by simp
  note enc = encode_allocated_buffer [OF l, of "al_serial al" "al_junk al" rest 0]
  show ?thesis
  proof (cases "al_serial al (compute_payload_size p)")
    case False
    with None that(1) enc show ?thesis by (simp add: send_frame_def serial_refusal_def)
  next
    case True
    with None enc have "send_frame plat al c (p @ rest) (of_nat (length p)) = write_frame plat c (serial_frame p @
        map (al_junk al) [length (serial_frame p)..<unat (compute_payload_size p)]) (serial_frame p)"
      by (intro send_frame_encoded [OF l]) simp
    from that(2) [OF this] None True show ?thesis by (simp add: serial_refusal_def)
  qed
next
  case (Some b)
  have l: "2 * length p + 4 < 2 ^ 64" using assms(2) by simp
  have b: "unat (buf_maxsize b) \<le> length (buf_data b)" "length (buf_data b) < 2 ^ 64"
    using assms(1) Some by (simp_all add: tx_ready_def buffer_wf_def)
  note enc = encode_caller_buffer [OF l b, of "al_serial al" "al_junk al" rest]
  show ?thesis
  proof (cases "buf_maxsize b = 0 \<or> buf_maxsize b < compute_payload_size p")
    case True
    with Some enc that(1) show ?thesis
      by (cases "buf_maxsize b = 0") (simp_all add: send_frame_def serial_refusal_def)
  next
    case False
    have "length (serial_frame p) \<le> unat (compute_payload_size p)"
      using serial_frame_fits [of p] unat_compute_payload_size [OF l] by simp
    also have "\<dots> \<le> unat (buf_maxsize b)" using False by (simp add: word_le_nat_alt not_less)
    finally have fit: "length (serial_frame p) \<le> length (buf_data b)" using b by simp
    from False Some enc have "send_frame plat al c (p @ rest) (of_nat (length p)) =
      write_frame plat c (serial_frame p @ drop (length (serial_frame p)) (buf_data b)) (serial_frame p)"
      by (intro send_frame_encoded [OF l]) simp
    from that(2) [OF this] Some False fit show ?thesis by (simp add: serial_refusal_def)
  qed
qed

text \<open>
  A send with a message whose arguments are readable: it gives up before the device is touched,
  or it writes the frame of the encoded message once, and then releases the buffers that are
  not the context's own.
\<close>

definition msg_releases :: "('d, 'u) smp_context \<Rightarrow> release list" where
  "msg_releases c = (if ctx_msg_tx c = None then [ReleaseData, ReleaseStruct] else [])"

definition sent_releases :: "('d, 'u) smp_context \<Rightarrow> release list" where
  "sent_releases c =
     msg_releases c @ (if ctx_serial_tx c = None then [ReleaseData] else [])"

definition outgoing :: "'d platform \<Rightarrow> message \<Rightarrow> arg list \<Rightarrow> byte list" where
  "outgoing plat m as = message_wire (plat_order plat) (msgid m) (filter arg_fits as)"

lemma outgoing_length:
  assumes "length (args_wire (plat_order plat) as) < 2 ^ 32"
  shows "length (outgoing plat m as) < 2 ^ 62"
proof -
  have "length (args_wire (plat_order plat) (filter arg_fits as)) \<le> length (args_wire (plat_order plat) as)"
    by (induction as) auto
  with assms show ?thesis by (simp add: outgoing_def)
qed

text \<open>From the message buffer \<open>b\<close> on.\<close>

lemma send_encoded:
  assumes "message_args m = Some as" and "length (args_wire (plat_order plat) as) < 2 ^ 32"
    and "tx_ready c" and "unat (buf_maxsize b) \<le> length (buf_data b)" and "length (buf_data b) < 2 ^ 64"
    and "8 + length (args_wire (plat_order plat) as) \<le> unat (buf_maxsize b)"
  obtains data where "smp_message_encode (plat_order plat) (Some m) (Some (buf_data b)) (buf_maxsize b) =
      Some (Inr (of_nat (length (outgoing plat m as))), Some (outgoing plat m as @ data))"
    and "length (outgoing plat m as @ data) = length (buf_data b)"
proof -
  from encode_message(3) [OF assms(1,2,4-6), of "outgoing plat m as"] obtain buf' where
    b: "smp_message_encode (plat_order plat) (Some m) (Some (buf_data b)) (buf_maxsize b) =
      Some (Inr (of_nat (length (outgoing plat m as))), Some buf')"
      "take (length (outgoing plat m as)) buf' = outgoing plat m as" "length buf' = length (buf_data b)"
    by (auto simp: outgoing_def)
  then have "buf' = outgoing plat m as @ drop (length (outgoing plat m as)) buf'"
    by (metis append_take_drop_id)
  with b that show ?thesis by metis
qed

text \<open>Whatever buffer \<open>b\<close> the send uses, its own or a new one, it goes on the same way.\<close>

lemma send_buffered:
  assumes "tx_ready c" and "message_args m = Some as"
    and short: "length (args_wire (plat_order plat) as) < 2 ^ 32"
    and b: "unat (buf_maxsize b) \<le> length (buf_data b)" "length (buf_data b) < 2 ^ 64"
      "8 + length (args_wire (plat_order plat) as) \<le> unat (buf_maxsize b)"
    and own: "ctx_msg_tx c = Some b \<or> ctx_msg_tx c = None \<and> buf_free b = FreeDefault \<and> \<not> buf_static b"
    and send: "\<And>data n. smp_message_encode (plat_order plat) (Some m) (Some (buf_data b)) (buf_maxsize b)
        = Some (Inr n, Some data) \<Longrightarrow>
      res = do {
          (ret, serial, c') \<leftarrow> send_frame plat al (c\<lparr>ctx_msg_tx := buffer_written (ctx_msg_tx c) data\<rparr>) data n;
          Some (ret, send_release c' b serial, Some c')
        }"
  obtains (unframed) e data where
      "res = Some (Inl e, msg_releases c, Some (c\<lparr>ctx_msg_tx := buffer_written (ctx_msg_tx c) data\<rparr>))"
    and "\<forall>b. ctx_msg_tx c = Some b \<longrightarrow> length data = length (buf_data b)"
    and "serial_refusal al c (outgoing plat m as) = Some e"
  | (framed) data txbuf where "res = do {
        (ret, serial, c') \<leftarrow> write_frame plat (c\<lparr>ctx_msg_tx := buffer_written (ctx_msg_tx c) data\<rparr>)
          txbuf (serial_frame (outgoing plat m as));
        Some (ret, sent_releases c, Some c')
      }"
    and "\<forall>b. ctx_msg_tx c = Some b \<longrightarrow> length data = length (buf_data b)"
    and "\<forall>b. ctx_serial_tx c = Some b \<longrightarrow> length txbuf = length (buf_data b)"
    and "serial_refusal al c (outgoing plat m as) = None"
proof -
  note unframed = that(1) and framed = that(2)
  let ?W = "outgoing plat m as"
  note rel = send_release_def msg_releases_def sent_releases_def smp_buffer_free_def
    smp_buffer_free_default_def buffer_written_def
  obtain data where data: "smp_message_encode (plat_order plat) (Some m) (Some (buf_data b)) (buf_maxsize b) =
      Some (Inr (of_nat (length ?W)), Some (?W @ data))" "length (?W @ data) = length (buf_data b)"
    using send_encoded [OF assms(2,3,1) b] by blast
  let ?c = "c\<lparr>ctx_msg_tx := buffer_written (ctx_msg_tx c) (?W @ data)\<rparr>"
  have ready: "tx_ready ?c"
    using assms(1) own data(2) b by (auto simp: tx_ready_def buffer_written_def buffer_wf_def)
  show thesis
    using send_frame_cases [OF ready outgoing_length [OF short, of m], of plat al data]
  proof cases
    case (1 e)
    moreover have "send_release ?c b (map_option buf_data (ctx_serial_tx c)) = msg_releases c"
      using own by (auto simp: rel)
    ultimately show thesis using send [OF data(1)]
      by (intro unframed) (use own data(2) in \<open>auto simp: serial_refusal_def\<close>)
  next
    case (2 tail)
    have "serial = Some txbuf \<and> send_release c' b serial = sent_releases c"
      if "write_frame plat ?c txbuf fr = Some (ret, serial, c')" for ret serial c' txbuf fr
      using that own by (elim write_frame_SomeE) (auto simp: rel)
    then have "res = do {
        (ret, serial, c') \<leftarrow> write_frame plat ?c (serial_frame ?W @ tail) (serial_frame ?W);
        Some (ret, sent_releases c, Some c')
      }"
      unfolding send [OF data(1)] 2(1)
      by (cases "write_frame plat ?c (serial_frame ?W @ tail) (serial_frame ?W)") auto
    then show thesis
      by (rule framed) (use own data(2) 2 in \<open>auto simp: serial_refusal_def\<close>)
  qed
qed

lemma send_message_cases:
  assumes "ctx_opened c" and "tx_ready c" and "message_args m = Some as"
    and "length (args_wire (plat_order plat) as) < 2 ^ 32"
  obtains (early) e where "smp_context_send_message plat al (Some c) (Some m) =
      Some (Inl e, if ctx_msg_tx c = None \<and> al_buffer al SIZEOF_BUFFER then [ReleaseStruct] else [], Some c)"
    and "msg_refusal al c (of_nat (8 + length (args_wire (plat_order plat) as))) = Some e"
  | (unframed) e data where "smp_context_send_message plat al (Some c) (Some m) =
      Some (Inl e, msg_releases c, Some (c\<lparr>ctx_msg_tx := buffer_written (ctx_msg_tx c) data\<rparr>))"
    and "\<forall>b. ctx_msg_tx c = Some b \<longrightarrow> length data = length (buf_data b)"
    and "msg_refusal al c (of_nat (8 + length (args_wire (plat_order plat) as))) = None"
    and "serial_refusal al c (outgoing plat m as) = Some e"
  | (framed) data txbuf where "smp_context_send_message plat al (Some c) (Some m) =
      do {
        (ret, serial, c') \<leftarrow> write_frame plat (c\<lparr>ctx_msg_tx := buffer_written (ctx_msg_tx c) data\<rparr>)
          txbuf (serial_frame (outgoing plat m as));
        Some (ret, sent_releases c, Some c')
      }"
    and "\<forall>b. ctx_msg_tx c = Some b \<longrightarrow> length data = length (buf_data b)"
    and "\<forall>b. ctx_serial_tx c = Some b \<longrightarrow> length txbuf = length (buf_data b)"
    and "msg_refusal al c (of_nat (8 + length (args_wire (plat_order plat) as))) = None"
    and "serial_refusal al c (outgoing plat m as) = None"
proof -
  note early = that(1) and unframed = that(2) and framed = that(3)
  let ?L = "8 + length (args_wire (plat_order plat) as)"
  have sz: "smp_message_get_encoded_size (Some m) = Some (of_nat ?L)"
    using encode_message(1) [OF assms(3,4), of 0 "[]"] by simp
  have L: "unat (of_nat ?L :: size_t) = ?L" using assms(4) by (intro unat_of_nat_size) simp
  note step = send_buffered [OF assms(2-4), where al = al and
      res = "smp_context_send_message plat al (Some c) (Some m)"]
  show thesis
  proof (cases "ctx_msg_tx c")
    case None
    show thesis
    proof (cases "al_buffer al SIZEOF_BUFFER \<and> al_buffer_data al (of_nat ?L)")
      case True
      let ?b = "smp_buffer_init (replicate (unat (of_nat ?L :: size_t)) 0) (of_nat ?L) FreeDefault False"
      have ref: "msg_refusal al c (of_nat ?L) = None"
        using True None by (simp add: msg_refusal_def)
      show thesis
        by (rule step [of ?b]; (rule unframed [OF _ _ ref] framed [OF _ _ _ ref], assumption+)?)
          (use True None sz assms(1) assms(4) L in \<open>simp_all add: smp_context_send_message_def
            smp_buffer_new_allocate_def smp_buffer_init_def del: of_nat_add replicate.simps\<close>)
    next
      case False
      with None sz assms(1) early show thesis
        by (cases "al_buffer al SIZEOF_BUFFER")
          (simp_all add: smp_context_send_message_def smp_buffer_new_allocate_def msg_refusal_def del: of_nat_add)
    qed
  next
    case (Some b)
    show thesis
    proof (cases "buf_maxsize b < of_nat ?L")
      case True
      with Some sz assms(1) early show thesis
        by (simp add: smp_context_send_message_def msg_refusal_def del: of_nat_add)
    next
      case False
      with Some have ref: "msg_refusal al c (of_nat ?L) = None"
        by (simp add: msg_refusal_def del: of_nat_add)
      from False L have fit: "?L \<le> unat (buf_maxsize b)"
        by (simp add: word_less_nat_alt del: of_nat_add)
      show thesis
        by (rule step [of b]; (rule unframed [OF _ _ ref] framed [OF _ _ _ ref], assumption+)?)
          (use fit Some sz assms(1,2) False in \<open>simp_all add: smp_context_send_message_def tx_ready_def
            buffer_wf_def del: of_nat_add\<close>)
    qed
  qed
qed

end
