(* ===== verification/Smp_Application.thy ===== *)
theory Smp_Application
  imports Smp_Context_Run
begin

text \<open>
  The receive path of \<open>src/context.c\<close> from a chunk of bytes to the callbacks: every byte is decoded,
  every frame parsed and every message reported. What the application does in its callbacks
  enters through the interface \<open>application\<close>, which lets it use the device and send messages.
\<close>

section \<open>What an application hears\<close>

datatype event = Received u32 "arg list option" | Failed smp_error

fun chunk_inputs :: "(nat \<Rightarrow> answers) \<Rightarrow> nat \<Rightarrow> byte list \<Rightarrow> ((size_t \<Rightarrow> bool) \<times> byte) list" where
  "chunk_inputs al k [] = []"
| "chunk_inputs al k (b # bs) = (al_decoder_buf (al k), b) # chunk_inputs al (Suc k) bs"

lemma chunk_inputs_append:
  "chunk_inputs al k (bs @ cs) = chunk_inputs al k bs @ chunk_inputs al (k + length bs) cs"
  by (induction bs arbitrary: k) simp_all

lemma chunk_inputs_bytes [simp]: "map snd (chunk_inputs al k bs) = bs"
  by (induction bs arbitrary: k) simp_all

text \<open>The message for reception is empty, and has room (or gets the memory) for the arguments.\<close>

definition rx_ready :: "('d, 'u) smp_context \<Rightarrow> bool" where
  "rx_ready c \<longleftrightarrow> (\<forall>m. ctx_msg_rx c = Some m \<longrightarrow> message_wf m \<and> untyped (used m))"

definition rx_room :: "(nat \<Rightarrow> answers) \<Rightarrow> ('d, 'u) smp_context \<Rightarrow> arg list \<Rightarrow> bool" where
  "rx_room al c as \<longleftrightarrow>
     (case ctx_msg_rx c of
        Some m \<Rightarrow> length as \<le> unat (capacity m)
      | None \<Rightarrow> \<forall>k. al_message (al k) SIZEOF_MESSAGE \<and> al_values (al k) (DEFAULT_CAPACITY * SIZEOF_VALUE)
          \<and> grants (al_values (al k)) (48 * length as))"

definition args_valid :: "byte_order \<Rightarrow> arg list \<Rightarrow> bool" where
  "args_valid bo as \<longleftrightarrow> (\<forall>a\<in>set as. arg_wf a \<and> arg_fits a) \<and> length (args_wire bo as) < 2 ^ 32"

lemma smp_message_new_ready:
  "smp_message_new a1 a2 = Some m \<Longrightarrow> message_wf m \<and> untyped (used m) \<and> \<not> msg_static m \<and> capacity m = 8"
  by (auto simp: smp_message_new_def smp_message_new_with_id_def message_wf_def used_def
      DEFAULT_CAPACITY_def split: if_splits)

lemma clear_ready:
  assumes "message_wf m"
  shows "\<exists>m'. smp_message_clear (Some m) = Some (Some m') \<and> message_wf m' \<and> untyped (used m') \<and>
    capacity m' = capacity m"
  using assms by (simp add: smp_message_clear_def message_wf_def used_def)

text \<open>
  One frame that holds the encoding of a message, for callbacks that leave the message for
  reception to the context. \<open>loaded c m\<close> is the context while the callback runs.
\<close>

definition loaded :: "('d, 'u) smp_context \<Rightarrow> message \<Rightarrow> ('d, 'u) smp_context" where
  "loaded c m = (if ctx_msg_rx c = None then c else c\<lparr>ctx_msg_rx := Some m\<rparr>)"

lemma process_serial_frame_parsed:
  assumes "take (unat n) buf = message_wire (plat_order plat) ident as" and "unat n \<le> length buf"
    and "length buf \<le> PTRDIFF_MAX" and "args_valid (plat_order plat) as"
    and "rx_ready c" and "rx_room al c as"
    and "\<And>m. ctx_msg_rx (smp_context_notify_new_message cbs (loaded c m) m) = ctx_msg_rx (loaded c m)"
  shows "\<exists>fate m rx. smp_context_process_serial_frame plat (al k) cbs c buf n =
      Some (fate, (smp_context_notify_new_message cbs (loaded c m) m)\<lparr>ctx_msg_rx := rx\<rparr>) \<and>
    msgid m = ident \<and> message_args m = Some as \<and>
    fate = (if ctx_msg_rx c = None then Released [FreeValues, FreeMessage] else Cleared) \<and>
    rx_ready (c\<lparr>ctx_msg_rx := rx\<rparr>) \<and> map_option capacity rx = map_option capacity (ctx_msg_rx c)"
proof -
  have buf: "buf = message_wire (plat_order plat) ident as @ drop (unat n) buf"
    using assms(1) by (metis append_take_drop_id)
  have "unat n = length (take (unat n) buf)" using assms(2) by simp
  then have n: "unat n = 8 + length (args_wire (plat_order plat) as)" unfolding assms(1) by simp
  have valid: "\<forall>a\<in>set as. arg_wf a \<and> arg_fits a" "length (args_wire (plat_order plat) as) < 2 ^ 32"
    using assms(4) by (simp_all add: args_valid_def)
  have build: "\<exists>m'. smp_message_build_from_buffer (plat_order plat) (al_values (al k)) (Some m) (Some buf) n
      = Some (Inr (), Some m') \<and> message_wf m' \<and> msgid m' = ident \<and> message_args m' = Some as \<and>
      msg_static m' = msg_static m \<and> (length as \<le> unat (capacity m) \<longrightarrow> capacity m' = capacity m)"
    if m: "message_wf m" "untyped (used m)"
      "length as \<le> unat (capacity m) \<or> \<not> msg_static m \<and> grants (al_values (al k)) (48 * length as)" for m
  proof -
    from build_message [OF buf assms(3) valid(2) n m(1,2) valid(1) m(3)] obtain m' vs free where
      m': "smp_message_build_from_buffer (plat_order plat) (al_values (al k)) (Some m) (Some buf) n
        = Some (Inr (), Some m')" "message_wf m'" "msgid m' = ident" "msg_static m' = msg_static m"
        "used m' = vs @ free" "untyped free" "list_all2 (\<lambda>v a. value_arg v = Some a) vs as"
        "length as \<le> unat (capacity m) \<longrightarrow> capacity m' = capacity m"
      by blast
    then have "message_args m' = Some as"
      by (simp add: message_args_used values_args_untyped values_args_all)
    with m' show ?thesis by blast
  qed
  show ?thesis
  proof (cases "ctx_msg_rx c")
    case None
    then obtain m where m: "smp_message_new (al_message (al k)) (al_values (al k)) = Some m"
      using assms(6) by (auto simp: rx_room_def smp_message_new_def smp_message_new_with_id_def)
    note ready = smp_message_new_ready [OF m]
    from build [of m] ready None assms(6) obtain m' where
      m': "smp_message_build_from_buffer (plat_order plat) (al_values (al k)) (Some m) (Some buf) n
        = Some (Inr (), Some m')" "msgid m' = ident" "message_args m' = Some as" "\<not> msg_static m'"
      by (auto simp: rx_room_def)
    moreover have "(smp_context_notify_new_message cbs c m')\<lparr>ctx_msg_rx := None\<rparr> =
        smp_context_notify_new_message cbs c m'"
      using assms(7) [of m'] None by (simp add: loaded_def)
    ultimately show ?thesis
      using m None assms(7) [of m']
      by (intro exI [of _ "Released [FreeValues, FreeMessage]"] exI [of _ m'] exI [of _ None])
        (simp add: smp_context_process_serial_frame_def Let_def smp_message_free_def rx_ready_def loaded_def)
  next
    case (Some m)
    with assms(5,6) have m: "message_wf m" "untyped (used m)" "length as \<le> unat (capacity m)"
      by (simp_all add: rx_ready_def rx_room_def)
    from build [OF m(1,2)] m(3) obtain m' where
      m': "smp_message_build_from_buffer (plat_order plat) (al_values (al k)) (Some m) (Some buf) n
        = Some (Inr (), Some m')" "message_wf m'" "msgid m' = ident" "message_args m' = Some as"
        "capacity m' = capacity m"
      by auto
    from clear_ready [OF m'(2)] obtain m2 where "smp_message_clear (Some m') = Some (Some m2)"
      "message_wf m2" "untyped (used m2)" "capacity m2 = capacity m'" by blast
    with m' Some assms(7) [of m'] show ?thesis
      by (intro exI [of _ Cleared] exI [of _ m'] exI [of _ "Some m2"])
        (simp add: smp_context_process_serial_frame_def Let_def rx_ready_def loaded_def)
  qed
qed

text \<open>A byte that completes no frame and breaks none changes the decoder only.\<close>

lemma process_chunk_byte_quiet:
  assumes "decoder_step (ctx_decoder c) (al_decoder_buf al, b) = Some (out, d)"
    and "\<not> decoder_failed out" and "decoder_payload out = None"
  shows "process_chunk_byte plat al cbs c b = Some (c\<lparr>ctx_decoder := d\<rparr>)"
proof -
  obtain r frame n where out: "out = (r, frame, n)" by (cases out)
  from assms(1) have "process_byte (al_decoder_buf al) (ctx_decoder c) b = Some (r, frame, n, d)"
    by (auto simp: decoder_step_def out)
  moreover from assms(2,3) have "r = Inr ()" "frame = None"
    by (auto simp: out decoder_failed.simps decoder_payload.simps)
  ultimately show ?thesis
    by (simp add: process_chunk_byte_def smp_serial_protocol_decoder_process_byte_def)
qed

text \<open>The reports of the decoder, as the application's journal has them.\<close>

fun report_event :: "smp_error + u32 \<times> arg list \<Rightarrow> event" where
  "report_event (Inl e) = Failed e"
| "report_event (Inr (ident, as)) = Received ident (Some as)"

definition report_wire :: "byte_order \<Rightarrow> smp_error + u32 \<times> arg list \<Rightarrow> smp_error + byte list" where
  "report_wire bo = map_sum id (\<lambda>(ident, as). message_wire bo ident as)"

section \<open>Applications\<close>

text \<open>
  What the receive path relies on. \<open>good\<close> is what the application keeps, \<open>heard\<close> what it was told, in
  order; neither depends on the decoder or on the message for reception, which the callbacks leave
  alone. They may do anything else, sending messages on the same context included.
\<close>

locale application =
  fixes cbs :: "('d, 'u) callbacks"
    and bo :: byte_order
    and good :: "('d, 'u) smp_context \<Rightarrow> bool"
    and heard :: "('d, 'u) smp_context \<Rightarrow> event list"
  assumes good_decoder: "good (c\<lparr>ctx_decoder := d\<rparr>) = good c"
    and good_msg_rx: "good (c\<lparr>ctx_msg_rx := rx\<rparr>) = good c"
    and heard_decoder: "heard (c\<lparr>ctx_decoder := d\<rparr>) = heard c"
    and heard_msg_rx: "heard (c\<lparr>ctx_msg_rx := rx\<rparr>) = heard c"
    and on_message: "good c \<Longrightarrow> message_args m = Some as \<Longrightarrow> args_valid bo as \<Longrightarrow>
      smp_context_notify_new_message cbs c m = c' \<Longrightarrow>
      good c' \<and> heard c' = heard c @ [Received (msgid m) (Some as)] \<and> ctx_decoder c' = ctx_decoder c"
    and on_error: "good c \<Longrightarrow> smp_context_notify_error cbs c e = c' \<Longrightarrow>
      good c' \<and> heard c' = heard c @ [Failed e] \<and> ctx_decoder c' = ctx_decoder c \<and>
      ctx_msg_rx c' = ctx_msg_rx c"
    and message_msg_rx: "ctx_msg_rx (smp_context_notify_new_message cbs c m) = ctx_msg_rx c"
begin

text \<open>The effect of a chunk or of a part of it.\<close>

definition told :: "('d, 'u) smp_context \<Rightarrow> event list \<Rightarrow> decoder \<Rightarrow> ('d, 'u) smp_context \<Rightarrow> bool" where
  "told c evs d c' \<longleftrightarrow> good c' \<and> heard c' = heard c @ evs \<and> ctx_decoder c' = d \<and> rx_ready c' \<and>
     map_option capacity (ctx_msg_rx c') = map_option capacity (ctx_msg_rx c)"

lemma told_trans: "told c es d c1 \<Longrightarrow> told c1 es' d' c2 \<Longrightarrow> told c (es @ es') d' c2"
  by (simp add: told_def)

lemma told_room: "told c evs d c' \<Longrightarrow> rx_room al c' as = rx_room al c as"
  by (cases "ctx_msg_rx c"; cases "ctx_msg_rx c'") (simp_all add: told_def rx_room_def)

lemma frame_told:
  assumes "take (unat n) buf = message_wire bo ident as" and "unat n \<le> length buf"
    and "length buf \<le> PTRDIFF_MAX" and "args_valid bo as" and "rx_ready c" and "rx_room al c as"
    and "good c" and "plat_order plat = bo"
  shows "\<exists>fate c'. smp_context_process_serial_frame plat (al k) cbs c buf n = Some (fate, c') \<and>
    told c [Received ident (Some as)] (ctx_decoder c) c'"
proof -
  from process_serial_frame_parsed [of n buf plat ident as c al cbs k] assms message_msg_rx
  obtain fate m rx where run: "smp_context_process_serial_frame plat (al k) cbs c buf n =
      Some (fate, (smp_context_notify_new_message cbs (loaded c m) m)\<lparr>ctx_msg_rx := rx\<rparr>)"
    and m: "msgid m = ident" "message_args m = Some as"
    and rx: "rx_ready (c\<lparr>ctx_msg_rx := rx\<rparr>)" "map_option capacity rx = map_option capacity (ctx_msg_rx c)"
    by blast
  have "good (loaded c m)" "heard (loaded c m) = heard c" "ctx_decoder (loaded c m) = ctx_decoder c"
    using assms(7) by (simp_all add: loaded_def good_msg_rx heard_msg_rx)
  with on_message [OF _ m(2) assms(4) refl, of "loaded c m"] m(1) rx
  have "told c [Received ident (Some as)] (ctx_decoder c)
      ((smp_context_notify_new_message cbs (loaded c m) m)\<lparr>ctx_msg_rx := rx\<rparr>)"
    by (simp add: told_def good_msg_rx heard_msg_rx rx_ready_def)
  with run show ?thesis by blast
qed

lemma byte_message:
  assumes "decoder_step (ctx_decoder c) (al_decoder_buf (al k), b) = Some (out, d)"
    and "\<not> decoder_failed out" and "decoder_payload out = Some (message_wire bo ident as)"
    and "sane (al_decoder_buf (al k))" and "sized (ctx_decoder c)"
    and "args_valid bo as" and "rx_ready c" and "rx_room al c as" and "good c" and "plat_order plat = bo"
  shows "\<exists>c'. process_chunk_byte plat (al k) cbs c b = Some c' \<and> told c [Received ident (Some as)] d c'"
proof -
  obtain r frame n where out: "out = (r, frame, n)" by (cases out)
  from assms(1) have p: "process_byte (al_decoder_buf (al k)) (ctx_decoder c) b = Some (r, frame, n, d)"
    by (auto simp: decoder_step_def out)
  from assms(2,3) obtain buf where r: "r = Inr ()" and frame: "frame = Some buf"
    and wire: "take (unat n) buf = message_wire bo ident as"
    by (auto simp: out decoder_failed.simps decoder_payload.simps)
  from step_sized [OF assms(1) [unfolded out] assms(4,5)] frame
  have "buf = dec_buf (ctx_decoder c)" "unat n \<le> length buf" by auto
  then have "length buf \<le> PTRDIFF_MAX" using assms(5) by (simp add: sized_def)
  moreover let ?c = "c\<lparr>ctx_decoder := d\<rparr>"
  have "rx_ready ?c" "rx_room al ?c as" "good ?c"
    using assms(7-9) by (simp_all add: rx_ready_def rx_room_def good_decoder)
  ultimately obtain fate c' where
    "smp_context_process_serial_frame plat (al k) cbs ?c buf n = Some (fate, c')"
    "told ?c [Received ident (Some as)] d c'"
    using frame_told [OF wire \<open>unat n \<le> length buf\<close> _ assms(6), of ?c al plat k] assms(10) by auto
  with p r frame show ?thesis
    by (intro exI [of _ c'])
      (simp add: process_chunk_byte_def smp_serial_protocol_decoder_process_byte_def told_def heard_decoder)
qed

lemma byte_failed:
  assumes "decoder_step (ctx_decoder c) (al_decoder_buf al, b) = Some (out, d)"
    and "decoder_inv (ctx_decoder c)" and "decoder_report out = Some (Inl e)"
    and "rx_ready c" and "good c"
  shows "\<exists>c'. process_chunk_byte plat al cbs c b = Some c' \<and> told c [Failed e] d c'"
proof -
  obtain r frame n where out: "out = (r, frame, n)" by (cases out)
  from assms(3) have r: "r = Inl e"
    by (cases r) (auto simp: out decoder_report.simps split: option.splits)
  from decoder_stepD [OF assms(2,1)] have "frame = None"
    by (simp add: step_refines_def out r)
  moreover from assms(1) have "process_byte (al_decoder_buf al) (ctx_decoder c) b = Some (r, frame, n, d)"
    by (auto simp: decoder_step_def out)
  moreover have "told c [Failed e] d (smp_context_notify_error cbs (c\<lparr>ctx_decoder := d\<rparr>) e)"
    using on_error [OF _ refl, of "c\<lparr>ctx_decoder := d\<rparr>" e] assms(4,5)
    by (simp add: told_def good_decoder heard_decoder rx_ready_def)
  ultimately show ?thesis
    by (simp add: r process_chunk_byte_def smp_serial_protocol_decoder_process_byte_def)
qed

lemma chunk_told:
  assumes "decoder_inv (ctx_decoder c)" and "sized (ctx_decoder c)" and "\<forall>k. sane (al_decoder_buf (al k))"
    and "rx_ready c" and "good c" and "plat_order plat = bo"
    and "run_steps decoder_step (ctx_decoder c) (chunk_inputs al k bs) = Some (outs, d')"
    and "List.map_filter decoder_report outs = map (report_wire bo) rs"
    and "\<forall>ident as. Inr (ident, as) \<in> set rs \<longrightarrow> args_valid bo as \<and> rx_room al c as"
  shows "\<exists>c'. process_chunk plat al cbs k c bs = Some c' \<and> told c (map report_event rs) d' c' \<and> sized d'"
  using assms(1-5,7-9)
proof (induction bs arbitrary: k c outs rs)
  case Nil
  then show ?case by (simp add: map_filter_simps told_def)
next
  case (Cons b bs)
  note inv = Cons.prems(1) and ready = Cons.prems(4) and good = Cons.prems(5)
  from Cons.prems(6) obtain out d1 outs' where st: "decoder_step (ctx_decoder c) (al_decoder_buf (al k), b) = Some (out, d1)"
    and rn: "run_steps decoder_step d1 (chunk_inputs al (Suc k) bs) = Some (outs', d')" and outs: "outs = out # outs'"
    unfolding chunk_inputs.simps by (rule run_steps_ConsE)
  obtain r frame n where out: "out = (r, frame, n)" by (cases out)
  have d1: "decoder_inv d1" "sized d1"
    using decoder_machine.step_inv [OF inv st] step_sized [OF st [unfolded out]] Cons.prems(2,3) by auto
  have after: ?case if "process_chunk_byte plat (al k) cbs c b = Some c1" and "told c (map report_event rs1) d1 c1"
      and "List.map_filter decoder_report outs' = map (report_wire bo) rs2" and "rs = rs1 @ rs2" for c1 rs1 rs2
  proof -
    have c1: "decoder_inv (ctx_decoder c1)" "sized (ctx_decoder c1)" "rx_ready c1" "good c1"
        "run_steps decoder_step (ctx_decoder c1) (chunk_inputs al (Suc k) bs) = Some (outs', d')"
        "\<forall>ident as. Inr (ident, as) \<in> set rs2 \<longrightarrow> args_valid bo as \<and> rx_room al c1 as"
      using d1 that(2,4) rn Cons.prems(8) told_room [OF that(2)] by (auto simp: told_def)
    from Cons.IH [OF c1(1,2) Cons.prems(3) c1(3-5) that(3) c1(6)] obtain c' where
      "process_chunk plat al cbs (Suc k) c1 bs = Some c'" "told c1 (map report_event rs2) d' c'" "sized d'"
      by blast
    with that(1,4) told_trans [OF that(2)] show ?thesis by simp
  qed
  show ?case
  proof (cases "decoder_report out")
    case None
    then have "\<not> decoder_failed out" "decoder_payload out = None"
      using report_cases [of out] by simp_all
    from process_chunk_byte_quiet [OF st this]
    have "process_chunk_byte plat (al k) cbs c b = Some (c\<lparr>ctx_decoder := d1\<rparr>)" .
    moreover have "told c (map report_event []) d1 (c\<lparr>ctx_decoder := d1\<rparr>)"
      using ready good by (simp add: told_def good_decoder heard_decoder rx_ready_def)
    ultimately show ?thesis
      using Cons.prems(7) None by (intro after [of _ "[]" rs]) (simp_all add: outs map_filter_simps)
  next
    case (Some rep)
    with Cons.prems(7) obtain r0 rs' where rs: "rs = r0 # rs'"
      and rep: "rep = report_wire bo r0"
      and rest: "List.map_filter decoder_report outs' = map (report_wire bo) rs'"
      by (cases rs) (auto simp: outs map_filter_simps)
    have "\<exists>c1. process_chunk_byte plat (al k) cbs c b = Some c1 \<and> told c [report_event r0] d1 c1"
    proof (cases r0)
      case (Inl e)
      then have "decoder_report out = Some (Inl e)" using Some rep by (simp add: report_wire_def)
      from byte_failed [OF st inv this ready good] show ?thesis by (simp add: Inl)
    next
      case (Inr msg)
      obtain ident as where msg: "msg = (ident, as)" by (cases msg)
      have "\<not> decoder_failed out" "decoder_payload out = Some (message_wire bo ident as)"
        using report_cases [of out] Some rep by (simp_all add: Inr msg report_wire_def)
      with byte_message [where al = al and k = k, OF st] Cons.prems(2-5,8) assms(6) show ?thesis
        by (simp add: Inr msg rs)
    qed
    then obtain c1 where "process_chunk_byte plat (al k) cbs c b = Some c1" "told c [report_event r0] d1 c1"
      by blast
    then show ?thesis by (intro after [of c1 "[r0]" rs']) (simp_all add: rs rest)
  qed
qed

end

end
