(* ===== verification/Smp_Context_Receive.thy ===== *)
theory Smp_Context_Receive
  imports Smp_Application
begin

text \<open>
  The receive path of \<open>src/context.c\<close>: reading chunks from the device until it has nothing left,
  decoding each byte, parsing each frame and reporting each message. An application that only
  keeps a journal of what it is told stands for all that do not call back into the library.
\<close>

section \<open>Reading until the device is empty\<close>

inductive drains :: "'d device_ops \<Rightarrow> nat \<Rightarrow> 'd \<Rightarrow> byte list list \<Rightarrow> smp_error + unit \<Rightarrow> 'd \<Rightarrow> bool"
  for ops :: "'d device_ops" and k :: nat where
  error: "dev_read ops d k = Some (Inl e, d') \<Longrightarrow>
    drains ops k d [] (if e = SMP_ERROR_WOULD_BLOCK then Inr () else Inl e) d'"
| empty: "dev_read ops d k = Some (Inr [], d') \<Longrightarrow> drains ops k d [] (Inr ()) d'"
| chunk: "dev_read ops d k = Some (Inr bs, d1) \<Longrightarrow> bs \<noteq> [] \<Longrightarrow> drains ops k d1 chunks r d' \<Longrightarrow>
    drains ops k d (bs # chunks) r d'"

context serial_device
begin

lemma drains_exists: "is_open d \<Longrightarrow> \<exists>chunks r d'. drains ops k d chunks r d'"
proof (induction "length (pending d)" arbitrary: d rule: less_induct)
  case less
  obtain ret d1 where rd: "dev_read ops d k = Some (ret, d1)"
    using read_returns [OF less.prems] by fastforce
  show ?case
  proof (cases ret)
    case (Inl e)
    from drains.error [OF rd [unfolded this]] show ?thesis by blast
  next
    case (Inr bs)
    show ?thesis
    proof (cases "bs = []")
      case True
      from drains.empty [OF rd [unfolded Inr True]] show ?thesis by blast
    next
      case False
      have "length (pending d1) + length bs \<le> length (pending d)"
        using read_shrinks [OF less.prems] rd Inr by blast
      with False have "length (pending d1) < length (pending d)" by (cases bs) auto
      moreover have "is_open d1" using read_pending [OF less.prems] rd Inr by blast
      ultimately obtain chunks r d' where "drains ops k d1 chunks r d'" using less.hyps by blast
      from drains.chunk [OF rd [unfolded Inr] False this] show ?thesis by blast
    qed
  qed
qed

lemma drains_pending:
  "drains ops k d chunks r d' \<Longrightarrow> is_open d \<Longrightarrow>
   is_open d' \<and> sent d' = sent d \<and> (healthy d' \<longrightarrow> healthy d \<and> pending d = concat chunks @ pending d')"
proof (induction rule: drains.induct)
  case (error d e d')
  with read_error show ?case by auto
next
  case (empty d d')
  with read_pending [OF empty.prems empty.hyps] show ?case by auto
next
  case (chunk d bs d1 chunks r d')
  with read_pending [OF chunk.prems chunk.hyps(1)] show ?case by auto
qed

end

section \<open>An application that keeps a journal\<close>

definition recorder :: "('d, event list) callbacks" where
  "recorder =
     \<lparr>new_message_cb = Some (\<lambda>c m. c\<lparr>ctx_userdata := ctx_userdata c @ [Received (msgid m) (message_args m)]\<rparr>),
      error_cb = Some (\<lambda>c e. c\<lparr>ctx_userdata := ctx_userdata c @ [Failed e]\<rparr>)\<rparr>"

lemma notify_recorder [simp]:
  "smp_context_notify_new_message recorder c m
    = c\<lparr>ctx_userdata := ctx_userdata c @ [Received (msgid m) (message_args m)]\<rparr>"
  "smp_context_notify_error recorder c e = c\<lparr>ctx_userdata := ctx_userdata c @ [Failed e]\<rparr>"
  by (simp_all add: smp_context_notify_new_message_def smp_context_notify_error_def recorder_def)

text \<open>The device plays no part while a chunk is processed.\<close>

lemma process_serial_frame_device:
  "smp_context_process_serial_frame plat al recorder (c\<lparr>ctx_device := dev\<rparr>) frame n =
   map_option (\<lambda>(fate, c). (fate, c\<lparr>ctx_device := dev\<rparr>))
     (smp_context_process_serial_frame plat al recorder c frame n)"
  by (auto simp: smp_context_process_serial_frame_def Let_def split: option.splits sum.splits bind_splits)

lemma process_chunk_byte_device:
  "process_chunk_byte plat al recorder (c\<lparr>ctx_device := dev\<rparr>) b =
   map_option (\<lambda>c. c\<lparr>ctx_device := dev\<rparr>) (process_chunk_byte plat al recorder c b)"
proof (cases "process_byte (al_decoder_buf al) (ctx_decoder c) b")
  case None
  then show ?thesis
    by (simp add: process_chunk_byte_def smp_serial_protocol_decoder_process_byte_def)
next
  case (Some out)
  obtain ret frame n d where out: "out = (ret, frame, n, d)" by (cases out)
  define c1 where "c1 = (case ret of
      Inl e \<Rightarrow> smp_context_notify_error recorder (c\<lparr>ctx_decoder := d\<rparr>) e
    | Inr _ \<Rightarrow> c\<lparr>ctx_decoder := d\<rparr>)"
  have "(case ret of
      Inl e \<Rightarrow> smp_context_notify_error recorder (c\<lparr>ctx_device := dev, ctx_decoder := d\<rparr>) e
    | Inr _ \<Rightarrow> c\<lparr>ctx_device := dev, ctx_decoder := d\<rparr>) = c1\<lparr>ctx_device := dev\<rparr>"
    by (simp add: c1_def split: sum.split)
  then show ?thesis
    using Some
    by (cases frame) (auto simp: out process_chunk_byte_def smp_serial_protocol_decoder_process_byte_def
        process_serial_frame_device Let_def c1_def [symmetric] split: option.split bind_splits)
qed

lemma process_chunk_device:
  "process_chunk plat al recorder k (c\<lparr>ctx_device := dev\<rparr>) bs =
   map_option (\<lambda>c. c\<lparr>ctx_device := dev\<rparr>) (process_chunk plat al recorder k c bs)"
proof (induction bs arbitrary: k c)
  case (Cons b bs)
  then show ?case
    by (cases "process_chunk_byte plat (al k) recorder c b") (simp_all add: process_chunk_byte_device)
qed simp

lemma process_chunk_append:
  "process_chunk plat al cbs k c (bs @ cs) =
   do { c \<leftarrow> process_chunk plat al cbs k c bs; process_chunk plat al cbs (k + length bs) c cs }"
proof (induction bs arbitrary: k c)
  case (Cons b bs)
  then show ?case by (cases "process_chunk_byte plat (al k) cbs c b") simp_all
qed simp

text \<open>The loop reads the device empty and processes everything it has read.\<close>

lemma process_loop_drains:
  assumes "drains (plat_ops plat) (plat_chunk plat) (ctx_device c) chunks r d'"
  shows "process_loop plat al recorder k c =
    map_option (\<lambda>c. (r, c\<lparr>ctx_device := d'\<rparr>)) (process_chunk plat al recorder k c (concat chunks))"
  using assms
proof (induction "ctx_device c" chunks r d' arbitrary: k c rule: drains.induct)
  case (error e d')
  then show ?case by (subst process_loop.simps) simp
next
  case (empty d')
  then show ?case by (subst process_loop.simps) simp
next
  case (chunk bs d1 chunks r d')
  have step: "process_loop plat al recorder k c =
      do {
        c \<leftarrow> process_chunk plat al recorder k (c\<lparr>ctx_device := d1\<rparr>) bs;
        process_loop plat al recorder (k + length bs) c
      }"
    using chunk.hyps(1,2) by (subst process_loop.simps) simp
  show ?case
  proof (cases "process_chunk plat al recorder k c bs")
    case None
    then show ?thesis by (simp add: step process_chunk_device process_chunk_append)
  next
    case (Some c1)
    have "process_loop plat al recorder k c = process_loop plat al recorder (k + length bs) (c1\<lparr>ctx_device := d1\<rparr>)"
      by (simp add: step process_chunk_device Some)
    also have "\<dots> = map_option (\<lambda>c. (r, c\<lparr>ctx_device := d'\<rparr>))
        (process_chunk plat al recorder (k + length bs) (c1\<lparr>ctx_device := d1\<rparr>) (concat chunks))"
      using chunk.hyps(4) [of "c1\<lparr>ctx_device := d1\<rparr>"] by simp
    finally show ?thesis
      by (simp add: process_chunk_device process_chunk_append Some option.map_comp comp_def)
  qed
qed

section \<open>A stream of messages\<close>

lemma process_serial_frame_message:
  assumes "take (unat n) buf = message_wire (plat_order plat) ident as" and "unat n \<le> length buf"
    and "length buf \<le> PTRDIFF_MAX" and "args_valid (plat_order plat) as"
    and "rx_ready c" and "rx_room al c as"
  shows "\<exists>fate rx. smp_context_process_serial_frame plat (al k) recorder c buf n =
      Some (fate, c\<lparr>ctx_userdata := ctx_userdata c @ [Received ident (Some as)], ctx_msg_rx := rx\<rparr>) \<and>
    fate = (if ctx_msg_rx c = None then Released [FreeValues, FreeMessage] else Cleared) \<and>
    rx_ready (c\<lparr>ctx_msg_rx := rx\<rparr>) \<and> map_option capacity rx = map_option capacity (ctx_msg_rx c)"
proof -
  from process_serial_frame_parsed [OF assms, of recorder k] obtain fate m rx where
    "smp_context_process_serial_frame plat (al k) recorder c buf n =
      Some (fate, (smp_context_notify_new_message recorder (loaded c m) m)\<lparr>ctx_msg_rx := rx\<rparr>)"
    "msgid m = ident" "message_args m = Some as"
    "fate = (if ctx_msg_rx c = None then Released [FreeValues, FreeMessage] else Cleared)"
    "rx_ready (c\<lparr>ctx_msg_rx := rx\<rparr>)" "map_option capacity rx = map_option capacity (ctx_msg_rx c)"
    by auto
  then show ?thesis by (intro exI [of _ fate] exI [of _ rx]) (simp add: loaded_def)
qed

text \<open>The journal of an application that leaves the device as it is.\<close>

interpretation recorder_app: application recorder bo "\<lambda>c. ctx_device c = dev \<and> ctx_opened c = op" ctx_userdata
  for bo dev op
  by unfold_locales (auto simp: recorder_def smp_context_notify_new_message_def smp_context_notify_error_def)

lemma process_chunk_run:
  assumes "decoder_inv (ctx_decoder c)" and "sized (ctx_decoder c)" and "\<forall>k. sane (al_decoder_buf (al k))"
    and "rx_ready c"
    and "run_steps decoder_step (ctx_decoder c) (chunk_inputs al k bs) = Some (outs, d')"
    and "List.map_filter decoder_report outs = map (report_wire (plat_order plat)) rs"
    and "\<forall>ident as. Inr (ident, as) \<in> set rs \<longrightarrow> args_valid (plat_order plat) as \<and> rx_room al c as"
  shows "\<exists>c'. process_chunk plat al recorder k c bs = Some c' \<and>
    ctx_decoder c' = d' \<and> ctx_device c' = ctx_device c \<and> ctx_opened c' = ctx_opened c \<and>
    ctx_userdata c' = ctx_userdata c @ map report_event rs \<and> rx_ready c'"
  using recorder_app.chunk_told [OF assms(1-4) _ refl assms(5-7)]
  by (auto simp: recorder_app.told_def)

text \<open>
  What travels on the line: frames, each after bytes that cannot begin a frame. A frame holds a
  message, or it was damaged on the way and holds bytes that the checksum gives away.
\<close>

type_synonym line_item = "byte list + u32 \<times> arg list"

fun item_body :: "byte_order \<Rightarrow> line_item \<Rightarrow> byte list" where
  "item_body bo (Inl w) = w"
| "item_body bo (Inr (ident, as)) =
     message_wire bo ident as @ [compute_checksum (message_wire bo ident as)]"

definition item_report :: "line_item \<Rightarrow> smp_error + u32 \<times> arg list" where
  "item_report = map_sum (\<lambda>_. SMP_ERROR_BAD_MESSAGE) id"

definition noisy_bytes :: "byte_order \<Rightarrow> (byte list \<times> line_item) list \<Rightarrow> byte list" where
  "noisy_bytes bo items = concat (map (\<lambda>(noise, it). noise @ line_frame (item_body bo it)) items)"

definition noisy_ok ::
  "'d platform \<Rightarrow> (nat \<Rightarrow> answers) \<Rightarrow> ('d, 'u) smp_context \<Rightarrow> (byte list \<times> line_item) list \<Rightarrow> bool" where
  "noisy_ok plat al c items \<longleftrightarrow>
     (\<forall>(noise, it)\<in>set items. START_BYTE \<notin> set noise \<and>
        (case it of
           Inl w \<Rightarrow> line_result w = Inl SMP_ERROR_BAD_MESSAGE
         | Inr (ident, as) \<Rightarrow> args_valid (plat_order plat) as \<and> rx_room al c as) \<and>
        decoder_fits (ctx_decoder c) (chunk_inputs al 0 (noisy_bytes (plat_order plat) items))
          (length (item_body (plat_order plat) it) - 1))"

definition noisy_journal :: "(byte list \<times> line_item) list \<Rightarrow> event list" where
  "noisy_journal items = map (\<lambda>(noise, it). report_event (item_report it)) items"

lemma item_result:
  "(\<forall>w. it = Inl w \<longrightarrow> line_result w = Inl SMP_ERROR_BAD_MESSAGE) \<Longrightarrow>
   line_result (item_body bo it) = report_wire bo (item_report it)"
  by (cases "(bo, it)" rule: item_body.cases)
     (simp_all add: item_report_def report_wire_def line_result_payload)

text \<open>The whole line, decoded.\<close>

lemma noisy_run:
  assumes "decoder_inv (ctx_decoder c)" and "dec_state (ctx_decoder c) = WAIT_HEADER"
    and "noisy_ok plat al c items"
  obtains outs d' where "run_steps decoder_step (ctx_decoder c)
      (chunk_inputs al 0 (noisy_bytes (plat_order plat) items)) = Some (outs, d')"
    and "dec_state d' = WAIT_HEADER"
    and "List.map_filter decoder_report outs =
      map (report_wire (plat_order plat)) (map (\<lambda>(noise, it). item_report it) items)"
    and "\<forall>ident as. Inr (ident, as) \<in> set (map (\<lambda>(noise, it). item_report it) items) \<longrightarrow>
      args_valid (plat_order plat) as \<and> rx_room al c as"
proof -
  let ?bo = "plat_order plat" and ?d = "ctx_decoder c"
  let ?in = "chunk_inputs al 0 (noisy_bytes ?bo items)"
  define frames where "frames = map (\<lambda>(noise, it). (noise, item_body ?bo it)) items"
  obtain outs d' where run: "run_steps decoder_step ?d ?in = Some (outs, d')"
    using decoder_machine.run_progress [OF assms(1), of ?in] by blast
  have idle: "decoder_idle ?d" by (simp add: decoder_idle_def assms(2))
  have ok: "\<forall>(ns, w)\<in>set frames. (\<forall>b\<in>set ns. b \<noteq> START_BYTE) \<and> decoder_fits ?d ?in (length w - 1)"
    using assms(3) by (fastforce simp: noisy_ok_def frames_def)
  have bytes: "map snd ?in = concat (map (\<lambda>(ns, w). ns @ line_frame w) frames)"
    by (auto simp: noisy_bytes_def frames_def intro!: arg_cong [where f = concat])
  have "map (\<lambda>(ns, w). line_result w) frames = map (report_wire ?bo) (map (\<lambda>(noise, it). item_report it) items)"
    using assms(3) by (auto simp: frames_def noisy_ok_def intro!: item_result split: sum.splits)
  with decoder_framing.stream_run [OF assms(1) idle ok bytes run]
  have "dec_state d' = WAIT_HEADER" "List.map_filter decoder_report outs =
      map (report_wire ?bo) (map (\<lambda>(noise, it). item_report it) items)"
    by (simp_all add: decoder_idle_def)
  moreover have "\<forall>ident as. Inr (ident, as) \<in> set (map (\<lambda>(noise, it). item_report it) items) \<longrightarrow>
      args_valid ?bo as \<and> rx_room al c as"
    using assms(3) by (fastforce simp: noisy_ok_def item_report_def map_sum_def split: sum.splits)
  ultimately show thesis using that [OF run] by blast
qed

text \<open>Any part of the line that is read is decoded to the frames that are complete in it.\<close>

lemma process_chunk_noisy:
  assumes "decoder_inv (ctx_decoder c)" and "dec_state (ctx_decoder c) = WAIT_HEADER"
    and "sized (ctx_decoder c)" and "\<forall>k. sane (al_decoder_buf (al k))" and "rx_ready c"
    and "noisy_ok plat al c items" and "noisy_bytes (plat_order plat) items = bs @ rest"
  shows "\<exists>c' n. process_chunk plat al recorder 0 c bs = Some c' \<and>
    ctx_device c' = ctx_device c \<and> ctx_opened c' = ctx_opened c \<and> rx_ready c' \<and>
    decoder_inv (ctx_decoder c') \<and>
    ctx_userdata c' = ctx_userdata c @ noisy_journal (take n items) \<and>
    (rest = [] \<longrightarrow> n = length items \<and> dec_state (ctx_decoder c') = WAIT_HEADER)"
proof -
  let ?bo = "plat_order plat" and ?d = "ctx_decoder c"
  define rs where "rs = map (\<lambda>(noise, it). item_report it) items"
  obtain outs d' where run: "run_steps decoder_step ?d (chunk_inputs al 0 (bs @ rest)) = Some (outs, d')"
    and res: "dec_state d' = WAIT_HEADER" "List.map_filter decoder_report outs = map (report_wire ?bo) rs"
    and all: "\<forall>ident as. Inr (ident, as) \<in> set rs \<longrightarrow> args_valid ?bo as \<and> rx_room al c as"
    using noisy_run [OF assms(1,2,6)] unfolding assms(7) rs_def .
  obtain outs1 outs2 d1 where run1: "run_steps decoder_step ?d (chunk_inputs al 0 bs) = Some (outs1, d1)"
    and run2: "run_steps decoder_step d1 (chunk_inputs al (0 + length bs) rest) = Some (outs2, d')"
    and outs: "outs = outs1 @ outs2"
    using run unfolding chunk_inputs_append by (rule run_steps_appendE)
  have "List.map_filter decoder_report outs1 @ List.map_filter decoder_report outs2 = map (report_wire ?bo) rs"
    using res(2) by (simp add: outs)
  then obtain rs1 rs2 where rs: "rs = rs1 @ rs2"
    and rep1: "List.map_filter decoder_report outs1 = map (report_wire ?bo) rs1"
    and rep2: "List.map_filter decoder_report outs2 = map (report_wire ?bo) rs2"
    by (metis map_eq_appendE)
  from all have valid: "\<forall>ident as. Inr (ident, as) \<in> set rs1 \<longrightarrow> args_valid ?bo as \<and> rx_room al c as"
    by (simp add: rs)
  from process_chunk_run [OF assms(1,3,4,5) run1 rep1 valid] obtain c' where
    c': "process_chunk plat al recorder 0 c bs = Some c'" "ctx_decoder c' = d1"
      "ctx_device c' = ctx_device c" "ctx_opened c' = ctx_opened c" "rx_ready c'"
      "ctx_userdata c' = ctx_userdata c @ map report_event rs1"
    by blast
  have "rs1 = map (\<lambda>(noise, it). item_report it) (take (length rs1) items)"
    using rs by (simp add: rs_def take_map [symmetric])
  then have "map report_event rs1 = map report_event (map (\<lambda>(noise, it). item_report it) (take (length rs1) items))"
    by simp
  also have "\<dots> = noisy_journal (take (length rs1) items)" by (simp add: noisy_journal_def case_prod_beta)
  finally have "map report_event rs1 = noisy_journal (take (length rs1) items)" .
  moreover have "decoder_inv d1" using assms(1) run1 by (rule decoder_machine.run_inv)
  moreover have "length rs1 = length items \<and> d1 = d'" if "rest = []"
  proof -
    have "outs2 = []" "d1 = d'" using run2 that by simp_all
    then have "rs2 = []" using rep2 by (simp add: map_filter_simps)
    then have "length rs1 = length items" using rs by (simp add: rs_def flip: length_map [of "\<lambda>(noise, it). item_report it"])
    with \<open>d1 = d'\<close> show ?thesis by simp
  qed
  ultimately show ?thesis
    using c' res(1) by (intro exI [of _ c'] exI [of _ "length rs1"]) (auto simp: decoder_idle_def)
qed

text \<open>A line on which nothing was damaged.\<close>

type_synonym segment = "byte list \<times> u32 \<times> arg list"

definition line_bytes :: "byte_order \<Rightarrow> segment list \<Rightarrow> byte list" where
  "line_bytes bo segs = concat (map (\<lambda>(noise, ident, as). noise @ serial_frame (message_wire bo ident as)) segs)"

definition segments_ok ::
  "'d platform \<Rightarrow> (nat \<Rightarrow> answers) \<Rightarrow> ('d, 'u) smp_context \<Rightarrow> segment list \<Rightarrow> bool" where
  "segments_ok plat al c segs \<longleftrightarrow>
     (\<forall>(noise, ident, as)\<in>set segs. START_BYTE \<notin> set noise \<and> args_valid (plat_order plat) as \<and>
        rx_room al c as \<and>
        decoder_fits (ctx_decoder c) (chunk_inputs al 0 (line_bytes (plat_order plat) segs))
          (8 + length (args_wire (plat_order plat) as)))"

definition journal :: "segment list \<Rightarrow> event list" where
  "journal segs = map (\<lambda>(noise, ident, as). Received ident (Some as)) segs"

definition intact :: "segment list \<Rightarrow> (byte list \<times> line_item) list" where
  "intact segs = map (\<lambda>(noise, msg). (noise, Inr msg)) segs"

lemma intact_bytes: "noisy_bytes bo (intact segs) = line_bytes bo segs"
  by (auto simp: noisy_bytes_def line_bytes_def intact_def line_frame_payload intro!: arg_cong [where f = concat])

lemma intact_journal: "noisy_journal (take n (intact segs)) = journal (take n segs)"
  by (auto simp: noisy_journal_def journal_def intact_def take_map item_report_def)

lemma intact_ok: "segments_ok plat al c segs \<Longrightarrow> noisy_ok plat al c (intact segs)"
  unfolding noisy_ok_def intact_bytes by (fastforce simp: segments_ok_def intact_def)

text \<open>An application that sends messages in a row until one fails.\<close>

fun send_all ::
  "'d platform \<Rightarrow> answers \<Rightarrow> ('d, 'u) smp_context \<Rightarrow> message list
   \<Rightarrow> ((smp_error + unit) \<times> ('d, 'u) smp_context) option" where
  "send_all plat al c [] = Some (Inr (), c)"
| "send_all plat al c (m # ms) =
     do {
       (ret, rel, ctx) \<leftarrow> smp_context_send_message plat al (Some c) (Some m);
       c \<leftarrow> ctx;
       case ret of Inl e \<Rightarrow> Some (Inl e, c) | Inr _ \<Rightarrow> send_all plat al c ms
     }"

definition sendable :: "'d platform \<Rightarrow> message \<Rightarrow> bool" where
  "sendable plat m \<longleftrightarrow>
     (\<exists>as. message_args m = Some as \<and> length (args_wire (plat_order plat) as) < 2 ^ 32)"

definition frame_of :: "'d platform \<Rightarrow> message \<Rightarrow> byte list" where
  "frame_of plat m = serial_frame (outgoing plat m (the (message_args m)))"

text \<open>The messages as the receiver should report them: arguments that do not fit are not sent.\<close>

definition delivered :: "message list \<Rightarrow> segment list" where
  "delivered ms = map (\<lambda>m. ([], msgid m, filter arg_fits (the (message_args m)))) ms"

lemma line_bytes_delivered:
  "line_bytes (plat_order plat) (delivered ms) = concat (map (frame_of plat) ms)"
  by (simp add: line_bytes_def delivered_def frame_of_def [abs_def] outgoing_def comp_def)

context serial_device
begin

text \<open>
  Processing the input of a device returns. When the device lost nothing, what it had read is a
  part of the line from its start, and the journal has the frames complete in that part.
\<close>

lemma process_fd_noisy:
  assumes "plat_ops plat = ops" and "is_open (ctx_device c)" and "ctx_opened c"
    and "decoder_inv (ctx_decoder c)" and "dec_state (ctx_decoder c) = WAIT_HEADER"
    and "sized (ctx_decoder c)" and "\<forall>k. sane (al_decoder_buf (al k))" and "rx_ready c"
    and "noisy_ok plat al c items"
    and "pending (ctx_device c) = noisy_bytes (plat_order plat) items"
  shows "\<exists>chunks r d'. drains ops (plat_chunk plat) (ctx_device c) chunks r d' \<and> is_open d' \<and>
    (healthy d' \<longrightarrow> (\<exists>c' n. smp_context_process_fd plat al recorder (Some c) = Some (r, Some c') \<and>
      ctx_device c' = d' \<and> ctx_opened c' \<and> rx_ready c' \<and>
      ctx_userdata c' = ctx_userdata c @ noisy_journal (take n items) \<and>
      (pending d' = [] \<longrightarrow> n = length items \<and> dec_state (ctx_decoder c') = WAIT_HEADER)))"
proof -
  from drains_exists [OF assms(2), of "plat_chunk plat"] obtain chunks r d' where
    dr: "drains ops (plat_chunk plat) (ctx_device c) chunks r d'" by blast
  from drains_pending [OF dr assms(2)] have op: "is_open d'"
    and pend: "healthy d' \<Longrightarrow> noisy_bytes (plat_order plat) items = concat chunks @ pending d'"
    by (simp_all add: assms(10))
  have "\<exists>c' n. smp_context_process_fd plat al recorder (Some c) = Some (r, Some c') \<and>
      ctx_device c' = d' \<and> ctx_opened c' \<and> rx_ready c' \<and>
      ctx_userdata c' = ctx_userdata c @ noisy_journal (take n items) \<and>
      (pending d' = [] \<longrightarrow> n = length items \<and> dec_state (ctx_decoder c') = WAIT_HEADER)"
    if "healthy d'"
  proof -
    from process_chunk_noisy [OF assms(4-9) pend [OF that]] obtain c' n where
      c': "process_chunk plat al recorder 0 c (concat chunks) = Some c'" "ctx_opened c' = ctx_opened c"
        "rx_ready c'" "ctx_userdata c' = ctx_userdata c @ noisy_journal (take n items)"
        "pending d' = [] \<longrightarrow> n = length items \<and> dec_state (ctx_decoder c') = WAIT_HEADER"
      by blast
    have "process_loop plat al recorder 0 c = Some (r, c'\<lparr>ctx_device := d'\<rparr>)"
      using process_loop_drains [of plat c chunks r d' al 0] dr c'(1) by (simp add: assms(1))
    with c' assms(3) show ?thesis
      by (intro exI [of _ "c'\<lparr>ctx_device := d'\<rparr>"] exI [of _ n])
        (simp add: smp_context_process_fd_def rx_ready_def)
  qed
  with dr op show ?thesis by blast
qed

lemma process_fd_stream:
  assumes "plat_ops plat = ops" and "is_open (ctx_device c)" and "ctx_opened c"
    and "decoder_inv (ctx_decoder c)" and "dec_state (ctx_decoder c) = WAIT_HEADER"
    and "sized (ctx_decoder c)" and "\<forall>k. sane (al_decoder_buf (al k))" and "rx_ready c"
    and "segments_ok plat al c segs"
    and "pending (ctx_device c) = line_bytes (plat_order plat) segs"
  shows "\<exists>chunks r d'. drains ops (plat_chunk plat) (ctx_device c) chunks r d' \<and> is_open d' \<and>
    (healthy d' \<longrightarrow> (\<exists>c' n. smp_context_process_fd plat al recorder (Some c) = Some (r, Some c') \<and>
      ctx_device c' = d' \<and> ctx_opened c' \<and> rx_ready c' \<and>
      ctx_userdata c' = ctx_userdata c @ journal (take n segs) \<and>
      (pending d' = [] \<longrightarrow> n = length segs \<and> dec_state (ctx_decoder c') = WAIT_HEADER)))"
  using process_fd_noisy [OF assms(1-8) intact_ok [OF assms(9)]] assms(10)
  by (simp add: intact_bytes intact_journal) (simp add: intact_def)

text \<open>A send that reports success has put exactly the frame of the message on the line.\<close>

lemma send_message_sent:
  assumes "plat_ops plat = ops" and "is_open (ctx_device c)" and "ctx_opened c" and "tx_ready c"
    and "message_args m = Some as" and "length (args_wire (plat_order plat) as) < 2 ^ 32"
    and "smp_context_send_message plat al (Some c) (Some m) = Some (Inr (), rel, Some c')"
  shows "sent (ctx_device c') = sent (ctx_device c) @ serial_frame (outgoing plat m as) \<and>
    is_open (ctx_device c') \<and> ctx_opened c' \<and> ctx_decoder c' = ctx_decoder c \<and>
    ctx_msg_rx c' = ctx_msg_rx c \<and> ctx_userdata c' = ctx_userdata c \<and> tx_ready c' \<and>
    rel = sent_releases c"
  using send_message_cases [OF assms(3-6), of al]
proof cases
  case (1 e)
  with assms(7) show ?thesis by simp
next
  case (2 e data)
  with assms(7) show ?thesis by simp
next
  case (3 data txbuf)
  let ?f = "serial_frame (outgoing plat m as)"
  let ?c = "c\<lparr>ctx_msg_tx := buffer_written (ctx_msg_tx c) data\<rparr>"
  have "write_frame plat ?c txbuf ?f \<bind> (\<lambda>(ret, serial, c'). Some (ret, sent_releases c, Some c')) =
      Some (Inr (), rel, Some c')"
    using 3(1) assms(7) by simp
  then obtain serial where w: "write_frame plat ?c txbuf ?f = Some (Inr (), serial, c')"
    and rel: "rel = sent_releases c"
    by (auto simp: bind_eq_Some_conv)
  from w obtain n dev where dev: "dev_write ops (ctx_device c) ?f = Some (Inr n, dev)"
    and c': "c' = ?c\<lparr>ctx_serial_tx := buffer_written (ctx_serial_tx ?c) txbuf, ctx_device := dev\<rparr>"
    and n: "n = of_nat (length ?f)"
    by (rule write_frame_SomeE) (auto simp: assms(1) split: sum.splits if_splits)
  have "2 * length (outgoing plat m as) + 4 < 2 ^ 64"
    using outgoing_length [OF assms(6), of m] by simp
  then have "unat n = length ?f" unfolding n by (rule unat_frame_length)
  moreover have "length ?f < 2 ^ 64"
    using unsigned_less [of n, where 'a = nat] calculation by simp
  moreover have "tx_ready c'"
    using assms(4) 3(2,3) by (auto simp: c' tx_ready_def buffer_written_def buffer_wf_def)
  ultimately show ?thesis using write_sent [OF assms(2) _ dev] c' rel assms(3) by simp
qed

text \<open>So do many sends in a row, as long as each succeeds.\<close>

lemma send_all_sent:
  assumes "plat_ops plat = ops" and "is_open (ctx_device c)" and "ctx_opened c" and "tx_ready c"
    and "\<And>m. m \<in> set ms \<Longrightarrow> sendable plat m" and "send_all plat al c ms = Some (Inr (), c')"
  shows "sent (ctx_device c') = sent (ctx_device c) @ concat (map (frame_of plat) ms) \<and>
    is_open (ctx_device c') \<and> ctx_opened c'"
  using assms(2-6)
proof (induction ms arbitrary: c)
  case Nil
  then show ?case by simp
next
  case (Cons m ms)
  from Cons.prems(5) obtain ret rel c1 where
    run: "smp_context_send_message plat al (Some c) (Some m) = Some (ret, rel, Some c1)"
    and after: "(case ret of Inl e \<Rightarrow> Some (Inl e, c1) | Inr _ \<Rightarrow> send_all plat al c1 ms) = Some (Inr (), c')"
    by (auto simp: bind_eq_Some_conv)
  then have one: "smp_context_send_message plat al (Some c) (Some m) = Some (Inr (), rel, Some c1)"
    and rest: "send_all plat al c1 ms = Some (Inr (), c')"
    by (auto split: sum.splits)
  obtain as where as: "message_args m = Some as" "length (args_wire (plat_order plat) as) < 2 ^ 32"
    using Cons.prems(4) [of m] by (auto simp: sendable_def)
  from send_message_sent [OF assms(1) Cons.prems(1-3) as one]
  have c1: "sent (ctx_device c1) = sent (ctx_device c) @ frame_of plat m" "is_open (ctx_device c1)"
      "ctx_opened c1" "tx_ready c1"
    using as(1) by (simp_all add: frame_of_def)
  from Cons.IH [OF c1(2-4) _ rest] Cons.prems(4) c1(1) show ?case by simp
qed

end

end
