(* ===== verification/Smp_Context_Safe.thy ===== *)
theory Smp_Context_Safe
  imports Smp_Context
begin

text \<open>
  The life of a context: every sequence of calls of the interface of \<open>src/context.c\<close>, made by the
  application or by its callbacks, and how the context uses its device meanwhile. What holds for every
  use of a device, by the contract \<open>managed_device\<close>, then holds for the device of a context.
\<close>

section \<open>Sequences of calls\<close>

text \<open>
  What a callback may do, too: change the data of the application and call every function that neither
  closes the context nor processes input. Processing does not look again whether the context
  is opened, and its chunk is a static array that a second call would overwrite.
\<close>

inductive inner_call :: "'d platform \<Rightarrow> ('d, 'u) smp_context \<Rightarrow> ('d, 'u) smp_context \<Rightarrow> bool"
  for plat :: "'d platform" where
  inner_userdata: "inner_call plat c (c\<lparr>ctx_userdata := u\<rparr>)"
| inner_open: "smp_context_open plat (Some c) path = Some (r, Some c') \<Longrightarrow> inner_call plat c c'"
| inner_config: "smp_context_set_serial_config plat (Some c) baudrate parity fc = Some (r, Some c') \<Longrightarrow>
    inner_call plat c c'"
| inner_send: "smp_context_send_message plat al (Some c) msg = Some (r, rel, Some c') \<Longrightarrow> inner_call plat c c'"
| inner_capacity: "smp_context_set_decoder_maximum_capacity (Some c) mx = (r, Some c') \<Longrightarrow> inner_call plat c c'"

definition restrained :: "'d platform \<Rightarrow> ('d, 'u) callbacks \<Rightarrow> bool" where
  "restrained plat cbs \<longleftrightarrow>
     (\<forall>f c m. new_message_cb cbs = Some f \<longrightarrow> rtranclp (inner_call plat) c (f c m)) \<and>
     (\<forall>f c e. error_cb cbs = Some f \<longrightarrow> rtranclp (inner_call plat) c (f c e))"

inductive api_call ::
  "'d platform \<Rightarrow> ('d, 'u) callbacks \<Rightarrow> ('d, 'u) smp_context \<Rightarrow> ('d, 'u) smp_context \<Rightarrow> bool"
  for plat :: "'d platform" and cbs :: "('d, 'u) callbacks" where
  call_inner: "inner_call plat c c' \<Longrightarrow> api_call plat cbs c c'"
| call_close: "smp_context_close plat (Some c) = Some (Some c') \<Longrightarrow> api_call plat cbs c c'"
| call_process: "smp_context_process_fd plat als cbs (Some c) = Some (r, Some c') \<Longrightarrow> api_call plat cbs c c'"
| call_wait: "smp_context_wait_and_process plat als cbs (Some c) t = Some (r, Some c') \<Longrightarrow>
    api_call plat cbs c c'"

inductive api_reachable ::
  "('d \<Rightarrow> bool) \<Rightarrow> 'd platform \<Rightarrow> ('d, 'u) callbacks \<Rightarrow> ('d, 'u) smp_context \<Rightarrow> bool"
  for start :: "'d \<Rightarrow> bool" and plat :: "'d platform" and cbs :: "('d, 'u) callbacks" where
  created: "start dev \<Longrightarrow> smp_context_new plat al dev (Some cbs) u = Some c \<Longrightarrow> api_reachable start plat cbs c"
| created_static: "start (ctx_device storage) \<Longrightarrow>
    smp_context_new_from_static plat (Some storage) sz (Some cbs) u dec stx mtx mrx = Some c \<Longrightarrow>
    api_reachable start plat cbs c"
| called: "api_reachable start plat cbs c \<Longrightarrow> api_call plat cbs c c' \<Longrightarrow> api_reachable start plat cbs c'"

section \<open>What a send does to the context\<close>

lemma send_frame_device:
  assumes "send_frame plat al c data n = Some (ret, serial, c')"
  shows "ctx_opened c' = ctx_opened c \<and> ctx_msg_rx c' = ctx_msg_rx c \<and> ctx_decoder c' = ctx_decoder c \<and>
    (ctx_device c' = ctx_device c \<or>
     (\<exists>bs w. dev_write (plat_ops plat) (ctx_device c) bs = Some (w, ctx_device c')))"
proof -
  obtain buf sz where buf: "(case ctx_serial_tx c of None \<Rightarrow> (None, 0)
      | Some b \<Rightarrow> (Some (buf_data b), buf_maxsize b)) = (buf, sz)" by fastforce
  from assms obtain ret1 out where
    enc: "smp_serial_protocol_encode (al_serial al) (al_junk al) (Some data) n (Some buf) sz = Some (ret1, Some out)"
    by (auto simp: send_frame_def buf bind_eq_Some_conv)
  show ?thesis
  proof (cases ret1)
    case (Inl e)
    with assms show ?thesis by (simp add: send_frame_def buf enc)
  next
    case (Inr k)
    with assms obtain txbuf bytes wret dev where
      w: "dev_write (plat_ops plat) (ctx_device c) bytes = Some (wret, dev)"
      and res: "(let c = c\<lparr>ctx_serial_tx := buffer_written (ctx_serial_tx c) txbuf, ctx_device := dev\<rparr> in
        case wret of Inl e \<Rightarrow> Some (Inl e, out, c)
        | Inr wbytes \<Rightarrow> Some (if wbytes \<noteq> k then Inl SMP_ERROR_IO else Inr (), out, c)) = Some (ret, serial, c')"
      by (auto simp: send_frame_def buf enc bind_eq_Some_conv)
    have "c' = c\<lparr>ctx_serial_tx := buffer_written (ctx_serial_tx c) txbuf, ctx_device := dev\<rparr>"
      using res by (cases wret) (simp_all add: Let_def)
    with w show ?thesis by auto
  qed
qed

text \<open>What a send does to the context: nothing, it encodes the message, or it frames and writes it too.\<close>

lemma send_coded_shape:
  assumes "do {
      (ret, out) \<leftarrow> smp_message_encode (plat_order plat) msg (Some (buf_data b)) (buf_maxsize b);
      data \<leftarrow> out;
      let c = c\<lparr>ctx_msg_tx := buffer_written (ctx_msg_tx c) data\<rparr>;
      case ret of
        Inl e \<Rightarrow> Some (Inl e, send_release c b None, Some c)
      | Inr n \<Rightarrow>
          do {
            (ret, serial, c) \<leftarrow> send_frame plat al c data n;
            Some (ret, send_release c b serial, Some c)
          }
    } = Some (ret, rel, Some c')"
  obtains (encoded) data where "c' = c\<lparr>ctx_msg_tx := buffer_written (ctx_msg_tx c) data\<rparr>"
  | (framed) data n serial where
      "send_frame plat al (c\<lparr>ctx_msg_tx := buffer_written (ctx_msg_tx c) data\<rparr>) data n = Some (ret, serial, c')"
proof -
  from assms obtain ret1 data where
    enc: "smp_message_encode (plat_order plat) msg (Some (buf_data b)) (buf_maxsize b) = Some (ret1, Some data)"
    by (auto simp: bind_eq_Some_conv)
  show thesis
  proof (cases ret1)
    case (Inl e)
    with assms enc show thesis by (intro encoded [of data]) (simp add: Let_def)
  next
    case (Inr n)
    with assms enc show thesis by (auto simp: bind_eq_Some_conv intro: framed)
  qed
qed

lemma send_message_shape:
  assumes "smp_context_send_message plat al (Some c) msg = Some (ret, rel, Some c')"
  obtains (same) "c' = c"
  | (encoded) data where "c' = c\<lparr>ctx_msg_tx := buffer_written (ctx_msg_tx c) data\<rparr>"
  | (framed) data n serial where "ctx_opened c"
    and "send_frame plat al (c\<lparr>ctx_msg_tx := buffer_written (ctx_msg_tx c) data\<rparr>) data n = Some (ret, serial, c')"
proof (cases "msg = None \<or> \<not> ctx_opened c")
  case True
  with assms show thesis by (intro same) (auto simp: smp_context_send_message_def split: if_splits)
next
  case False
  with assms obtain msgsize where size: "smp_message_get_encoded_size msg = Some msgsize"
    by (auto simp: smp_context_send_message_def bind_eq_Some_conv)
  have opened: "ctx_opened c" using False by simp
  note coded = send_coded_shape [of plat msg _ c al ret rel c' thesis, OF _ encoded framed [OF opened]]
  show thesis
  proof (cases "ctx_msg_tx c")
    case None
    obtain ob rel0 where alloc: "smp_buffer_new_allocate (al_buffer al) (al_buffer_data al) msgsize = (ob, rel0)"
      by fastforce
    show thesis
    proof (cases ob)
      case (Some b)
      show thesis
        by (rule coded [of b])
          (use assms False size None alloc Some in \<open>auto simp: smp_context_send_message_def Let_def\<close>)
    qed (use assms False size None alloc same in \<open>auto simp: smp_context_send_message_def\<close>)
  next
    case (Some b)
    show thesis
    proof (cases "buf_maxsize b < msgsize")
      case True
      with assms False size Some same show thesis by (auto simp: smp_context_send_message_def)
    next
      case fits: False
      show thesis
        by (rule coded [of b])
          (use assms False size Some fits in \<open>auto simp: smp_context_send_message_def Let_def\<close>)
    qed
  qed
qed

section \<open>The use of the device\<close>

definition living :: "('d \<Rightarrow> bool) \<Rightarrow> 'd platform \<Rightarrow> ('d, 'u) smp_context \<Rightarrow> bool" where
  "living start plat c \<longleftrightarrow> device_life start (plat_ops plat) (ctx_device c) (ctx_opened c)"

lemma living_update [simp]:
  "living start plat (c\<lparr>ctx_userdata := u\<rparr>) = living start plat c"
  "living start plat (c\<lparr>ctx_decoder := dec\<rparr>) = living start plat c"
  "living start plat (c\<lparr>ctx_msg_tx := mtx\<rparr>) = living start plat c"
  "living start plat (c\<lparr>ctx_msg_rx := mrx\<rparr>) = living start plat c"
  by (simp_all add: living_def)

lemma send_message_living:
  assumes "smp_context_send_message plat al (Some c) msg = Some (ret, rel, Some c')" and "living start plat c"
  shows "living start plat c' \<and> ctx_opened c' = ctx_opened c"
  using assms(1)
proof (cases rule: send_message_shape)
  case (framed data n serial)
  from send_frame_device [OF framed(2)] framed(1) assms(2) show ?thesis
    by (auto simp: living_def intro: life_write)
qed (use assms(2) in simp_all)

text \<open>A call of a callback: the context stays opened if it is.\<close>

lemma inner_call_living:
  assumes "inner_call plat c c'" and "living start plat c"
  shows "living start plat c' \<and> (ctx_opened c \<longrightarrow> ctx_opened c')"
  using assms(1)
proof cases
  case (inner_open path r)
  show ?thesis
  proof (cases "path = None \<or> ctx_opened c")
    case True
    with inner_open assms(2) show ?thesis by (cases path) (simp_all add: smp_context_open_def)
  next
    case False
    with inner_open obtain p a dev where o: "dev_open (plat_ops plat) (ctx_device c) p = Some (a, dev)"
      and res: "(case a of Inl e \<Rightarrow> (Inl e, Some (c\<lparr>ctx_device := dev\<rparr>))
        | Inr _ \<Rightarrow> (Inr (), Some (c\<lparr>ctx_device := dev, ctx_opened := True\<rparr>))) = (r, Some c')"
      by (cases path) (auto simp: smp_context_open_def bind_eq_Some_conv Let_def)
    have "device_life start (plat_ops plat) (ctx_device c) False"
      using assms(2) False by (simp add: living_def)
    from life_open [OF this o] res False show ?thesis by (cases a) (auto simp: living_def)
  qed
next
  case (inner_config baudrate parity fc r)
  with assms(2) show ?thesis
    by (auto simp: smp_context_set_serial_config_def living_def bind_eq_Some_conv intro: life_config)
next
  case (inner_send al msg r rel)
  from send_message_living [OF this assms(2)] show ?thesis by simp
next
  case (inner_capacity mx r)
  with assms(2) show ?thesis
    by (auto simp: smp_context_set_decoder_maximum_capacity_def living_def
        split: prod.splits option.splits if_splits)
qed (use assms(2) in simp)

definition busy :: "('d \<Rightarrow> bool) \<Rightarrow> 'd platform \<Rightarrow> ('d, 'u) smp_context \<Rightarrow> bool" where
  "busy start plat c \<longleftrightarrow> living start plat c \<and> ctx_opened c"

lemma busy_update [simp]:
  "busy start plat (c\<lparr>ctx_decoder := dec\<rparr>) = busy start plat c"
  "busy start plat (c\<lparr>ctx_msg_rx := mrx\<rparr>) = busy start plat c"
  by (simp_all add: busy_def)

lemma inner_calls_busy: "rtranclp (inner_call plat) c c' \<Longrightarrow> busy start plat c \<Longrightarrow> busy start plat c'"
  by (induction rule: rtranclp_induct) (auto simp: busy_def dest: inner_call_living)

lemma notify_busy:
  assumes "restrained plat cbs" and "busy start plat c"
  shows "busy start plat (smp_context_notify_new_message cbs c m)"
    and "busy start plat (smp_context_notify_error cbs c e)"
  using assms inner_calls_busy [OF _ assms(2)]
  by (auto simp: restrained_def smp_context_notify_new_message_def smp_context_notify_error_def
      split: option.split; blast)+

lemma process_frame_busy:
  assumes "restrained plat cbs" and "smp_context_process_serial_frame plat al cbs c frame n = Some (fate, c')"
    and "busy start plat c"
  shows "busy start plat c'"
  using assms(2,3) notify_busy [OF assms(1)]
  by (auto simp: smp_context_process_serial_frame_def bind_eq_Some_conv Let_def
      split: option.splits sum.splits if_splits)

lemma process_chunk_byte_busy:
  assumes "restrained plat cbs" and "process_chunk_byte plat al cbs c b = Some c'" and "busy start plat c"
  shows "busy start plat c'"
proof -
  have "busy start plat (case ret of Inl e \<Rightarrow> smp_context_notify_error cbs (c\<lparr>ctx_decoder := d\<rparr>) e
      | Inr _ \<Rightarrow> c\<lparr>ctx_decoder := d\<rparr>)" for ret :: "smp_error + unit" and d
    using assms(3) notify_busy(2) [OF assms(1)] by (auto split: sum.split)
  with assms(2) process_frame_busy [OF assms(1)] show ?thesis
    by (fastforce simp: process_chunk_byte_def Let_def bind_eq_Some_conv split: option.splits)
qed

lemma process_chunk_busy:
  "restrained plat cbs \<Longrightarrow> process_chunk plat al cbs k c bs = Some c' \<Longrightarrow> busy start plat c \<Longrightarrow> busy start plat c'"
  by (induction bs arbitrary: k c) (auto simp: bind_eq_Some_conv dest: process_chunk_byte_busy)

lemma process_loop_busy:
  assumes "process_loop plat al cbs k c = Some y" and "restrained plat cbs" and "busy start plat c"
  shows "busy start plat (snd y)"
proof -
  have "restrained plat cbs \<longrightarrow> busy start plat c \<longrightarrow> busy start plat (snd y)"
    using assms(1)
  proof (rule process_loop.raw_induct [rotated], goal_cases)
    case (1 f plat al cbs k c y)
    show ?case
    proof (intro impI)
      assume cbs: "restrained plat cbs" and busy: "busy start plat c"
      from 1(2) obtain a dev where read: "dev_read (plat_ops plat) (ctx_device c) (plat_chunk plat) = Some (a, dev)"
        and body: "(case a of Inl e \<Rightarrow>
              Some (if e = SMP_ERROR_WOULD_BLOCK then Inr () else Inl e, c\<lparr>ctx_device := dev\<rparr>)
          | Inr chunk \<Rightarrow> if chunk = [] then Some (Inr (), c\<lparr>ctx_device := dev\<rparr>)
              else process_chunk plat al cbs k (c\<lparr>ctx_device := dev\<rparr>) chunk \<bind>
                f plat al cbs (k + length chunk)) = Some y"
        by (auto simp: bind_eq_Some_conv Let_def)
      have busy1: "busy start plat (c\<lparr>ctx_device := dev\<rparr>)"
        using busy by (auto simp: busy_def living_def intro: life_read [OF _ read])
      show "busy start plat (snd y)"
      proof (cases "\<exists>chunk. a = Inr chunk \<and> chunk \<noteq> []")
        case True
        then obtain chunk c1 where
          chunk: "process_chunk plat al cbs k (c\<lparr>ctx_device := dev\<rparr>) chunk = Some c1"
          and rest: "f plat al cbs (k + length chunk) c1 = Some y"
          using body by (auto simp: bind_eq_Some_conv)
        from 1(1) [OF rest] cbs process_chunk_busy [OF cbs chunk busy1] show ?thesis by blast
      next
        case False
        with body busy1 show ?thesis by (auto split: sum.splits)
      qed
    qed
  qed
  with assms(2,3) show ?thesis by blast
qed

lemma process_fd_living:
  assumes "smp_context_process_fd plat als cbs (Some c) = Some (r, Some c')"
    and "restrained plat cbs" and "living start plat c"
  shows "living start plat c'"
proof (cases "ctx_opened c")
  case True
  with assms process_loop_busy [of plat als cbs 0 c _ start] show ?thesis
    by (auto simp: smp_context_process_fd_def bind_eq_Some_conv busy_def)
qed (use assms in \<open>simp add: smp_context_process_fd_def\<close>)

lemma api_call_living:
  assumes "api_call plat cbs c c'" and "restrained plat cbs" and "living start plat c"
  shows "living start plat c'"
  using assms(1)
proof cases
  case call_inner
  from inner_call_living [OF this assms(3)] show ?thesis by simp
next
  case call_close
  with assms(3) show ?thesis
    by (auto simp: smp_context_close_def living_def bind_eq_Some_conv split: if_splits intro: life_close)
next
  case (call_process als r)
  then show ?thesis using assms(2,3) by (rule process_fd_living)
next
  case (call_wait als t r)
  show ?thesis
  proof (cases "ctx_opened c")
    case False
    with call_wait assms(3) show ?thesis by (simp add: smp_context_wait_and_process_def)
  next
    case True
    with call_wait obtain a dev where w: "dev_wait (plat_ops plat) (ctx_device c) t = Some (a, dev)"
      and res: "(case a of Inl e \<Rightarrow> Some (Inl e, Some (c\<lparr>ctx_device := dev\<rparr>))
        | Inr _ \<Rightarrow> smp_context_process_fd plat als cbs (Some (c\<lparr>ctx_device := dev\<rparr>))) = Some (r, Some c')"
      by (auto simp: smp_context_wait_and_process_def bind_eq_Some_conv Let_def)
    have "living start plat (c\<lparr>ctx_device := dev\<rparr>)"
      using assms(3) True life_wait [OF _ w] by (simp add: living_def)
    with res process_fd_living [OF _ assms(2) this] show ?thesis by (cases a) auto
  qed
qed

text \<open>The device of a context has one of the lives that the interface allows.\<close>

lemma api_reachable_living:
  assumes "api_reachable start plat cbs c" and "restrained plat cbs"
  shows "device_life start (plat_ops plat) (ctx_device c) (ctx_opened c)"
  using assms(1)
proof (induction rule: api_reachable.induct)
  case (created dev al u c)
  then show ?case
    by (auto simp: smp_context_new_def smp_context_init_def cleared_context_def
        intro: life_init split: option.splits if_splits)
next
  case (created_static storage sz u dec stx mtx mrx c)
  then show ?case
    by (auto simp: smp_context_new_from_static_def smp_context_init_def
        intro: life_init split: option.splits if_splits)
next
  case (called c c')
  from api_call_living [OF called.hyps(2) assms(2)] called.IH show ?case by (simp add: living_def)
qed

end
