(* ===== verification/Smp_Context_Spec.thy ===== *)
theory Smp_Context_Spec
  imports Smp_Context_Receive Smp_Context_Safe Smp_Message_Spec
begin

text \<open>What the context guarantees on every device.\<close>

section \<open>Sending\<close>

text \<open>
  C13: The whole outcome of a send on an opened context, for a message whose arguments are readable.
  When there is no memory or no room for the message or for its frame, it reports why, does not
  touch the device and releases what it had obtained. Otherwise it writes the frame of the encoded
  message to the device, once: an error of the device is returned as it is, a partial write is an
  input/output error, and every buffer that was allocated is released exactly once.
\<close>

theorem send_message_outcome:
  assumes "ctx_opened c" and "tx_ready c" and "message_args m = Some as"
    and "length (args_wire (plat_order plat) as) < 2 ^ 32"
  shows "case msg_refusal al c (of_nat (8 + length (args_wire (plat_order plat) as))) of
     Some e \<Rightarrow> smp_context_send_message plat al (Some c) (Some m) =
       Some (Inl e, if ctx_msg_tx c = None \<and> al_buffer al SIZEOF_BUFFER then [ReleaseStruct] else [], Some c)
   | None \<Rightarrow> (case serial_refusal al c (outgoing plat m as) of
       Some e \<Rightarrow> \<exists>c'. smp_context_send_message plat al (Some c) (Some m) =
         Some (Inl e, msg_releases c, Some c') \<and> ctx_device c' = ctx_device c
     | None \<Rightarrow> (let frame = serial_frame (outgoing plat m as) in
         case dev_write (plat_ops plat) (ctx_device c) frame of
           None \<Rightarrow> smp_context_send_message plat al (Some c) (Some m) = None
         | Some (ret, dev) \<Rightarrow> \<exists>c'. smp_context_send_message plat al (Some c) (Some m) =
             Some (case ret of Inl e \<Rightarrow> Inl e
                 | Inr n \<Rightarrow> if n = of_nat (length frame) then Inr () else Inl SMP_ERROR_IO,
               sent_releases c, Some c') \<and>
             ctx_device c' = dev \<and> ctx_opened c' \<and> tx_ready c' \<and>
             ctx_decoder c' = ctx_decoder c \<and> ctx_msg_rx c' = ctx_msg_rx c))"
  using send_message_cases [OF assms, of al]
proof cases
  case (1 e)
  then show ?thesis by simp
next
  case (2 e data)
  then show ?thesis by simp
next
  case (3 data txbuf)
  let ?frame = "serial_frame (outgoing plat m as)"
  have ready: "tx_ready (c\<lparr>ctx_msg_tx := buffer_written (ctx_msg_tx c) data,
      ctx_serial_tx := buffer_written (ctx_serial_tx c) txbuf, ctx_device := dev\<rparr>)" for dev
    using assms(2) 3(2,3) by (auto simp: tx_ready_def buffer_written_def buffer_wf_def)
  show ?thesis
  proof (cases "dev_write (plat_ops plat) (ctx_device c) ?frame")
    case None
    with 3 show ?thesis by (simp add: write_frame_def)
  next
    case (Some w)
    obtain ret dev where w: "w = (ret, dev)" by fastforce
    from 3 Some ready [of dev] assms(1) show ?thesis
      by (cases ret) (simp_all add: w write_frame_def)
  qed
qed

section \<open>A sample context\<close>

text \<open>A device that takes everything and has nothing to read.\<close>

definition null_ops :: "unit device_ops" where
  "null_ops = \<lparr>dev_init = id, dev_open = (\<lambda>d p. Some (Inr 0, d)), dev_close = Some,
     dev_get_fd = (\<lambda>d. Inr 0), dev_set_config = (\<lambda>d b p f. Some (Inr (), d)),
     dev_write = (\<lambda>d bs. Some (Inr (of_nat (length bs)), d)), dev_read = (\<lambda>d k. Some (Inr [], d)),
     dev_wait = (\<lambda>d t. Some (Inr (), d))\<rparr>"

definition null_platform :: "unit platform" where
  "null_platform = \<lparr>plat_ops = null_ops, plat_order = LittleEndian, plat_chunk = 1, plat_avr = False\<rparr>"

text \<open>An allocator that grants what an object can be.\<close>

definition granting :: answers where
  "granting = (let ok = (\<lambda>n. unat n \<le> PTRDIFF_MAX) in
     \<lparr>al_context = ok, al_decoder = ok, al_decoder_buf = ok, al_message = ok, al_values = ok,
      al_buffer = ok, al_buffer_data = ok, al_serial = ok, al_junk = (\<lambda>n. 0)\<rparr>)"

lemma granting_simps [simp]:
  "al_context granting n \<longleftrightarrow> unat n \<le> PTRDIFF_MAX" "al_decoder granting n \<longleftrightarrow> unat n \<le> PTRDIFF_MAX"
  "al_decoder_buf granting n \<longleftrightarrow> unat n \<le> PTRDIFF_MAX" "al_message granting n \<longleftrightarrow> unat n \<le> PTRDIFF_MAX"
  "al_values granting n \<longleftrightarrow> unat n \<le> PTRDIFF_MAX" "al_buffer granting n \<longleftrightarrow> unat n \<le> PTRDIFF_MAX"
  "al_buffer_data granting n \<longleftrightarrow> unat n \<le> PTRDIFF_MAX" "al_serial granting n \<longleftrightarrow> unat n \<le> PTRDIFF_MAX"
  by (simp_all add: granting_def Let_def)

definition sample_context :: "'d \<Rightarrow> ('d, event list) smp_context" where
  "sample_context dev = \<lparr>ctx_decoder = \<lparr>dec_state = WAIT_HEADER, dec_buf = replicate 64 0, dec_bufsize = 64,
       dec_offset = 0, dec_maxsize = 64, dec_static = True\<rparr>,
     ctx_device = dev, ctx_userdata = [], ctx_opened = True, ctx_static = True,
     ctx_msg_tx = None, ctx_serial_tx = None, ctx_msg_rx = Some (empty_message True)\<rparr>"

lemma sample_context_ready: "rx_ready (sample_context dev)" "tx_ready (sample_context dev)"
  by (simp_all add: rx_ready_def tx_ready_def sample_context_def empty_message_facts)

lemma sample_args_valid: "args_valid bo sample_args"
  using sample_args_fit by (simp add: args_valid_def sample_args_wire_length)

theorem send_message_outcome_witness:
  "\<exists>c'. smp_context_send_message null_platform granting (Some (sample_context ())) (Some sample_message) =
     Some (Inr (), [ReleaseData, ReleaseStruct, ReleaseData], Some c')"
proof -
  let ?p = "outgoing null_platform sample_message sample_args"
  have len: "length ?p = 22"
    by (simp add: outgoing_def sample_facts message_wire_def sample_args_wire_length)
  have "unat (compute_payload_size ?p) \<le> 2 * 22 + 4"
    using unat_compute_payload_size [of ?p] length_filter_le [of is_magic_byte ?p] len by simp
  then have ok: "msg_refusal granting (sample_context ()) 22 = None"
      "serial_refusal granting (sample_context ()) ?p = None"
      "sent_releases (sample_context ()) = [ReleaseData, ReleaseStruct, ReleaseData]"
      "ctx_opened (sample_context ())"
    by (simp_all add: msg_refusal_def serial_refusal_def sample_context_def
        SIZEOF_BUFFER_def PTRDIFF_MAX_def sent_releases_def msg_releases_def)
  have dev: "dev_write (plat_ops null_platform) d bs = Some (Inr (of_nat (length bs)), d)" for d bs
    by (simp add: null_platform_def null_ops_def)
  show ?thesis
    using send_message_outcome [of "sample_context ()" sample_message sample_args null_platform granting]
    by (auto simp: ok dev sample_context_ready sample_message_args sample_args_wire_length Let_def)
qed

section \<open>Receiving\<close>

text \<open>
  A frame that holds a message is reported with its identifier and its arguments, and then the
  message it was parsed into is disposed of: released, array first, if the context allocated it,
  and cleared, ready for the next frame and as large as before, if it is the context's own.
\<close>

theorem received_message_disposed:
  assumes "take (unat n) buf = message_wire (plat_order plat) ident as" and "unat n \<le> length buf"
    and "length buf \<le> PTRDIFF_MAX" and "args_valid (plat_order plat) as"
    and "rx_ready c" and "rx_room al c as"
  shows "\<exists>fate rx. smp_context_process_serial_frame plat (al k) recorder c buf n =
      Some (fate, c\<lparr>ctx_userdata := ctx_userdata c @ [Received ident (Some as)], ctx_msg_rx := rx\<rparr>) \<and>
    fate = (if ctx_msg_rx c = None then Released [FreeValues, FreeMessage] else Cleared) \<and>
    rx_ready (c\<lparr>ctx_msg_rx := rx\<rparr>) \<and> map_option capacity rx = map_option capacity (ctx_msg_rx c)"
  using assms by (rule process_serial_frame_message)

theorem received_message_disposed_witness:
  "\<exists>c'. smp_context_process_serial_frame null_platform granting recorder (sample_context ())
     (message_wire LittleEndian 33 sample_args) 22 = Some (Cleared, c') \<and>
     ctx_userdata c' = [Received 33 (Some sample_args)]"
proof -
  have "length (message_wire LittleEndian 33 sample_args) = 22"
    by (simp add: message_wire_def sample_args_wire_length)
  then show ?thesis
    using received_message_disposed [of 22 "message_wire LittleEndian 33 sample_args" null_platform 33
        sample_args "sample_context ()" "\<lambda>_. granting"] sample_args_valid sample_context_ready
    by (fastforce simp: null_platform_def PTRDIFF_MAX_def rx_room_def sample_context_def
        empty_message_facts sample_facts)
qed

text \<open>
  A frame too short to hold a message is reported as an error, but the message that was obtained
  for it is neither released nor cleared: a context without a message of its own leaks one message
  and its array for every such frame.
\<close>

theorem short_frame_leaks:
  assumes "unat n < 8"
    and "ctx_msg_rx c = None \<Longrightarrow> al_message al SIZEOF_MESSAGE \<and> al_values al (DEFAULT_CAPACITY * SIZEOF_VALUE)"
  shows "smp_context_process_serial_frame plat al cbs c frame n =
    Some (LeftAlone, smp_context_notify_error cbs c SMP_ERROR_BAD_MESSAGE)"
proof -
  have short: "n < MSG_HEADER_SIZE" using assms(1) by (simp add: word_less_nat_alt MSG_HEADER_SIZE_def)
  show ?thesis
  proof (cases "ctx_msg_rx c")
    case None
    with assms(2) obtain m where "smp_message_new (al_message al) (al_values al) = Some m"
      by (auto simp: smp_message_new_def smp_message_new_with_id_def)
    with None short show ?thesis
      by (simp add: smp_context_process_serial_frame_def smp_message_build_from_buffer_def)
  next
    case (Some m)
    then have same: "c\<lparr>ctx_msg_rx := Some m\<rparr> = c" by simp
    from Some short have "smp_context_process_serial_frame plat al cbs c frame n =
        Some (LeftAlone, smp_context_notify_error cbs (c\<lparr>ctx_msg_rx := Some m\<rparr>) SMP_ERROR_BAD_MESSAGE)"
      by (simp add: smp_context_process_serial_frame_def smp_message_build_from_buffer_def)
    then show ?thesis unfolding same .
  qed
qed

theorem short_frame_leaks_witness:
  "smp_context_process_serial_frame null_platform granting recorder
     ((sample_context ())\<lparr>ctx_msg_rx := None\<rparr>) [1, 2, 3] 3 =
   Some (LeftAlone, (sample_context ())\<lparr>ctx_msg_rx := None, ctx_userdata := [Failed SMP_ERROR_BAD_MESSAGE]\<rparr>)"
  using short_frame_leaks [of 3 "(sample_context ())\<lparr>ctx_msg_rx := None\<rparr>" granting null_platform recorder
      "[1, 2, 3]"]
  by (simp add: SIZEOF_MESSAGE_def SIZEOF_VALUE_def DEFAULT_CAPACITY_def PTRDIFF_MAX_def
      sample_context_def)

section \<open>Values left over\<close>

text \<open>
  A context with a message of its own parses the next frame into it. The values a rejected frame
  has left there and the next message does not overwrite are read as arguments of that message.
\<close>

lemma build_leftovers:
  assumes "take (unat n) buf = message_wire bo ident as" and "unat n \<le> length buf"
    and "length buf \<le> PTRDIFF_MAX" and "args_valid bo as" and "message_wf m"
    and "length as \<le> unat (capacity m)" and "values_args (drop (length as) (used m)) = Some stale"
  shows "\<exists>m'. smp_message_build_from_buffer bo alloc (Some m) (Some buf) n = Some (Inr (), Some m') \<and>
    message_wf m' \<and> msgid m' = ident \<and> message_args m' = Some (as @ stale)"
proof -
  have buf: "buf = message_wire bo ident as @ drop (unat n) buf"
    using assms(1) by (metis append_take_drop_id)
  have "unat n = length (take (unat n) buf)" using assms(2) by simp
  then have n: "unat n = 8 + length (args_wire bo as)" unfolding assms(1) by simp
  have valid: "\<forall>a\<in>set as. arg_wf a \<and> arg_fits a" "length (args_wire bo as) < 2 ^ 32"
    using assms(4) by (simp_all add: args_valid_def)
  from build_over_room [OF buf assms(3) valid(2) n assms(5) valid(1), of alloc] assms(6)
  obtain m' vs k where m': "smp_message_build_from_buffer bo alloc (Some m) (Some buf) n = Some (Inr (), Some m')"
    "message_wf m'" "msgid m' = ident" "list_all2 (\<lambda>v a. value_arg v = Some a) vs as"
    and u: "used m' = vs @ drop (length as) (used m @ replicate k zero_value)" by blast
  have "values_args (drop (length as) (used m @ replicate k zero_value)) = Some stale"
    using assms(6,7) length_used [OF assms(5)] by (simp add: values_args_untyped)
  with m'(4) have "values_args (used m') = Some (as @ stale)"
    unfolding u by (intro values_args_append [OF values_args_all])
  with m' show ?thesis by (simp add: message_args_used)
qed

lemma process_leftovers:
  assumes "take (unat n) buf = message_wire (plat_order plat) ident as" and "unat n \<le> length buf"
    and "length buf \<le> PTRDIFF_MAX" and "args_valid (plat_order plat) as"
    and "ctx_msg_rx c = Some m" and "message_wf m"
    and "length as \<le> unat (capacity m)" and "values_args (drop (length as) (used m)) = Some stale"
  shows "\<exists>rx. smp_context_process_serial_frame plat al recorder c buf n =
    Some (Cleared, c\<lparr>ctx_userdata := ctx_userdata c @ [Received ident (Some (as @ stale))], ctx_msg_rx := rx\<rparr>)"
proof -
  from build_leftovers [OF assms(1-4,6-8), of "al_values al"] obtain m' where
    m': "smp_message_build_from_buffer (plat_order plat) (al_values al) (Some m) (Some buf) n = Some (Inr (), Some m')"
      "message_wf m'" "msgid m' = ident" "message_args m' = Some (as @ stale)" by blast
  from clear_ready [OF m'(2)] obtain m2 where "smp_message_clear (Some m') = Some (Some m2)" by blast
  with m' assms(5) show ?thesis
    by (intro exI [of _ "Some m2"]) (simp add: smp_context_process_serial_frame_def Let_def)
qed

text \<open>Arguments that are copied into the message; a string or raw data stays in the receive buffer.\<close>

definition arg_copied :: "arg \<Rightarrow> bool" where
  "arg_copied a \<longleftrightarrow> arg_type a \<noteq> TYPE_STRING \<and> arg_type a \<noteq> TYPE_RAW"

text \<open>
  C19: A message with more arguments than the context's own message has room for is reported as too
  big, but its first arguments stay there: the next message, though valid and small enough, is
  reported with the rest of them appended to its own arguments.
\<close>

theorem oversize_message_pollutes:
  assumes "take (unat n) buf = message_wire (plat_order plat) ident as" and "unat n \<le> length buf"
    and "length buf \<le> PTRDIFF_MAX" and "args_valid (plat_order plat) as" and "\<forall>a\<in>set as. arg_copied a"
    and "rx_ready c" and "ctx_msg_rx c = Some m" and "msg_static m" and "unat (capacity m) < length as"
    and "take (unat n') buf' = message_wire (plat_order plat) ident' as'" and "unat n' \<le> length buf'"
    and "length buf' \<le> PTRDIFF_MAX" and "args_valid (plat_order plat) as'"
    and "length as' \<le> unat (capacity m)"
  shows "\<exists>c1 c2. smp_context_process_serial_frame plat al recorder c buf n = Some (LeftAlone, c1) \<and>
    ctx_userdata c1 = ctx_userdata c @ [Failed SMP_ERROR_TOO_BIG] \<and>
    smp_context_process_serial_frame plat al' recorder c1 buf' n' = Some (Cleared, c2) \<and>
    ctx_userdata c2 = ctx_userdata c1 @
      [Received ident' (Some (as' @ drop (length as') (take (unat (capacity m)) as)))]"
proof -
  let ?k = "unat (capacity m)"
  have buf: "buf = message_wire (plat_order plat) ident as @ drop (unat n) buf"
    using assms(1) by (metis append_take_drop_id)
  have "unat n = length (take (unat n) buf)" using assms(2) by simp
  then have len: "unat n = 8 + length (args_wire (plat_order plat) as)" unfolding assms(1) by simp
  have valid: "\<forall>a\<in>set as. arg_wf a \<and> arg_fits a" "length (args_wire (plat_order plat) as) < 2 ^ 32"
    using assms(4) by (simp_all add: args_valid_def)
  have m: "message_wf m" using assms(6,7) by (simp add: rx_ready_def)
  from build_over_full [OF buf assms(3) valid(2) len m valid(1) assms(8,9), of "al_values al"] obtain m1 where
    m1: "smp_message_build_from_buffer (plat_order plat) (al_values al) (Some m) (Some buf) n
        = Some (Inl SMP_ERROR_TOO_BIG, Some m1)" "message_wf m1"
      "list_all2 (\<lambda>v a. value_arg v = Some a) (used m1) (take ?k as)" by blast
  let ?c1 = "c\<lparr>ctx_msg_rx := Some m1, ctx_userdata := ctx_userdata c @ [Failed SMP_ERROR_TOO_BIG]\<rparr>"
  have one: "smp_context_process_serial_frame plat al recorder c buf n = Some (LeftAlone, ?c1)"
    using m1(1) assms(7)
    by (simp add: smp_context_process_serial_frame_def Let_def smp_context_notify_error_def recorder_def)
  have cap: "unat (capacity m1) = ?k"
    using list_all2_lengthD [OF m1(3)] length_used [OF m1(2)] assms(9) by simp
  have "list_all2 (\<lambda>v a. value_arg v = Some a) (drop (length as') (used m1)) (drop (length as') (take ?k as))"
    using m1(3) by (rule list_all2_dropI)
  then have stale: "values_args (drop (length as') (used m1)) = Some (drop (length as') (take ?k as))"
    by (rule values_args_all)
  from process_leftovers [OF assms(10-13) _ m1(2) _ stale, of ?c1 al'] assms(14) cap obtain rx where
    "smp_context_process_serial_frame plat al' recorder ?c1 buf' n' =
      Some (Cleared, ?c1\<lparr>ctx_userdata := ctx_userdata ?c1 @
        [Received ident' (Some (as' @ drop (length as') (take ?k as)))], ctx_msg_rx := rx\<rparr>)"
    by auto
  with one show ?thesis
    by (intro exI [of _ ?c1] exI conjI) (assumption | simp)+
qed

theorem oversize_message_pollutes_witness:
  "\<exists>c1 c2. smp_context_process_serial_frame null_platform granting recorder (sample_context ())
     (message_wire LittleEndian 33 (map AU8 [1, 2, 3, 4])) 16 = Some (LeftAlone, c1) \<and>
   smp_context_process_serial_frame null_platform granting recorder c1
     (message_wire LittleEndian 34 (map AU8 [20])) 10 = Some (Cleared, c2) \<and>
   ctx_userdata c2 = [Failed SMP_ERROR_TOO_BIG, Received 34 (Some (map AU8 [20, 2, 3]))]"
proof -
  let ?as = "map AU8 [1, 2, 3, 4]" and ?bs = "map AU8 [20]"
  have facts: "plat_order null_platform = LittleEndian" "ctx_userdata (sample_context ()) = []"
    "ctx_msg_rx (sample_context ()) = Some (empty_message True)"
    by (simp_all add: null_platform_def sample_context_def)
  have "\<exists>c1 c2. smp_context_process_serial_frame null_platform granting recorder (sample_context ())
      (message_wire LittleEndian 33 ?as) 16 = Some (LeftAlone, c1) \<and>
    ctx_userdata c1 = ctx_userdata (sample_context ()) @ [Failed SMP_ERROR_TOO_BIG] \<and>
    smp_context_process_serial_frame null_platform granting recorder c1
      (message_wire LittleEndian 34 ?bs) 10 = Some (Cleared, c2) \<and>
    ctx_userdata c2 = ctx_userdata c1 @
      [Received 34 (Some (?bs @ drop (length ?bs) (take (unat (capacity (empty_message True))) ?as)))]"
    by (rule oversize_message_pollutes [where m = "empty_message True" and ident = 33 and ident' = 34])
      (simp_all add: facts sample_context_ready empty_message_facts args_valid_def PTRDIFF_MAX_def
        message_wire_def args_wire_def arg_wire_def arg_copied_def)
  then show ?thesis by (auto simp: facts empty_message_facts)
qed

end
