(* ===== verification/Smp_Static.thy ===== *)
theory Smp_Static
  imports Smp_Context_Spec
begin

text \<open>
  The static API of \<open>include/libsmp.h\<close>: the functions that the macros \<open>SMP_DEFINE_STATIC_CONTEXT\<close>
  and \<open>SMP_DEFINE_STATIC_MESSAGE\<close> define, and what a context they create promises: it needs no
  memory of the heap, for sending and for receiving.
\<close>

section \<open>State\<close>

text \<open>
  The sizes of the opaque structures are computed when the library is built and stand in the
  generated \<open>libsmp-static.h\<close>: a parameter.
\<close>

record static_sizes =
  sz_context :: size_t
  sz_decoder :: size_t
  sz_buffer :: size_t
  sz_message :: size_t

text \<open>
  The structure \<open>sctx\<close> of the macro, zero at the start of the program. The structures of the two
  buffers and of the message are overwritten as a whole and have no field here.
\<close>

record ('d, 'u) static_storage =
  st_ctx :: "('d, 'u) smp_context"
  st_decoder :: decoder
  st_serial_rx_buf :: mem
  st_serial_tx_buf :: mem
  st_msg_tx_buf :: mem
  st_msg_rx_values :: "smp_value list"

section \<open>Operations\<close>

definition static_context_create ::
  "static_sizes \<Rightarrow> 'd platform \<Rightarrow> ('d, 'u) static_storage \<Rightarrow> ('d, 'u) callbacks option \<Rightarrow> 'u
   \<Rightarrow> ('d, 'u) smp_context option option" where
  "static_context_create sizes plat sctx cbs userdata =
     do {
       let serial_tx = smp_buffer_new_from_static True (sz_buffer sizes)
         (Some (st_serial_tx_buf sctx)) (of_nat (length (st_serial_tx_buf sctx))) NoFree;
       let msg_tx = smp_buffer_new_from_static True (sz_buffer sizes)
         (Some (st_msg_tx_buf sctx)) (of_nat (length (st_msg_tx_buf sctx))) NoFree;
       msg_rx \<leftarrow> smp_message_new_from_static True (sz_message sizes)
         (Some (st_msg_rx_values sctx)) (of_nat (length (st_msg_rx_values sctx)));
       let decoder = smp_serial_protocol_decoder_new_from_static (plat_avr plat) (Some (st_decoder sctx)) (sz_decoder sizes)
         (Some (st_serial_rx_buf sctx)) (of_nat (length (st_serial_rx_buf sctx)));
       Some (smp_context_new_from_static plat (Some (st_ctx sctx)) (sz_context sizes) cbs userdata
         decoder serial_tx msg_tx msg_rx)
     }"

definition static_message_create :: "static_sizes \<Rightarrow> smp_value list \<Rightarrow> int \<Rightarrow> message option option" where
  "static_message_create sizes values ident =
     smp_message_new_from_static_with_id True (sz_message sizes) (Some values)
       (of_nat (length values)) (of_int ident)"

section \<open>A context without the heap\<close>

definition context_static :: "('d, 'u) smp_context \<Rightarrow> bool" where
  "context_static c \<longleftrightarrow> ctx_static c \<and> dec_static (ctx_decoder c) \<and>
     (\<exists>m. ctx_msg_rx c = Some m \<and> msg_static m) \<and>
     (\<exists>b. ctx_msg_tx c = Some b \<and> buf_static b \<and> buf_free b = NoFree) \<and>
     (\<exists>b. ctx_serial_tx c = Some b \<and> buf_static b \<and> buf_free b = NoFree)"

text \<open>Callbacks that do not exchange the parts of the context.\<close>

definition keeps_static :: "('d, 'u) callbacks \<Rightarrow> bool" where
  "keeps_static cbs \<longleftrightarrow>
     (\<forall>f c m. new_message_cb cbs = Some f \<longrightarrow> context_static c \<longrightarrow> context_static (f c m)) \<and>
     (\<forall>f c e. error_cb cbs = Some f \<longrightarrow> context_static c \<longrightarrow> context_static (f c e))"

lemma keeps_static_notify:
  assumes "keeps_static cbs" and "context_static c"
  shows "context_static (smp_context_notify_new_message cbs c m)"
    and "context_static (smp_context_notify_error cbs c e)"
  using assms
  by (auto simp: keeps_static_def smp_context_notify_new_message_def smp_context_notify_error_def
      split: option.splits)

section \<open>Receiving\<close>

lemma put_byte_static:
  assumes "dec_static d"
  shows "decoder_put_byte alloc d b = decoder_put_byte alloc' d b"
    and "decoder_put_byte alloc d b = Some (r, d') \<Longrightarrow> dec_static d'"
  using assms
  by (auto simp: decoder_put_byte_def decoder_set_capacity_def decoder_store_def Let_def bind_eq_Some_conv
      split: if_splits)

lemma inframe_static:
  assumes "dec_static d"
  shows "process_byte_inframe alloc d b f n = process_byte_inframe alloc' d b f n"
    and "process_byte_inframe alloc d b f n = Some (r, f', n', d') \<Longrightarrow> dec_static d'"
proof -
  show "process_byte_inframe alloc d b f n = process_byte_inframe alloc' d b f n"
    using put_byte_static(1) [OF assms, where alloc = alloc and alloc' = alloc']
    by (simp add: process_byte_inframe_def)
  show "dec_static d'" if "process_byte_inframe alloc d b f n = Some (r, f', n', d')"
    using that assms put_byte_static(2) [OF assms]
    by (auto simp: process_byte_inframe_def Let_def bind_eq_Some_conv split: if_splits)
qed

lemma process_byte_static:
  assumes "dec_static d"
  shows "process_byte alloc d b = process_byte alloc' d b"
    and "process_byte alloc d b = Some (r, f, n, d') \<Longrightarrow> dec_static d'"
proof -
  have "decoder_dispatch alloc d b = decoder_dispatch alloc' d b"
    using inframe_static(1) [OF assms, where alloc = alloc and alloc' = alloc']
      put_byte_static(1) [OF assms, where alloc = alloc and alloc' = alloc']
    by (cases "dec_state d") (simp_all add: decoder_dispatch_def)
  then show "process_byte alloc d b = process_byte alloc' d b" by (simp add: process_byte_def)
  have "dec_static d1" if "decoder_dispatch alloc d b = Some (r, f, n, d1)" for r f n d1
  proof (cases "dec_state d")
    case WAIT_HEADER
    with that assms show ?thesis by (auto simp: decoder_dispatch_def split: if_splits)
  next
    case IN_FRAME
    with that inframe_static(2) [OF assms] show ?thesis by (simp add: decoder_dispatch_def)
  next
    case IN_FRAME_ESC
    with that obtain r1 d2 where put: "decoder_put_byte alloc d b = Some (r1, d2)"
      and "(case r1 of Inl e \<Rightarrow> (Inl e, None, 0, d2) | Inr _ \<Rightarrow> (ok, None, 0, d2\<lparr>dec_state := IN_FRAME\<rparr>)) = (r, f, n, d1)"
      by (auto simp: decoder_dispatch_def bind_eq_Some_conv)
    with put_byte_static(2) [OF assms put] show ?thesis by (auto split: sum.splits)
  qed
  then show "dec_static d'" if "process_byte alloc d b = Some (r, f, n, d')"
    using that by (auto simp: process_byte_def bind_eq_Some_conv split: if_splits)
qed

lemma values_set_static: "values_set m k v = Some m' \<Longrightarrow> msg_static m' = msg_static m"
  by (auto simp: values_set_def split: if_splits)

lemma build_loop_static:
  assumes "msg_static m"
  shows "build_loop bo alloc buffer sz off i m = build_loop bo alloc' buffer sz off i m \<and>
    (\<forall>r off' m'. build_loop bo alloc buffer sz off i m = Some (r, off', m') \<longrightarrow> msg_static m')"
  using assms
proof (induction bo alloc buffer sz off i m rule: build_loop.induct)
  case (1 bo alloc buffer sz off i msg)
  have room: "build_room al msg i = (if i \<ge> capacity msg then Some RoomBreak else Some (RoomOk msg))" for al
    using "1.prems" by (simp add: build_room_def)
  show ?case
  proof (cases "sz - off > 0 \<and> \<not> i \<ge> capacity msg")
    case False
    with room "1.prems" show ?thesis by (subst (1 2 3) build_loop.simps) auto
  next
    case True
    then have ok: "build_room al msg i = Some (RoomOk msg)" for al by (simp add: room)
    let ?dec = "ptr_add buffer off \<bind> (\<lambda>p. values_get msg (unat i) \<bind> (\<lambda>v.
      smp_message_decode_value bo v p (sz - off)))"
    have unfold: "build_loop bo al buffer sz off i msg =
      ?dec \<bind> (\<lambda>(ret, v'). values_set msg (unat i) v' \<bind> (\<lambda>msg2.
        case ret of Inl e \<Rightarrow> Some (Inl e, off, msg2)
        | Inr n \<Rightarrow> build_loop bo al buffer sz (off + n) (i + 1) msg2))" for al
      using True by (subst build_loop.simps) (simp add: ok split: option.splits prod.splits)
    show ?thesis
    proof (cases ?dec)
      case None
      then show ?thesis by (simp only: unfold bind.bind_lzero) simp
    next
      case (Some dec)
      then obtain ret v' where dec: "?dec = Some (ret, v')" by (cases dec) simp
      show ?thesis
      proof (cases "values_set msg (unat i) v'")
        case None
        then show ?thesis by (simp only: unfold dec bind.bind_lunit prod.case bind.bind_lzero) simp
      next
        case (Some msg2)
        note set = values_set_static [OF Some] "1.prems"
        have eq: "build_loop bo al buffer sz off i msg =
          (case ret of Inl e \<Rightarrow> Some (Inl e, off, msg2)
           | Inr n \<Rightarrow> build_loop bo al buffer sz (off + n) (i + 1) msg2)" for al
          by (simp only: unfold dec Some bind.bind_lunit prod.case)
        show ?thesis
        proof (cases ret)
          case (Inl e)
          then show ?thesis using set by (simp add: eq)
        next
          case (Inr n)
          from dec obtain p v where "ptr_add buffer off = Some p" "values_get msg (unat i) = Some v"
            "smp_message_decode_value bo v p (sz - off) = Some (ret, v')"
            by (auto simp: bind_eq_Some_conv)
          then have ih: "build_loop bo alloc buffer sz (off + n) (i + 1) msg2 =
              build_loop bo alloc' buffer sz (off + n) (i + 1) msg2 \<and>
            (\<forall>r off' m'. build_loop bo alloc buffer sz (off + n) (i + 1) msg2 = Some (r, off', m') \<longrightarrow> msg_static m')"
            using True ok Some Inr set by (intro "1.IH") simp_all
          show ?thesis unfolding eq Inr sum.case by (rule ih)
        qed
      qed
    qed
  qed
qed

lemma build_result_message:
  "(case ret of Inl e \<Rightarrow> Some (Inl e, Some m) | Inr _ \<Rightarrow> Some (x, Some m)) = Some (r, out) \<Longrightarrow> out = Some m"
  by (cases ret) auto

lemma build_static:
  assumes "msg_static m"
  shows "smp_message_build_from_buffer bo alloc (Some m) buf n = smp_message_build_from_buffer bo alloc' (Some m) buf n"
    and "smp_message_build_from_buffer bo alloc (Some m) buf n = Some (r, out) \<Longrightarrow> \<exists>m'. out = Some m' \<and> msg_static m'"
proof -
  have st: "msg_static (m\<lparr>msgid := x\<rparr>)" for x using assms by simp
  show "smp_message_build_from_buffer bo alloc (Some m) buf n = smp_message_build_from_buffer bo alloc' (Some m) buf n"
    using build_loop_static [OF st, THEN conjunct1, of bo alloc _ n MSG_HEADER_SIZE 0 _ alloc']
    by (simp add: smp_message_build_from_buffer_def Let_def cong: if_cong split: option.split)
  show "\<exists>m'. out = Some m' \<and> msg_static m'"
    if "smp_message_build_from_buffer bo alloc (Some m) buf n = Some (r, out)"
    using that assms build_loop_static [OF st, THEN conjunct2, rule_format, where alloc = alloc]
    by (auto simp: smp_message_build_from_buffer_def Let_def bind_eq_Some_conv
        split: option.split_asm if_split_asm dest!: build_result_message)
qed

lemma context_static_simps [simp]:
  "context_static (c\<lparr>ctx_device := d\<rparr>) = context_static c"
  "context_static (c\<lparr>ctx_userdata := u\<rparr>) = context_static c"
  by (simp_all add: context_static_def)

lemma process_serial_frame_static:
  assumes "context_static c" and "keeps_static cbs"
  shows "smp_context_process_serial_frame plat al cbs c frame n =
      smp_context_process_serial_frame plat al' cbs c frame n"
    and "smp_context_process_serial_frame plat al cbs c frame n = Some (fate, c') \<Longrightarrow> context_static c'"
proof -
  obtain m where m: "ctx_msg_rx c = Some m" "msg_static m" using assms(1) by (auto simp: context_static_def)
  show "smp_context_process_serial_frame plat al cbs c frame n =
      smp_context_process_serial_frame plat al' cbs c frame n"
    using build_static(1) [OF m(2), of "plat_order plat" "al_values al" "Some frame" n "al_values al'"]
    by (simp add: smp_context_process_serial_frame_def m(1))
  assume run: "smp_context_process_serial_frame plat al cbs c frame n = Some (fate, c')"
  then obtain r out where build:
    "smp_message_build_from_buffer (plat_order plat) (al_values al) (Some m) (Some frame) n = Some (r, out)"
    by (auto simp: smp_context_process_serial_frame_def m(1) bind_eq_Some_conv)
  from build_static(2) [OF m(2) build] obtain m1 where m1: "out = Some m1" "msg_static m1" by blast
  then have st: "context_static (c\<lparr>ctx_msg_rx := Some m1\<rparr>)"
    using assms(1) by (simp add: context_static_def)
  show "context_static c'"
  proof (cases r)
    case (Inl e)
    with run build m1 m(1) keeps_static_notify(2) [OF assms(2) st] show ?thesis
      by (auto simp: smp_context_process_serial_frame_def)
  next
    case (Inr u)
    let ?c = "smp_context_notify_new_message cbs (c\<lparr>ctx_msg_rx := Some m1\<rparr>) m1"
    have keep: "context_static ?c" by (rule keeps_static_notify [OF assms(2) st])
    then obtain m2 where m2: "ctx_msg_rx ?c = Some m2" "msg_static m2" by (auto simp: context_static_def)
    with run build m1 m(1) Inr obtain m3 where m3: "smp_message_clear (Some m2) = Some m3"
      and c': "c' = ?c\<lparr>ctx_msg_rx := m3\<rparr>"
      by (auto simp: smp_context_process_serial_frame_def Let_def bind_eq_Some_conv)
    from m3 m2(2) obtain m4 where "m3 = Some m4" "msg_static m4"
      by (auto simp: smp_message_clear_def split: if_splits)
    with keep show ?thesis by (simp add: c' context_static_def)
  qed
qed

lemma process_chunk_byte_static:
  assumes "context_static c" and "keeps_static cbs"
  shows "process_chunk_byte plat al cbs c b = process_chunk_byte plat al' cbs c b"
    and "process_chunk_byte plat al cbs c b = Some c' \<Longrightarrow> context_static c'"
proof -
  have d: "dec_static (ctx_decoder c)" using assms(1) by (simp add: context_static_def)
  have same: "process_byte (al_decoder_buf al) (ctx_decoder c) b = process_byte (al_decoder_buf al') (ctx_decoder c) b"
    by (rule process_byte_static(1) [OF d])
  have keep: "context_static (case r of Inl e \<Rightarrow> smp_context_notify_error cbs (c\<lparr>ctx_decoder := d'\<rparr>) e | Inr _ \<Rightarrow> c\<lparr>ctx_decoder := d'\<rparr>)"
    if "process_byte (al_decoder_buf al) (ctx_decoder c) b = Some (r, f, n, d')" for r f n d'
  proof -
    have "context_static (c\<lparr>ctx_decoder := d'\<rparr>)"
      using process_byte_static(2) [OF d that] assms(1) by (simp add: context_static_def)
    then show ?thesis using keeps_static_notify(2) [OF assms(2)] by (auto split: sum.split)
  qed
  show "process_chunk_byte plat al cbs c b = process_chunk_byte plat al' cbs c b"
  proof (cases "process_byte (al_decoder_buf al) (ctx_decoder c) b")
    case None
    with same show ?thesis by (simp add: process_chunk_byte_def smp_serial_protocol_decoder_process_byte_def)
  next
    case (Some out)
    obtain r f n d' where out: "out = (r, f, n, d')" by (cases out)
    note st = keep [OF Some [unfolded out]]
    show ?thesis
      using Some same process_serial_frame_static(1) [OF st assms(2), of plat al _ _ al']
      by (simp add: process_chunk_byte_def smp_serial_protocol_decoder_process_byte_def out Let_def
          split: option.split)
  qed
  assume run: "process_chunk_byte plat al cbs c b = Some c'"
  then obtain r f n d' where pb: "process_byte (al_decoder_buf al) (ctx_decoder c) b = Some (r, f, n, d')"
    by (auto simp: process_chunk_byte_def smp_serial_protocol_decoder_process_byte_def bind_eq_Some_conv)
  note st = keep [OF pb]
  from run pb st process_serial_frame_static(2) [OF st assms(2)] show "context_static c'"
    by (auto simp: process_chunk_byte_def smp_serial_protocol_decoder_process_byte_def Let_def
        bind_eq_Some_conv split: option.splits)
qed

lemma process_chunk_static:
  assumes "context_static c" and "keeps_static cbs"
  shows "process_chunk plat als cbs k c bs = process_chunk plat als' cbs k c bs \<and>
    (\<forall>c'. process_chunk plat als cbs k c bs = Some c' \<longrightarrow> context_static c')"
  using assms(1)
proof (induction bs arbitrary: k c)
  case (Cons b bs)
  show ?case
  proof (cases "process_chunk_byte plat (als k) cbs c b")
    case None
    then have "process_chunk_byte plat (als' k) cbs c b = None"
      using process_chunk_byte_static(1) [OF Cons.prems assms(2), of plat "als k" b "als' k"] by simp
    with None show ?thesis by simp
  next
    case (Some c1)
    then have "process_chunk_byte plat (als' k) cbs c b = Some c1"
      using process_chunk_byte_static(1) [OF Cons.prems assms(2), of plat "als k" b "als' k"] by simp
    with Some Cons.IH [OF process_chunk_byte_static(2) [OF Cons.prems assms(2) Some], of "Suc k"]
    show ?thesis by simp
  qed
qed simp

lemma process_loop_static:
  assumes "process_loop plat als cbs k c = Some y" and "keeps_static cbs" and "context_static c"
  shows "process_loop plat als' cbs k c = Some y \<and> context_static (snd y)"
proof -
  have "keeps_static cbs \<longrightarrow> context_static c \<longrightarrow>
      process_loop plat als' cbs k c = Some y \<and> context_static (snd y)"
    using assms(1)
  proof (rule process_loop.raw_induct [rotated], goal_cases)
    case (1 f plat als cbs k c y)
    show ?case
    proof (intro impI)
      assume keeps: "keeps_static cbs" and st: "context_static c"
      from 1(2) obtain a dev where read: "dev_read (plat_ops plat) (ctx_device c) (plat_chunk plat) = Some (a, dev)"
        and body: "(case a of Inl e \<Rightarrow>
              Some (if e = SMP_ERROR_WOULD_BLOCK then Inr () else Inl e, c\<lparr>ctx_device := dev\<rparr>)
          | Inr chunk \<Rightarrow> if chunk = [] then Some (Inr (), c\<lparr>ctx_device := dev\<rparr>)
              else process_chunk plat als cbs k (c\<lparr>ctx_device := dev\<rparr>) chunk \<bind>
                f plat als cbs (k + length chunk)) = Some y"
        by (auto simp: bind_eq_Some_conv Let_def)
      have st1: "context_static (c\<lparr>ctx_device := dev\<rparr>)" using st by simp
      show "process_loop plat als' cbs k c = Some y \<and> context_static (snd y)"
      proof (cases "\<exists>chunk. a = Inr chunk \<and> chunk \<noteq> []")
        case True
        then obtain chunk c1 where a: "a = Inr chunk" "chunk \<noteq> []"
          and chunk: "process_chunk plat als cbs k (c\<lparr>ctx_device := dev\<rparr>) chunk = Some c1"
          and rest: "f plat als cbs (k + length chunk) c1 = Some y"
          using body by (auto simp: bind_eq_Some_conv)
        from process_chunk_static [OF st1 keeps, of plat als k chunk als'] chunk
        have "process_chunk plat als' cbs k (c\<lparr>ctx_device := dev\<rparr>) chunk = Some c1" "context_static c1"
          by simp_all
        with 1(1) [OF rest] keeps read a show ?thesis by (subst process_loop.simps) simp
      next
        case False
        with read body st1 show ?thesis
          by (subst process_loop.simps) (auto split: sum.splits)
      qed
    qed
  qed
  with assms(2,3) show ?thesis by blast
qed

lemma process_fd_static:
  assumes "keeps_static cbs" and "context_static c"
  shows "smp_context_process_fd plat als cbs (Some c) = smp_context_process_fd plat als' cbs (Some c)"
proof -
  have "process_loop plat als cbs k c = process_loop plat als' cbs k c" for k
  proof (cases "process_loop plat als cbs k c")
    case None
    then show ?thesis
      using process_loop_static [OF _ assms, of plat als' k _ als]
      by (cases "process_loop plat als' cbs k c") auto
  next
    case (Some y)
    with process_loop_static [OF Some assms, of als'] show ?thesis by simp
  qed
  then show ?thesis by (simp add: smp_context_process_fd_def)
qed

lemma process_fd_static_keeps:
  assumes "keeps_static cbs" and "context_static c"
    and "smp_context_process_fd plat als cbs (Some c) = Some (r, Some c')"
  shows "context_static c'"
  using assms process_loop_static [OF _ assms(1,2), of plat als 0 _ als]
  by (fastforce simp: smp_context_process_fd_def bind_eq_Some_conv split: if_splits)

section \<open>Sending\<close>

lemma send_frame_static:
  assumes "ctx_serial_tx c = Some b"
  shows "send_frame plat al c data n = send_frame plat al' c data n"
    and "send_frame plat al c data n = Some (r, serial, c') \<Longrightarrow>
      \<exists>dev txbuf. c' = c\<lparr>ctx_serial_tx := Some (b\<lparr>buf_data := txbuf\<rparr>), ctx_device := dev\<rparr>"
proof -
  have enc: "smp_serial_protocol_encode (al_serial al) (al_junk al) inp n (Some (Some buf)) sz =
      smp_serial_protocol_encode (al_serial al') (al_junk al') inp n (Some (Some buf)) sz" for inp buf sz
    by (simp add: smp_serial_protocol_encode_def split: option.split)
  show "send_frame plat al c data n = send_frame plat al' c data n"
    by (simp add: send_frame_def assms enc)
  have same: "c = c\<lparr>ctx_serial_tx := Some (b\<lparr>buf_data := buf_data b\<rparr>), ctx_device := ctx_device c\<rparr>"
    using assms by simp
  assume run: "send_frame plat al c data n = Some (r, serial, c')"
  then obtain ret out where framed: "smp_serial_protocol_encode (al_serial al) (al_junk al) (Some data) n
      (Some (Some (buf_data b))) (buf_maxsize b) = Some (ret, Some out)"
    by (auto simp: send_frame_def assms Let_def bind_eq_Some_conv)
  show "\<exists>dev txbuf. c' = c\<lparr>ctx_serial_tx := Some (b\<lparr>buf_data := txbuf\<rparr>), ctx_device := dev\<rparr>"
  proof (cases ret)
    case (Inl e)
    with run framed have "c' = c" by (simp add: send_frame_def assms)
    with same show ?thesis by blast
  next
    case (Inr k)
    with run framed obtain txbuf bytes wret dev where "out = Some txbuf" "mem_read txbuf 0 (unat k) = Some bytes"
      and w: "dev_write (plat_ops plat) (ctx_device c) bytes = Some (wret, dev)"
      by (auto simp: send_frame_def assms Let_def bind_eq_Some_conv buffer_written_def)
    with run framed Inr have "c' = c\<lparr>ctx_serial_tx := Some (b\<lparr>buf_data := txbuf\<rparr>), ctx_device := dev\<rparr>"
      by (cases wret) (auto simp: send_frame_def assms buffer_written_def)
    then show ?thesis by blast
  qed
qed

lemma send_release_static:
  "ctx_msg_tx c \<noteq> None \<Longrightarrow> ctx_serial_tx c \<noteq> None \<Longrightarrow> send_release c b serial = []"
  by (auto simp: send_release_def)

lemma send_message_static:
  assumes "context_static c"
  shows "smp_context_send_message plat al (Some c) m = smp_context_send_message plat al' (Some c) m"
    and "smp_context_send_message plat al (Some c) m = Some (r, rel, ctx) \<Longrightarrow>
      rel = [] \<and> (\<exists>c'. ctx = Some c' \<and> context_static c')"
proof -
  obtain b sb where b: "ctx_msg_tx c = Some b" "buf_static b" "buf_free b = NoFree"
    and sb: "ctx_serial_tx c = Some sb" "buf_static sb" "buf_free sb = NoFree"
    using assms by (auto simp: context_static_def)
  have frame: "send_frame plat al (c\<lparr>ctx_msg_tx := x\<rparr>) data n = send_frame plat al' (c\<lparr>ctx_msg_tx := x\<rparr>) data n"
    for x data n by (rule send_frame_static) (simp add: sb)
  show "smp_context_send_message plat al (Some c) m = smp_context_send_message plat al' (Some c) m"
    by (simp add: smp_context_send_message_def b frame Let_def buffer_written_def
        cong: sum.case_cong option.case_cong)
  assume run: "smp_context_send_message plat al (Some c) m = Some (r, rel, ctx)"
  show "rel = [] \<and> (\<exists>c'. ctx = Some c' \<and> context_static c')"
  proof (cases "rel = [] \<and> ctx = Some c")
    case True
    with assms show ?thesis by simp
  next
    case False
    with run obtain size ret data where
      m: "m \<noteq> None" "ctx_opened c" "smp_message_get_encoded_size m = Some size" "\<not> buf_maxsize b < size"
      and enc: "smp_message_encode (plat_order plat) m (Some (buf_data b)) (buf_maxsize b) = Some (ret, Some data)"
      by (auto simp: smp_context_send_message_def b bind_eq_Some_conv Let_def split: if_splits)
    let ?c = "c\<lparr>ctx_msg_tx := Some (b\<lparr>buf_data := data\<rparr>)\<rparr>"
    have st: "context_static ?c" using assms b by (simp add: context_static_def)
    show ?thesis
    proof (cases ret)
      case (Inl e)
      with run m enc have "rel = send_release ?c b None" "ctx = Some ?c"
        by (auto simp: smp_context_send_message_def b Let_def buffer_written_def)
      with st sb show ?thesis by (simp add: send_release_static)
    next
      case (Inr n)
      with run m enc obtain serial c2 where sent: "send_frame plat al ?c data n = Some (r, serial, c2)"
        and out: "rel = send_release c2 b serial" "ctx = Some c2"
        by (auto simp: smp_context_send_message_def b Let_def buffer_written_def bind_eq_Some_conv)
      from send_frame_static(2) [OF _ sent, of sb] sb(1) obtain dev txbuf where
        "c2 = ?c\<lparr>ctx_serial_tx := Some (sb\<lparr>buf_data := txbuf\<rparr>), ctx_device := dev\<rparr>" by auto
      with st sb out show ?thesis by (simp add: send_release_static context_static_def)
    qed
  qed
qed

section \<open>Properties\<close>

lemma sizeof_array:
  assumes "length xs \<le> PTRDIFF_MAX"
  shows "unat (of_nat (length xs) :: size_t) = length xs"
    and "of_nat (length xs) = (0 :: size_t) \<longleftrightarrow> xs = []"
proof -
  show len: "unat (of_nat (length xs) :: size_t) = length xs"
    using assms by (intro unat_of_nat_size) (simp add: PTRDIFF_MAX_def)
  have "(of_nat (length xs) :: size_t) = 0 \<longleftrightarrow> unat (of_nat (length xs) :: size_t) = 0"
    by (rule unat_eq_0 [symmetric])
  then show "of_nat (length xs) = (0 :: size_t) \<longleftrightarrow> xs = []" unfolding len by simp
qed

text \<open>What each constructor of the library gets from a struct and an array of the macro.\<close>

lemma static_message:
  assumes "length vals \<le> PTRDIFF_MAX"
  shows "smp_message_new_from_static True struct_size (Some vals) (of_nat (length vals)) =
    Some (if struct_size < SIZEOF_MESSAGE \<or> vals = [] then None
      else Some \<lparr>msgid = 0, msg_values = replicate (length vals) zero_value,
        capacity = of_nat (length vals), msg_static = True\<rparr>)"
  using assms [THEN sizeof_array(1)] assms [THEN sizeof_array(2)]
  by (simp add: smp_message_new_from_static_def smp_message_new_from_static_with_id_def word_gt_0 not_le)

lemma static_decoder:
  assumes "length bs \<le> PTRDIFF_MAX"
  shows "smp_serial_protocol_decoder_new_from_static avr (Some d) struct_size (Some bs) (of_nat (length bs)) =
    (if struct_size < SIZEOF_DECODER \<or> bs = [] then None
     else Some (d\<lparr>dec_state := WAIT_HEADER, dec_static := True, dec_buf := bs,
       dec_bufsize := of_nat (length bs), dec_maxsize := of_nat (length bs)\<rparr>))"
  using assms [THEN sizeof_array(1)] assms [THEN sizeof_array(2)]
  by (simp add: smp_serial_protocol_decoder_new_from_static_def decoder_init_def Let_def not_le)

lemma static_buffer:
  assumes "length bs \<le> PTRDIFF_MAX"
  shows "smp_buffer_new_from_static True struct_size (Some bs) (of_nat (length bs)) NoFree =
    (if struct_size < SIZEOF_BUFFER \<or> bs = [] then None
     else Some \<lparr>buf_data = bs, buf_maxsize = of_nat (length bs), buf_free = NoFree, buf_static = True\<rparr>)"
  using sizeof_array(2) [OF assms]
  by (simp add: smp_buffer_new_from_static_def smp_buffer_init_def word_gt_0 not_le)

text \<open>
  The function \<open>SMP_DEFINE_STATIC_CONTEXT\<close> defines returns a context exactly when there are
  callbacks, the sizes the library was built with are large enough and no array is empty. The
  context is closed and in static storage, its decoder waits for a frame with a buffer of the
  given size that is never grown, its message is empty with room for the given number of values,
  and its transmit buffers are the arrays, with their sizes.
\<close>

theorem static_context_created:
  assumes "length (st_serial_rx_buf sctx) \<le> PTRDIFF_MAX" and "length (st_serial_tx_buf sctx) \<le> PTRDIFF_MAX"
    and "length (st_msg_tx_buf sctx) \<le> PTRDIFF_MAX" and "length (st_msg_rx_values sctx) \<le> PTRDIFF_MAX"
  shows "\<exists>out. static_context_create sizes plat sctx cbs u = Some out \<and>
    (out = None \<longleftrightarrow> cbs = None \<or> sz_context sizes < SIZEOF_CONTEXT \<or> sz_decoder sizes < SIZEOF_DECODER \<or>
      sz_buffer sizes < SIZEOF_BUFFER \<or> sz_message sizes < SIZEOF_MESSAGE \<or> st_serial_rx_buf sctx = [] \<or>
      st_serial_tx_buf sctx = [] \<or> st_msg_tx_buf sctx = [] \<or> st_msg_rx_values sctx = []) \<and>
    (\<forall>c. out = Some c \<longrightarrow> context_static c \<and> \<not> ctx_opened c \<and> ctx_userdata c = u \<and>
      decoder_inv (ctx_decoder c) \<and> dec_state (ctx_decoder c) = WAIT_HEADER \<and> sized (ctx_decoder c) \<and>
      unat (dec_bufsize (ctx_decoder c)) = length (st_serial_rx_buf sctx) \<and> rx_ready c \<and> tx_ready c \<and>
      map_option capacity (ctx_msg_rx c) = Some (of_nat (length (st_msg_rx_values sctx))) \<and>
      map_option buf_data (ctx_msg_tx c) = Some (st_msg_tx_buf sctx) \<and>
      map_option buf_data (ctx_serial_tx c) = Some (st_serial_tx_buf sctx))"
proof -
  note facts = assms [THEN sizeof_array(1)] assms [THEN sizeof_array(2)]
  note parts = static_message [OF assms(4)] static_decoder [OF assms(1)]
    static_buffer [OF assms(2)] static_buffer [OF assms(3)]
  define bad where "bad \<longleftrightarrow> cbs = None \<or> sz_context sizes < SIZEOF_CONTEXT \<or> sz_decoder sizes < SIZEOF_DECODER \<or>
      sz_buffer sizes < SIZEOF_BUFFER \<or> sz_message sizes < SIZEOF_MESSAGE \<or> st_serial_rx_buf sctx = [] \<or>
      st_serial_tx_buf sctx = [] \<or> st_msg_tx_buf sctx = [] \<or> st_msg_rx_values sctx = []"
  show ?thesis
  proof (cases bad)
    case True
    then have "static_context_create sizes plat sctx cbs u = Some None"
      unfolding static_context_create_def parts
      by (auto simp: bad_def smp_context_new_from_static_def split: option.split)
    with True show ?thesis unfolding bad_def by auto
  next
    case False
    then obtain c where c: "static_context_create sizes plat sctx cbs u = Some (Some c)"
      and "c = (smp_context_init plat (st_ctx sctx) ((st_decoder sctx)\<lparr>dec_state := WAIT_HEADER,
          dec_static := True, dec_buf := st_serial_rx_buf sctx,
          dec_bufsize := of_nat (length (st_serial_rx_buf sctx)),
          dec_maxsize := of_nat (length (st_serial_rx_buf sctx))\<rparr>) u True)
        \<lparr>ctx_serial_tx := Some \<lparr>buf_data = st_serial_tx_buf sctx, buf_maxsize = of_nat (length (st_serial_tx_buf sctx)),
           buf_free = NoFree, buf_static = True\<rparr>,
         ctx_msg_tx := Some \<lparr>buf_data = st_msg_tx_buf sctx, buf_maxsize = of_nat (length (st_msg_tx_buf sctx)),
           buf_free = NoFree, buf_static = True\<rparr>,
         ctx_msg_rx := Some \<lparr>msgid = 0, msg_values = replicate (length (st_msg_rx_values sctx)) zero_value,
           capacity = of_nat (length (st_msg_rx_values sctx)), msg_static = True\<rparr>\<rparr>"
      unfolding static_context_create_def parts
      by (auto simp: bad_def smp_context_new_from_static_def not_less)
    moreover have "length (st_serial_tx_buf sctx) < 2 ^ 64" "length (st_msg_tx_buf sctx) < 2 ^ 64"
      using assms(2,3) by (simp_all add: PTRDIFF_MAX_def)
    ultimately show ?thesis
      using False assms(1) facts unfolding bad_def
      by (simp add: smp_context_init_def context_static_def decoder_inv_def sized_def rx_ready_def tx_ready_def
          message_wf_def used_def buffer_wf_def)
  qed
qed

text \<open>
  C16: A context in static storage needs nothing of the heap: as long as the callbacks leave its
  parts in place, what sending and receiving do is the same whatever the allocator answers, no
  buffer is released, the context stays one of static storage and has nothing to free.
\<close>

theorem static_context_heap_free:
  assumes "context_static c" and "keeps_static cbs"
  shows "smp_context_send_message plat al (Some c) m = smp_context_send_message plat al' (Some c) m \<and>
    smp_context_process_fd plat als cbs (Some c) = smp_context_process_fd plat als' cbs (Some c) \<and>
    (\<forall>r rel ctx. smp_context_send_message plat al (Some c) m = Some (r, rel, ctx) \<longrightarrow>
      rel = [] \<and> (\<exists>c'. ctx = Some c' \<and> context_static c')) \<and>
    (\<forall>r c'. smp_context_process_fd plat als cbs (Some c) = Some (r, Some c') \<longrightarrow> context_static c') \<and>
    smp_context_free (Some c) = []"
  using send_message_static [OF assms(1)] process_fd_static [OF assms(2,1)]
    process_fd_static_keeps [OF assms(2,1)] assms(1)
  by (fastforce simp: smp_context_free_def context_static_def)

section \<open>A sample\<close>

definition sample_sizes :: static_sizes where
  "sample_sizes = \<lparr>sz_context = SIZEOF_CONTEXT, sz_decoder = SIZEOF_DECODER, sz_buffer = SIZEOF_BUFFER,
     sz_message = SIZEOF_MESSAGE\<rparr>"

definition sample_storage :: "(unit, event list) static_storage" where
  "sample_storage = \<lparr>st_ctx = sample_context (), st_decoder = zeroed_decoder,
     st_serial_rx_buf = replicate 64 0, st_serial_tx_buf = replicate 64 0, st_msg_tx_buf = replicate 32 0,
     st_msg_rx_values = replicate 4 zero_value\<rparr>"

theorem static_context_created_witness:
  "(\<exists>c. static_context_create sample_sizes null_platform sample_storage (Some recorder) [] = Some (Some c) \<and>
      context_static c \<and> dec_bufsize (ctx_decoder c) = 64) \<and>
   static_context_create sample_sizes null_platform (sample_storage\<lparr>st_msg_tx_buf := []\<rparr>) (Some recorder) [] = Some None"
proof
  have len: "length (st_serial_rx_buf sample_storage) = 64" by (simp add: sample_storage_def)
  obtain out where out: "static_context_create sample_sizes null_platform sample_storage (Some recorder) [] = Some out"
    "out \<noteq> None" "\<forall>c. out = Some c \<longrightarrow> context_static c \<and> unat (dec_bufsize (ctx_decoder c)) = 64"
    using static_context_created [of sample_storage sample_sizes null_platform "Some recorder" "[]"]
    unfolding len by (auto simp: sample_storage_def sample_sizes_def PTRDIFF_MAX_def)
  then show "\<exists>c. static_context_create sample_sizes null_platform sample_storage (Some recorder) [] = Some (Some c) \<and>
      context_static c \<and> dec_bufsize (ctx_decoder c) = 64"
    by (auto simp: word_unat_eq_iff)
  show "static_context_create sample_sizes null_platform (sample_storage\<lparr>st_msg_tx_buf := []\<rparr>) (Some recorder) [] = Some None"
    using static_context_created [of "sample_storage\<lparr>st_msg_tx_buf := []\<rparr>" sample_sizes null_platform "Some recorder" "[]"]
    by (auto simp: sample_storage_def PTRDIFF_MAX_def)
qed

lemma keeps_static_recorder: "keeps_static recorder"
  by (simp add: keeps_static_def recorder_def)

text \<open>An allocator that refuses every request.\<close>

definition refusing :: answers where
  "refusing = \<lparr>al_context = (\<lambda>_. False), al_decoder = (\<lambda>_. False), al_decoder_buf = (\<lambda>_. False),
     al_message = (\<lambda>_. False), al_values = (\<lambda>_. False), al_buffer = (\<lambda>_. False), al_buffer_data = (\<lambda>_. False),
     al_serial = (\<lambda>_. False), al_junk = (\<lambda>_. 0)\<rparr>"

lemma sample_buffer: "smp_buffer_init (replicate 64 0) 64 NoFree True =
    \<lparr>buf_data = replicate 64 0, buf_maxsize = 64, buf_free = NoFree, buf_static = True\<rparr>"
  by (simp add: smp_buffer_init_def)

theorem static_context_heap_free_witness:
  "let b = Some (smp_buffer_init (replicate 64 0) 64 NoFree True);
       c = (sample_context ())\<lparr>ctx_msg_tx := b, ctx_serial_tx := b,
         ctx_decoder := zeroed_decoder\<lparr>dec_static := True\<rparr>\<rparr>
   in smp_context_send_message null_platform refusing (Some c) (Some sample_message) =
        smp_context_send_message null_platform granting (Some c) (Some sample_message) \<and>
      smp_context_free (Some c) = []"
proof -
  let ?b = "Some (smp_buffer_init (replicate 64 0) 64 NoFree True)"
  let ?c = "(sample_context ())\<lparr>ctx_msg_tx := ?b, ctx_serial_tx := ?b,
      ctx_decoder := zeroed_decoder\<lparr>dec_static := True\<rparr>\<rparr>"
  have "context_static ?c"
    by (simp add: context_static_def sample_context_def empty_message_facts sample_buffer)
  from static_context_heap_free [OF this keeps_static_recorder, of null_platform refusing "Some sample_message" granting]
  show ?thesis by (simp only: Let_def)
qed

end
