(* ===== verification/Smp_Link.thy ===== *)
theory Smp_Link
  imports Smp_Context_Spec
begin

text \<open>
  Two contexts at the two ends of a line, whatever their devices: the interface of a device that
  can be read empty, and what follows from it and from the contract of the sender's device for
  the messages that cross the line.
\<close>

section \<open>A receiver\<close>

text \<open>Between two frames, with an empty message of its own or none.\<close>

definition rx_idle :: "('d, 'u) smp_context \<Rightarrow> bool" where
  "rx_idle c \<longleftrightarrow> decoder_inv (ctx_decoder c) \<and> dec_state (ctx_decoder c) = WAIT_HEADER \<and>
     sized (ctx_decoder c) \<and> rx_ready c"

definition receivable ::
  "'d platform \<Rightarrow> (nat \<Rightarrow> answers) \<Rightarrow> ('d, 'u) smp_context \<Rightarrow> message list \<Rightarrow> bool" where
  "receivable plat als c ms \<longleftrightarrow> (\<forall>k. sane (al_decoder_buf (als k))) \<and>
     (\<forall>m\<in>set ms. sendable plat m \<and>
        rx_room als c (filter arg_fits (the (message_args m))) \<and>
        decoder_fits (ctx_decoder c) (chunk_inputs als 0 (concat (map (frame_of plat) ms)))
          (length (outgoing plat m (the (message_args m)))))"

lemma args_wire_filter: "length (args_wire bo (filter P as)) \<le> length (args_wire bo as)"
  by (induction as) auto

lemma receivable_segments:
  assumes "receivable plat als c ms"
  shows "segments_ok plat als c (delivered ms)"
proof -
  have "args_valid (plat_order plat) (filter arg_fits as)"
    if "message_args m = Some as" "length (args_wire (plat_order plat) as) < 2 ^ 32" for m as
  proof -
    have "\<forall>a\<in>set as. arg_wf a"
      using that(1) by (auto simp: message_args_def bind_eq_Some_conv dest: values_args_wf)
    then show ?thesis
      using that(2) args_wire_filter [of "plat_order plat" arg_fits as] by (auto simp: args_valid_def)
  qed
  with assms show ?thesis
    unfolding segments_ok_def line_bytes_delivered
    by (fastforce simp: receivable_def sendable_def delivered_def outgoing_def)
qed

section \<open>Devices that can be read empty\<close>

text \<open>
  \<open>clean\<close>: no error will come from the line and no byte be lost. \<open>askable k\<close>: a read may ask for \<open>k\<close>
  bytes. A read of a clean device says that nothing is left, or gets something and leaves the
  device clean.
\<close>

locale draining_device = serial_device ops is_open sent pending healthy
  for ops :: "'d device_ops" and is_open sent pending healthy +
  fixes clean :: "'d \<Rightarrow> bool"
    and askable :: "nat \<Rightarrow> bool"
  assumes clean_healthy: "clean d \<Longrightarrow> healthy d"
    and clean_read: "is_open d \<Longrightarrow> clean d \<Longrightarrow> askable k \<Longrightarrow> dev_read ops d k = Some (a, d') \<Longrightarrow>
      clean d' \<and> (a \<in> {Inl SMP_ERROR_WOULD_BLOCK, Inr []} \<and> pending d' = [] \<or>
        (\<exists>bs. a = Inr bs \<and> bs \<noteq> []))"
begin

lemma drains_clean:
  assumes "drains ops k d chunks r d'" and "is_open d" and "clean d" and "askable k"
  shows "r = Inr () \<and> pending d' = [] \<and> healthy d'"
  using assms(1-3)
proof (induction rule: drains.induct)
  case (error d e d')
  from clean_read [OF error.prems assms(4) error.hyps] show ?case by (auto intro: clean_healthy)
next
  case (empty d d')
  from clean_read [OF empty.prems assms(4) empty.hyps] show ?case by (auto intro: clean_healthy)
next
  case (chunk d bs d1 chunks r d')
  from clean_read [OF chunk.prems assms(4) chunk.hyps(1)] chunk.hyps(2) have "clean d1" by auto
  moreover from read_pending [OF chunk.prems(1) chunk.hyps(1)] have "is_open d1" by simp
  ultimately show ?case by (rule chunk.IH [rotated])
qed

text \<open>Everything that is pending is processed and reported.\<close>

lemma process_fd_clean:
  assumes "plat_ops plat = ops" and "is_open (ctx_device c)" and "clean (ctx_device c)"
    and "askable (plat_chunk plat)" and "ctx_opened c" and "rx_idle c"
    and "\<forall>k. sane (al_decoder_buf (als k))" and "noisy_ok plat als c items"
    and "pending (ctx_device c) = noisy_bytes (plat_order plat) items"
  shows "\<exists>c'. smp_context_process_fd plat als recorder (Some c) = Some (Inr (), Some c') \<and>
    ctx_userdata c' = ctx_userdata c @ noisy_journal items \<and>
    dec_state (ctx_decoder c') = WAIT_HEADER \<and> rx_ready c' \<and> pending (ctx_device c') = []"
proof -
  have idle: "decoder_inv (ctx_decoder c)" "dec_state (ctx_decoder c) = WAIT_HEADER"
      "sized (ctx_decoder c)" "rx_ready c"
    using assms(6) by (simp_all add: rx_idle_def)
  from process_fd_noisy [OF assms(1,2,5) idle(1-3) assms(7) idle(4) assms(8,9)]
  obtain chunks r d' where dr: "drains ops (plat_chunk plat) (ctx_device c) chunks r d'"
    and run: "healthy d' \<Longrightarrow> \<exists>c' n. smp_context_process_fd plat als recorder (Some c) = Some (r, Some c') \<and>
      ctx_device c' = d' \<and> ctx_opened c' \<and> rx_ready c' \<and>
      ctx_userdata c' = ctx_userdata c @ noisy_journal (take n items) \<and>
      (pending d' = [] \<longrightarrow> n = length items \<and> dec_state (ctx_decoder c') = WAIT_HEADER)"
    by blast
  from drains_clean [OF dr assms(2-4)] have "r = Inr ()" "pending d' = []" "healthy d'" by simp_all
  with run obtain c' where "smp_context_process_fd plat als recorder (Some c) = Some (Inr (), Some c')"
    "ctx_device c' = d'" "rx_ready c'" "ctx_userdata c' = ctx_userdata c @ noisy_journal items"
    "dec_state (ctx_decoder c') = WAIT_HEADER" by auto
  with \<open>pending d' = []\<close> show ?thesis by blast
qed

end

section \<open>Devices that are waited for\<close>

text \<open>A wait that returns leaves the line as it was.\<close>

locale attended_device = draining_device ops is_open sent pending healthy clean askable +
  waiting_device ops is_open sent pending healthy
  for ops :: "'d device_ops" and is_open sent pending healthy clean askable +
  assumes wait_clean: "is_open d \<Longrightarrow> clean d \<Longrightarrow> dev_wait ops d t = Some (r, d') \<Longrightarrow> clean d'"
begin

text \<open>
  Waiting, then processing: nothing happens unless the wait succeeds, and then everything that is
  pending is reported.
\<close>

lemma wait_and_process_clean:
  assumes "plat_ops plat = ops" and "is_open (ctx_device c)" and "clean (ctx_device c)"
    and "askable (plat_chunk plat)" and "ctx_opened c" and "rx_idle c"
    and "\<forall>k. sane (al_decoder_buf (als k))" and "noisy_ok plat als c items"
    and "pending (ctx_device c) = noisy_bytes (plat_order plat) items"
  shows "case dev_wait ops (ctx_device c) t of
      None \<Rightarrow> smp_context_wait_and_process plat als recorder (Some c) t = None
    | Some (Inl e, d) \<Rightarrow>
        smp_context_wait_and_process plat als recorder (Some c) t = Some (Inl e, Some (c\<lparr>ctx_device := d\<rparr>)) \<and>
        pending d = pending (ctx_device c)
    | Some (Inr _, d) \<Rightarrow>
        \<exists>c'. smp_context_wait_and_process plat als recorder (Some c) t = Some (Inr (), Some c') \<and>
          ctx_userdata c' = ctx_userdata c @ noisy_journal items \<and>
          dec_state (ctx_decoder c') = WAIT_HEADER \<and> rx_ready c' \<and> pending (ctx_device c') = []"
proof (cases "dev_wait ops (ctx_device c) t")
  case None
  with assms(1,5) show ?thesis by (simp add: smp_context_wait_and_process_def)
next
  case (Some w)
  obtain r d where w: "dev_wait ops (ctx_device c) t = Some (r, d)" using Some by (cases w) simp
  let ?c = "c\<lparr>ctx_device := d\<rparr>"
  from wait_clean [OF assms(2,3) w] wait_keeps [OF assms(2) w] clean_healthy
  have d: "clean d" "is_open d" "pending d = pending (ctx_device c)" by simp_all
  have run: "smp_context_wait_and_process plat als recorder (Some c) t =
      (case r of Inl e \<Rightarrow> Some (Inl e, Some ?c) | Inr _ \<Rightarrow> smp_context_process_fd plat als recorder (Some ?c))"
    using w assms(1,5) by (simp add: smp_context_wait_and_process_def Let_def)
  have "noisy_ok plat als ?c items" "rx_idle ?c"
    using assms(6,8) by (simp_all add: noisy_ok_def rx_room_def rx_idle_def rx_ready_def cong: option.case_cong sum.case_cong)
  with process_fd_clean [of plat ?c als items] assms(1,4,5,7,9) d
  have "\<exists>c'. smp_context_process_fd plat als recorder (Some ?c) = Some (Inr (), Some c') \<and>
      ctx_userdata c' = ctx_userdata c @ noisy_journal items \<and>
      dec_state (ctx_decoder c') = WAIT_HEADER \<and> rx_ready c' \<and> pending (ctx_device c') = []"
    by simp
  with run w d(3) show ?thesis by (cases r) simp_all
qed

end

section \<open>A line between two devices\<close>

locale connection = tx: serial_device ops_t open_t sent_t pending_t healthy_t +
  rx: draining_device ops_r open_r sent_r pending_r healthy_r clean askable
  for ops_t :: "'t device_ops" and open_t sent_t pending_t healthy_t
    and ops_r :: "'r device_ops" and open_r sent_r pending_r healthy_r clean askable
begin

lemma delivery:
  assumes "plat_ops pa = ops_t" and "open_t (ctx_device a)" and "ctx_opened a" and "tx_ready a"
    and "\<And>m. m \<in> set ms \<Longrightarrow> sendable pa m" and "send_all pa al a ms = Some (Inr (), a')"
    and "sent_t (ctx_device a') = sent_t (ctx_device a) @ pending_r (ctx_device b)"
    and "plat_ops pb = ops_r" and "plat_order pb = plat_order pa"
    and "askable (plat_chunk pb)" and "open_r (ctx_device b)" and "clean (ctx_device b)"
    and "ctx_opened b" and "rx_idle b" and "receivable pb als b ms"
  shows "\<exists>b'. smp_context_process_fd pb als recorder (Some b) = Some (Inr (), Some b') \<and>
    ctx_userdata b' = ctx_userdata b @
      map (\<lambda>m. Received (msgid m) (Some (filter arg_fits (the (message_args m))))) ms"
proof -
  have "pending_r (ctx_device b) = concat (map (frame_of pa) ms)"
    using tx.send_all_sent [OF assms(1-6)] assms(7) by simp
  moreover have "frame_of pb = frame_of pa"
    by (simp add: frame_of_def [abs_def] outgoing_def assms(9))
  ultimately have pending: "pending_r (ctx_device b) =
      noisy_bytes (plat_order pb) (intact (delivered ms))"
    by (simp add: line_bytes_delivered intact_bytes)
  have sane: "\<forall>k. sane (al_decoder_buf (als k))" using assms(15) by (simp add: receivable_def)
  have "noisy_journal (intact (delivered ms)) = journal (delivered ms)"
    using intact_journal [of "length ms" "delivered ms"] by (simp add: intact_def delivered_def)
  then have "noisy_journal (intact (delivered ms)) =
      map (\<lambda>m. Received (msgid m) (Some (filter arg_fits (the (message_args m))))) ms"
    by (simp add: journal_def delivered_def comp_def)
  with rx.process_fd_clean [OF assms(8,11,12,10,13,14) sane
      intact_ok [OF receivable_segments [OF assms(15)]] pending]
  show ?thesis by auto
qed

end

end
