(* ===== verification/Smp_Hosted.thy ===== *)
theory Smp_Hosted
  imports Smp_Link
begin

text \<open>
  Applications that use the context from their callbacks: the loop of \<open>smp_context_process_fd\<close> when
  the device changes between two reads in other ways than by reading, and an application that sends
  every message back.
\<close>

section \<open>Processing with such an application\<close>

text \<open>
  The device and the application together: what is good for the application implies an opened, clean
  device, reading keeps it, and its callbacks do not change what is still to be read.
\<close>

locale hosted_application = draining_device ops is_open sent pending healthy clean askable +
  application cbs bo good heard
  for ops :: "'d device_ops" and is_open sent pending healthy clean askable
    and cbs :: "('d, 'u) callbacks" and bo good heard +
  assumes good_device: "good c \<Longrightarrow> is_open (ctx_device c) \<and> clean (ctx_device c)"
    and good_read: "good c \<Longrightarrow> dev_read ops (ctx_device c) k = Some (a, d) \<Longrightarrow> clean d \<Longrightarrow>
      good (c\<lparr>ctx_device := d\<rparr>) \<and> heard (c\<lparr>ctx_device := d\<rparr>) = heard c"
    and message_pending: "good c \<Longrightarrow> message_args m = Some as \<Longrightarrow> args_valid bo as \<Longrightarrow>
      pending (ctx_device (smp_context_notify_new_message cbs c m)) = pending (ctx_device c)"
    and error_pending: "good c \<Longrightarrow>
      pending (ctx_device (smp_context_notify_error cbs c e)) = pending (ctx_device c)"
begin

text \<open>A chunk is processed with the rest of the line waiting.\<close>

sublocale waiting_line: application cbs bo "\<lambda>c. good c \<and> pending (ctx_device c) = rest" heard for rest
proof (unfold_locales, goal_cases)
  case (5 c m as c')
  with on_message [of c m as c'] message_pending [of c m as] show ?case by simp
next
  case (6 c e c')
  with on_error [of c e c'] error_pending [of c e] show ?case by simp
qed (simp_all add: good_decoder good_msg_rx heard_decoder heard_msg_rx message_msg_rx)

lemma loop_told:
  assumes "plat_ops plat = ops" and "plat_order plat = bo" and "askable (plat_chunk plat)"
    and "\<forall>k. sane (al_decoder_buf (al k))"
  shows "decoder_inv (ctx_decoder c) \<Longrightarrow> sized (ctx_decoder c) \<Longrightarrow> rx_ready c \<Longrightarrow> good c \<Longrightarrow>
    run_steps decoder_step (ctx_decoder c) (chunk_inputs al k (pending (ctx_device c))) = Some (outs, d') \<Longrightarrow>
    List.map_filter decoder_report outs = map (report_wire bo) rs \<Longrightarrow>
    \<forall>ident as. Inr (ident, as) \<in> set rs \<longrightarrow> args_valid bo as \<and> rx_room al c as \<Longrightarrow>
    \<exists>c'. process_loop plat al cbs k c = Some (Inr (), c') \<and> told c (map report_event rs) d' c' \<and>
      pending (ctx_device c') = []"
proof (induction "length (pending (ctx_device c))" arbitrary: k c outs rs rule: less_induct)
  case less
  have dev: "is_open (ctx_device c)" "clean (ctx_device c)" using good_device [OF less.prems(4)] by simp_all
  obtain a d1 where rd: "dev_read ops (ctx_device c) (plat_chunk plat) = Some (a, d1)"
    using read_returns [OF dev(1)] by fastforce
  from clean_read [OF dev assms(3) rd] have d1: "clean d1"
    "a \<in> {Inl SMP_ERROR_WOULD_BLOCK, Inr []} \<and> pending d1 = [] \<or> (\<exists>bs. a = Inr bs \<and> bs \<noteq> [])" by simp_all
  show ?case
  proof (cases "a \<in> {Inl SMP_ERROR_WOULD_BLOCK, Inr []} \<and> pending d1 = []")
    case True
    then have keep: "pending (ctx_device c) = []"
      using rd read_error [OF dev(1)] read_pending [OF dev(1)] clean_healthy [OF d1(1)] by auto
    then have "outs = [] \<and> d' = ctx_decoder c \<and> rs = []"
      using less.prems(5,6) by (simp add: map_filter_simps)
    moreover have "process_loop plat al cbs k c = Some (Inr (), c\<lparr>ctx_device := d1\<rparr>)"
      using rd True assms(1) by (subst process_loop.simps) auto
    moreover have "told c [] (ctx_decoder c) (c\<lparr>ctx_device := d1\<rparr>)"
      using good_read [OF less.prems(4) rd d1(1)] less.prems(3)
      by (simp add: told_def rx_ready_def)
    ultimately show ?thesis using True by simp
  next
    case False
    with d1(2) obtain bs where bs: "a = Inr bs" "bs \<noteq> []" by blast
    with rd read_pending [OF dev(1)] clean_healthy [OF d1(1)]
    have keep: "pending (ctx_device c) = bs @ pending d1" by auto
    let ?c = "c\<lparr>ctx_device := d1\<rparr>"
    have good: "good ?c" "heard ?c = heard c"
      using good_read [OF less.prems(4) rd d1(1)] by simp_all
    from less.prems(5) obtain outs1 outs2 dec1
      where run1: "run_steps decoder_step (ctx_decoder ?c) (chunk_inputs al k bs) = Some (outs1, dec1)"
        and run2: "run_steps decoder_step dec1 (chunk_inputs al (k + length bs) (pending d1)) = Some (outs2, d')"
        and outs: "outs = outs1 @ outs2"
      unfolding keep chunk_inputs_append by (elim run_steps_appendE) simp
    from less.prems(6) obtain rs1 rs2 where rs: "rs = rs1 @ rs2"
      and rep1: "List.map_filter decoder_report outs1 = map (report_wire bo) rs1"
      and rep2: "List.map_filter decoder_report outs2 = map (report_wire bo) rs2"
      unfolding outs map_filter_append by (metis map_eq_appendE)
    have valid: "\<forall>ident as. Inr (ident, as) \<in> set rs1 \<longrightarrow> args_valid bo as \<and> rx_room al ?c as"
      using less.prems(7) by (simp add: rs rx_room_def)
    from waiting_line.chunk_told [where rest = "pending d1", OF _ _ assms(4) _ _ assms(2) run1 rep1 valid]
      less.prems(1-3) good
    obtain c1 where chunk: "process_chunk plat al cbs k ?c bs = Some c1" "sized dec1"
      and told': "waiting_line.told (pending d1) ?c (map report_event rs1) dec1 c1"
      by (auto simp: rx_ready_def)
    have told1: "told c (map report_event rs1) dec1 c1" and pend: "pending (ctx_device c1) = pending d1"
      using told' good(2) by (simp_all add: told_def waiting_line.told_def)
    have loop: "process_loop plat al cbs k c = process_loop plat al cbs (k + length bs) c1"
      using rd bs chunk(1) assms(1) by (subst process_loop.simps) simp
    have shorter: "length (pending (ctx_device c1)) < length (pending (ctx_device c))"
      using bs(2) by (simp add: pend keep)
    have c1: "decoder_inv (ctx_decoder c1)" "sized (ctx_decoder c1)" "rx_ready c1" "good c1"
        "run_steps decoder_step (ctx_decoder c1)
          (chunk_inputs al (k + length bs) (pending (ctx_device c1))) = Some (outs2, d')"
        "\<forall>ident as. Inr (ident, as) \<in> set rs2 \<longrightarrow> args_valid bo as \<and> rx_room al c1 as"
      using told1 chunk(2) run2 decoder_machine.run_inv [OF _ run1] less.prems(1,7) told_room [OF told1]
      by (auto simp: told_def pend rs)
    from less.hyps [OF shorter c1(1-5) rep2 c1(6)] obtain c' where
      "process_loop plat al cbs (k + length bs) c1 = Some (Inr (), c')"
      "told c1 (map report_event rs2) d' c'" "pending (ctx_device c') = []" by blast
    with loop told_trans [OF told1] show ?thesis by (auto simp: rs)
  qed
qed

lemma process_fd_told:
  assumes "plat_ops plat = ops" and "plat_order plat = bo" and "askable (plat_chunk plat)"
    and "\<forall>k. sane (al_decoder_buf (al k))" and "ctx_opened c" and "rx_idle c" and "good c"
    and "noisy_ok plat al c items" and "pending (ctx_device c) = noisy_bytes bo items"
  shows "\<exists>c'. smp_context_process_fd plat al cbs (Some c) = Some (Inr (), Some c') \<and>
    good c' \<and> heard c' = heard c @ noisy_journal items \<and> dec_state (ctx_decoder c') = WAIT_HEADER \<and>
    rx_ready c' \<and> pending (ctx_device c') = []"
proof -
  have idle: "decoder_inv (ctx_decoder c)" "dec_state (ctx_decoder c) = WAIT_HEADER"
      "sized (ctx_decoder c)" "rx_ready c"
    using assms(6) by (simp_all add: rx_idle_def)
  let ?rs = "map (\<lambda>(noise, it). item_report it) items"
  obtain outs d' where run: "run_steps decoder_step (ctx_decoder c)
        (chunk_inputs al 0 (pending (ctx_device c))) = Some (outs, d')"
    and "dec_state d' = WAIT_HEADER" and rep: "List.map_filter decoder_report outs = map (report_wire bo) ?rs"
    and valid: "\<forall>ident as. Inr (ident, as) \<in> set ?rs \<longrightarrow> args_valid bo as \<and> rx_room al c as"
    using noisy_run [OF idle(1,2) assms(8)] unfolding assms(2,9) .
  moreover from loop_told [OF assms(1-4) idle(1,3,4) assms(7) run rep valid] obtain c' where
    "process_loop plat al cbs 0 c = Some (Inr (), c')" "told c (map report_event ?rs) d' c'"
    "pending (ctx_device c') = []" by blast
  moreover have "map report_event ?rs = noisy_journal items" by (simp add: noisy_journal_def case_prod_beta)
  ultimately show ?thesis using assms(5) by (auto simp: smp_context_process_fd_def told_def)
qed

end

section \<open>An application that answers\<close>

text \<open>
  It sends every message it gets back, on the same context, and keeps what it heard and what
  the sends returned.
\<close>

type_synonym echo_log = "event list \<times> (smp_error + unit) list"

definition echo_message ::
  "'d platform \<Rightarrow> answers \<Rightarrow> ('d, echo_log) smp_context \<Rightarrow> message \<Rightarrow> ('d, echo_log) smp_context" where
  "echo_message plat al c m =
     (case smp_context_send_message plat al (Some c) (Some m) of
        Some (ret, rel, Some c') \<Rightarrow>
          c'\<lparr>ctx_userdata := (fst (ctx_userdata c) @ [Received (msgid m) (message_args m)],
             snd (ctx_userdata c) @ [ret])\<rparr>
      | _ \<Rightarrow> c)"

definition echo :: "'d platform \<Rightarrow> answers \<Rightarrow> ('d, echo_log) callbacks" where
  "echo plat al =
     \<lparr>new_message_cb = Some (echo_message plat al),
      error_cb = Some (\<lambda>c e. c\<lparr>ctx_userdata :=
        (fst (ctx_userdata c) @ [Failed e], snd (ctx_userdata c))\<rparr>)\<rparr>"

text \<open>The frames of the messages among some events, as they cross the line.\<close>

fun event_frame :: "byte_order \<Rightarrow> event \<Rightarrow> byte list" where
  "event_frame bo (Received ident (Some as)) = serial_frame (message_wire bo ident as)"
| "event_frame bo (Received ident None) = []"
| "event_frame bo (Failed e) = []"

definition answered :: "(smp_error + unit) list \<Rightarrow> bool" where
  "answered rets \<longleftrightarrow> (\<forall>r\<in>set rets. r = Inr ())"

text \<open>Sending touches neither the decoder nor the message for reception.\<close>

lemma send_message_rx:
  assumes "smp_context_send_message plat al (Some c) msg = Some (ret, rel, Some c')"
  shows "ctx_msg_rx c' = ctx_msg_rx c \<and> ctx_decoder c' = ctx_decoder c"
  using assms by (cases rule: send_message_shape) (auto dest: send_frame_device)

definition messages_heard :: "event list \<Rightarrow> nat" where
  "messages_heard evs = length (filter (\<lambda>e. case e of Received i as \<Rightarrow> True | Failed e \<Rightarrow> False) evs)"

text \<open>No frame is longer, for arguments that fit the format.\<close>

definition FRAME_BOUND :: nat where
  "FRAME_BOUND = 2 ^ 34"

text \<open>The context allocates its transmit buffers and gets the memory for them.\<close>

definition willing :: "answers \<Rightarrow> ('d, 'u) smp_context \<Rightarrow> bool" where
  "willing al c \<longleftrightarrow> ctx_msg_tx c = None \<and> ctx_serial_tx c = None \<and> al_buffer al SIZEOF_BUFFER \<and>
     (\<forall>n. unat n \<le> FRAME_BOUND \<longrightarrow> al_buffer_data al n \<and> al_serial al n)"

lemma willing_accepts:
  assumes "willing al c" and "length (args_wire (plat_order plat) as) < 2 ^ 32"
  shows "msg_refusal al c (of_nat (8 + length (args_wire (plat_order plat) as))) = None"
    and "serial_refusal al c (outgoing plat m as) = None"
    and "length (serial_frame (outgoing plat m as)) \<le> FRAME_BOUND"
proof -
  have "unat (of_nat (8 + length (args_wire (plat_order plat) as)) :: size_t) \<le> FRAME_BOUND"
    using assms(2) by (subst unat_of_nat_size) (simp_all add: FRAME_BOUND_def)
  then show "msg_refusal al c (of_nat (8 + length (args_wire (plat_order plat) as))) = None"
    using assms(1) by (simp add: msg_refusal_def willing_def)
  have "length (args_wire (plat_order plat) (filter arg_fits as)) \<le> length (args_wire (plat_order plat) as)"
    by (rule args_wire_filter)
  then have len: "length (outgoing plat m as) < 8 + 2 ^ 32"
    using assms(2) by (simp add: outgoing_def message_wire_def)
  have bound: "length p + 4 + length (filter is_magic_byte p) \<le> FRAME_BOUND" if "length p < 8 + 2 ^ 32" for p
  proof -
    have "length p + 4 + length (filter is_magic_byte p) \<le> 2 * length p + 4"
      using length_filter_le [of is_magic_byte p] by linarith
    also have "\<dots> \<le> FRAME_BOUND" using that by (simp add: FRAME_BOUND_def)
    finally show ?thesis .
  qed
  have "2 * length (outgoing plat m as) + 4 < 2 ^ 64" using len by simp
  from unat_compute_payload_size [OF this] bound [OF len]
  have "unat (compute_payload_size (outgoing plat m as)) \<le> FRAME_BOUND" by simp
  then show "serial_refusal al c (outgoing plat m as) = None"
    using assms(1) by (simp add: serial_refusal_def willing_def)
  show "length (serial_frame (outgoing plat m as)) \<le> FRAME_BOUND"
    using serial_frame_fits [of "outgoing plat m as"] bound [OF len] by simp
qed

text \<open>
  A device on which a write always returns and does not disturb what was received. \<open>offers d\<close>: how
  many more writes it takes in full, of the size of any frame.
\<close>

locale duplex_device = draining_device ops is_open sent pending healthy clean askable
  for ops :: "'d device_ops" and is_open sent pending healthy clean askable +
  fixes offers :: "'d \<Rightarrow> nat"
  assumes write_line: "is_open d \<Longrightarrow> clean d \<Longrightarrow> \<exists>r d'. dev_write ops d bs = Some (r, d') \<and>
      is_open d' \<and> clean d' \<and> pending d' = pending d \<and>
      (0 < offers d \<and> length bs \<le> FRAME_BOUND \<longrightarrow> r = Inr (of_nat (length bs)) \<and> offers d = Suc (offers d'))"
    and read_offers: "is_open d \<Longrightarrow> dev_read ops d k = Some (a, d') \<Longrightarrow> offers d' = offers d"
begin

lemma send_returns:
  assumes "plat_ops plat = ops" and "is_open (ctx_device c)" and "clean (ctx_device c)" and "ctx_opened c"
    and "tx_ready c" and "message_args m = Some as" and "args_valid (plat_order plat) as"
  shows "\<exists>ret rel c'. smp_context_send_message plat al (Some c) (Some m) = Some (ret, rel, Some c') \<and>
    is_open (ctx_device c') \<and> clean (ctx_device c') \<and> pending (ctx_device c') = pending (ctx_device c) \<and>
    ctx_opened c' \<and> tx_ready c' \<and> (ret = Inr () \<longrightarrow>
      sent (ctx_device c') = sent (ctx_device c) @ serial_frame (message_wire (plat_order plat) (msgid m) as)) \<and>
    (willing al c \<longrightarrow> willing al c' \<and>
      (0 < offers (ctx_device c) \<longrightarrow> ret = Inr () \<and> offers (ctx_device c) = Suc (offers (ctx_device c'))))"
proof -
  have small: "length (args_wire (plat_order plat) as) < 2 ^ 32" and "filter arg_fits as = as"
    using assms(7) by (auto simp: args_valid_def intro!: filter_True)
  then have out: "outgoing plat m as = message_wire (plat_order plat) (msgid m) as"
    by (simp add: outgoing_def)
  have sent: "sent (ctx_device c') = sent (ctx_device c) @ serial_frame (message_wire (plat_order plat) (msgid m) as)"
    if "smp_context_send_message plat al (Some c) (Some m) = Some (Inr (), rel, Some c')" for rel c'
    using send_message_sent [OF assms(1,2,4-6) small that] by (simp add: out)
  note accepts = willing_accepts [OF _ small, of al c]
  from send_message_cases [OF assms(4-6) small, of al] show ?thesis
  proof cases
    case (1 e)
    with assms(2-5) accepts(1) show ?thesis by auto
  next
    case (2 e data)
    with assms(2-5) accepts(2) [of m] show ?thesis
      by (auto simp: tx_ready_def buffer_written_def buffer_wf_def)
  next
    case (3 data txbuf)
    let ?f = "serial_frame (outgoing plat m as)"
    obtain r d' where w: "dev_write ops (ctx_device c) ?f = Some (r, d')"
      "is_open d'" "clean d'" "pending d' = pending (ctx_device c)"
      "0 < offers (ctx_device c) \<and> length ?f \<le> FRAME_BOUND \<longrightarrow>
        r = Inr (of_nat (length ?f)) \<and> offers (ctx_device c) = Suc (offers d')"
      using write_line [OF assms(2,3)] by blast
    let ?c = "c\<lparr>ctx_msg_tx := buffer_written (ctx_msg_tx c) data,
        ctx_serial_tx := buffer_written (ctx_serial_tx c) txbuf, ctx_device := d'\<rparr>"
    have ready: "tx_ready ?c"
      using assms(5) 3(2,3) by (auto simp: tx_ready_def buffer_written_def buffer_wf_def)
    have still: "willing al c \<longrightarrow> willing al ?c" by (simp add: willing_def buffer_written_def)
    obtain ret where run: "smp_context_send_message plat al (Some c) (Some m) =
        Some (ret, sent_releases c, Some ?c)" "r = Inr (of_nat (length ?f)) \<longrightarrow> ret = Inr ()"
      using 3(1) w(1) assms(1) by (cases r) (simp_all add: write_frame_def)
    with sent [of "sent_releases c" ?c] w(2-5) ready still accepts(3) [of m] assms(4) show ?thesis
      by (cases ret) auto
  qed
qed

text \<open>
  The application that answers, on such a device: \<open>start\<close> is what had been sent before; when it is
  \<open>sure\<close> to be able to, it answers the first \<open>n\<close> messages.
\<close>

definition echo_good ::
  "byte list \<Rightarrow> byte_order \<Rightarrow> answers \<Rightarrow> bool \<Rightarrow> nat \<Rightarrow> ('d, echo_log) smp_context \<Rightarrow> bool" where
  "echo_good start bo al sure n c \<longleftrightarrow> is_open (ctx_device c) \<and> clean (ctx_device c) \<and> ctx_opened c \<and> tx_ready c \<and>
     (answered (snd (ctx_userdata c)) \<longrightarrow>
       sent (ctx_device c) = start @ concat (map (event_frame bo) (fst (ctx_userdata c)))) \<and>
     (sure \<longrightarrow> willing al c \<and> n \<le> offers (ctx_device c) + messages_heard (fst (ctx_userdata c)) \<and>
       (messages_heard (fst (ctx_userdata c)) \<le> n \<longrightarrow> answered (snd (ctx_userdata c))))"

lemma echo_on_message:
  assumes "plat_ops plat = ops" and "plat_order plat = bo" and "echo_good start bo al sure n c"
    and "message_args m = Some as" and "args_valid bo as"
  shows "echo_good start bo al sure n (echo_message plat al c m) \<and>
    fst (ctx_userdata (echo_message plat al c m)) = fst (ctx_userdata c) @ [Received (msgid m) (Some as)] \<and>
    ctx_decoder (echo_message plat al c m) = ctx_decoder c \<and>
    pending (ctx_device (echo_message plat al c m)) = pending (ctx_device c)"
proof -
  have c: "is_open (ctx_device c)" "clean (ctx_device c)" "ctx_opened c" "tx_ready c"
    using assms(3) by (simp_all add: echo_good_def)
  from send_returns [OF assms(1) c assms(4), of al] assms(2,5) obtain ret rel c' where
    run: "smp_context_send_message plat al (Some c) (Some m) = Some (ret, rel, Some c')"
    and c': "is_open (ctx_device c')" "clean (ctx_device c')" "pending (ctx_device c') = pending (ctx_device c)"
      "ctx_opened c'" "tx_ready c'"
    and sent: "ret = Inr () \<longrightarrow>
      sent (ctx_device c') = sent (ctx_device c) @ serial_frame (message_wire bo (msgid m) as)"
    and able: "willing al c \<longrightarrow> willing al c' \<and>
      (0 < offers (ctx_device c) \<longrightarrow> ret = Inr () \<and> offers (ctx_device c) = Suc (offers (ctx_device c')))"
    by auto
  let ?c = "echo_message plat al c m"
  have e: "?c = c'\<lparr>ctx_userdata := (fst (ctx_userdata c) @ [Received (msgid m) (Some as)],
      snd (ctx_userdata c) @ [ret])\<rparr>"
    by (simp add: echo_message_def run assms(4))
  have "willing al ?c \<and> n \<le> offers (ctx_device ?c) + messages_heard (fst (ctx_userdata ?c)) \<and>
      (messages_heard (fst (ctx_userdata ?c)) \<le> n \<longrightarrow> answered (snd (ctx_userdata ?c)))" if sure
    using assms(3) able that
    by (auto simp: e echo_good_def messages_heard_def answered_def willing_def)
  moreover have "answered (snd (ctx_userdata ?c)) \<longrightarrow>
      sent (ctx_device ?c) = start @ concat (map (event_frame bo) (fst (ctx_userdata ?c)))"
    using assms(3) sent by (auto simp: e echo_good_def answered_def)
  moreover have "ctx_decoder c' = ctx_decoder c" using send_message_rx [OF run] by simp
  ultimately show ?thesis using c' by (simp add: echo_good_def e tx_ready_def)
qed

lemma echo_hosted:
  assumes "plat_ops plat = ops" and "plat_order plat = bo"
  shows "hosted_application ops is_open sent pending healthy clean askable (echo plat al) bo
    (echo_good start bo al sure n) (\<lambda>c. fst (ctx_userdata c))"
proof (unfold_locales, goal_cases)
  case (5 c m as c')
  with echo_on_message [OF assms, of start al sure n c m as] show ?case
    by (simp add: smp_context_notify_new_message_def echo_def)
next
  case (7 c m)
  show ?case
    by (auto simp: smp_context_notify_new_message_def echo_def echo_message_def
        split: option.split prod.split dest: send_message_rx)
next
  case (9 c k a d)
  then have op: "is_open (ctx_device c)" by (simp add: echo_good_def)
  have "is_open d \<and> sent d = sent (ctx_device c)"
    using read_pending [OF op] read_error [OF op] 9(2) by (cases a) auto
  with 9 read_offers [OF op 9(2)] show ?case
    by (simp add: echo_good_def tx_ready_def willing_def)
next
  case (10 c m as)
  with echo_on_message [OF assms, of start al sure n c m as] show ?case
    by (simp add: smp_context_notify_new_message_def echo_def)
qed (auto simp: smp_context_notify_error_def echo_def echo_good_def tx_ready_def willing_def messages_heard_def)

end

end
