(* ===== verification/Smp_Line.thy ===== *)
theory Smp_Line
  imports Smp_Prelude
begin

text \<open>
  The far end of a serial device of an operating system: what its read and write calls answer.
  The answers are a script, so that a statement for every script is one for every behaviour of
  the line. The errors \<open>'e\<close> are those of the operating system.
\<close>

section \<open>State\<close>

text \<open>
  \<open>ln_in\<close>: an error, or bytes that arrived together (none: end of file); the end of the script
  means that nothing more arrives. \<open>ln_out\<close>: an error, or how many bytes the line takes.
\<close>

record 'e line =
  ln_in :: "('e + byte list) list"
  ln_out :: "('e + nat) list"
  ln_sent :: "byte list"

definition ln_pending :: "'e line \<Rightarrow> byte list" where
  "ln_pending l = concat (map (\<lambda>a. case a of Inl e \<Rightarrow> [] | Inr bs \<Rightarrow> bs) (ln_in l))"

section \<open>Calls\<close>

text \<open>A read gets at most \<open>k\<close> bytes of those that arrived together; the rest waits.\<close>

definition line_read :: "'e line \<Rightarrow> nat \<Rightarrow> ('e + byte list) option \<times> 'e line" where
  "line_read l k =
     (case ln_in l of
        [] \<Rightarrow> (None, l)
      | Inl e # q \<Rightarrow> (Some (Inl e), l\<lparr>ln_in := q\<rparr>)
      | Inr bs # q \<Rightarrow>
          (Some (Inr (take k bs)), l\<lparr>ln_in := (if length bs \<le> k then q else Inr (drop k bs) # q)\<rparr>))"

text \<open>No call transfers more bytes than its signed result can say.\<close>

definition line_write :: "'e line \<Rightarrow> byte list \<Rightarrow> ('e + size_t) option \<times> 'e line" where
  "line_write l bs =
     (case ln_out l of
        [] \<Rightarrow> (None, l)
      | Inl e # q \<Rightarrow> (Some (Inl e), l\<lparr>ln_out := q\<rparr>)
      | Inr n # q \<Rightarrow>
          let k = min n (min (length bs) PTRDIFF_MAX)
          in (Some (Inr (of_nat k)), l\<lparr>ln_out := q, ln_sent := ln_sent l @ take k bs\<rparr>))"

section \<open>Laws\<close>

lemma line_read_cases:
  obtains (idle) "line_read l k = (None, l)" "ln_in l = []"
  | (failed) e l' where "line_read l k = (Some (Inl e), l')" "ln_pending l' = ln_pending l"
      "ln_sent l' = ln_sent l"
  | (data) bs l' where "line_read l k = (Some (Inr bs), l')" "ln_pending l = bs @ ln_pending l'"
      "ln_sent l' = ln_sent l" "length bs \<le> k"
proof (cases "ln_in l")
  case Nil
  then show thesis by (intro idle) (simp_all add: line_read_def)
next
  case (Cons a q)
  then show thesis
    by (cases a) (auto intro: failed data simp: line_read_def ln_pending_def)
qed

lemma line_write_cases:
  obtains (full) "line_write l bs = (None, l)"
  | (failed) e l' where "line_write l bs = (Some (Inl e), l')" "ln_sent l' = ln_sent l"
      "ln_in l' = ln_in l"
  | (taken) n l' where "line_write l bs = (Some (Inr n), l')" "unat n \<le> length bs"
      "ln_sent l' = ln_sent l @ take (unat n) bs" "ln_in l' = ln_in l"
proof (cases "ln_out l")
  case Nil
  then show thesis by (intro full) (simp add: line_write_def)
next
  case (Cons a q)
  have small: "unat (of_nat k :: size_t) = k" if "k \<le> PTRDIFF_MAX" for k
    using that by (simp add: PTRDIFF_MAX_def unat_of_nat take_bit_nat_eq_self)
  show thesis
  proof (cases a)
    case (Inl e)
    show thesis
      by (rule failed [of e "l\<lparr>ln_out := q\<rparr>"]) (simp_all add: line_write_def Cons Inl)
  next
    case (Inr n)
    let ?k = "min n (min (length bs) PTRDIFF_MAX)"
    show thesis
      by (rule taken [of "of_nat ?k" "l\<lparr>ln_out := q, ln_sent := ln_sent l @ take ?k bs\<rparr>"])
        (simp_all add: line_write_def Cons Inr Let_def small)
  qed
qed

end
