(* ===== verification/Smp_Device_Posix.thy ===== *)
theory Smp_Device_Posix
  imports Smp_Device Smp_Line
begin

text \<open>
  The serial device of \<open>src/serial-device-posix.c\<close>, built with \<open>HAVE_TERMIOS_H\<close> and
  \<open>HAVE_POLL_H\<close>. The state is the structure \<open>SmpSerialDevice\<close> (the descriptor) and the part of
  the operating system the file calls: descriptors, \<open>errno\<close>, the settings of the terminal, the
  line, and a script of what each call answers. The calls follow their specification in POSIX.
\<close>

section \<open>Error numbers\<close>

datatype errno =
    EINVAL | EBADMSG | E2BIG | ENOMEM | ENOENT | ETIMEDOUT | EBADF | ENOSYS | EBUSY | EPERM
  | EAGAIN | EIO | E_OTHER int

fun errno_to_smp_error :: "errno \<Rightarrow> smp_error" where
  "errno_to_smp_error EINVAL = SMP_ERROR_INVALID_PARAM"
| "errno_to_smp_error EBADMSG = SMP_ERROR_BAD_MESSAGE"
| "errno_to_smp_error E2BIG = SMP_ERROR_TOO_BIG"
| "errno_to_smp_error ENOMEM = SMP_ERROR_NO_MEM"
| "errno_to_smp_error ENOENT = SMP_ERROR_NO_DEVICE"
| "errno_to_smp_error ETIMEDOUT = SMP_ERROR_TIMEDOUT"
| "errno_to_smp_error EBADF = SMP_ERROR_BAD_FD"
| "errno_to_smp_error ENOSYS = SMP_ERROR_NOT_SUPPORTED"
| "errno_to_smp_error EBUSY = SMP_ERROR_BUSY"
| "errno_to_smp_error EPERM = SMP_ERROR_PERM"
| "errno_to_smp_error EAGAIN = SMP_ERROR_WOULD_BLOCK"
| "errno_to_smp_error EIO = SMP_ERROR_IO"
| "errno_to_smp_error (E_OTHER n) = SMP_ERROR_OTHER"

section \<open>Terminal settings\<close>

text \<open>The flags by name; the character size is the one mask of several bits.\<close>

datatype tc_flag =
    IGNBRK | BRKINT | PARMRK | ISTRIP | INLCR | IGNCR | ICRNL | IXON | IXOFF
  | OPOST | ECHO | ECHONL | ICANON | ISIG | IEXTEN
  | PARENB | PARODD | CSTOPB | CREAD | CLOCAL

datatype tc_size = CS5 | CS6 | CS7 | CS8

datatype tc_speed =
    B0 | B1200 | B2400 | B4800 | B9600 | B19200 | B38400 | B57600 | B115200 | B230400 | B460800
  | B921600 | B1000000 | B2000000 | B4000000

record termios =
  c_iflag :: "tc_flag set"
  c_oflag :: "tc_flag set"
  c_cflag :: "tc_flag set"
  c_lflag :: "tc_flag set"
  c_size :: tc_size
  c_ispeed :: tc_speed
  c_ospeed :: tc_speed

definition cfsetispeed :: "tc_speed \<Rightarrow> termios \<Rightarrow> termios" where
  "cfsetispeed speed t = t\<lparr>c_ispeed := speed\<rparr>"

definition cfsetospeed :: "tc_speed \<Rightarrow> termios \<Rightarrow> termios" where
  "cfsetospeed speed t = t\<lparr>c_ospeed := speed\<rparr>"

definition cfmakeraw :: "termios \<Rightarrow> termios" where
  "cfmakeraw t = t\<lparr>
     c_iflag := c_iflag t - {IGNBRK, BRKINT, PARMRK, ISTRIP, INLCR, IGNCR, ICRNL, IXON},
     c_oflag := c_oflag t - {OPOST},
     c_lflag := c_lflag t - {ECHO, ECHONL, ICANON, ISIG, IEXTEN},
     c_cflag := c_cflag t - {PARENB},
     c_size := CS8\<rparr>"

section \<open>Operating system\<close>

datatype poll_flag = POLLIN | POLLERR | POLLHUP | POLLNVAL

text \<open>An answer of \<open>poll\<close>: nothing happened in time, an error, or the returned events.\<close>

datatype poll_answer = PollNothing | PollError errno | PollEvents "poll_flag set"

text \<open>
  \<open>os_path\<close> is what opening a path answers (\<^const>\<open>None\<close>: success), \<open>os_tcget\<close>, \<open>os_tcset\<close> and
  \<open>os_closing\<close> script the errors of those calls (the end of the script: success).
\<close>

record posix_os =
  os_errno :: errno
  os_fds :: "nat list"
  os_path :: "string \<Rightarrow> errno option"
  os_tty :: bool
  os_termios :: termios
  os_tcget :: "errno option list"
  os_tcset :: "errno option list"
  os_closing :: "errno option list"
  os_polls :: "poll_answer list"
  os_line :: "errno line"

definition fd_open :: "posix_os \<Rightarrow> int \<Rightarrow> bool" where
  "fd_open w fd \<longleftrightarrow> 0 \<le> fd \<and> nat fd \<in> set (os_fds w)"

definition fails :: "errno \<Rightarrow> posix_os \<Rightarrow> posix_os" where
  "fails e w = w\<lparr>os_errno := e\<rparr>"

text \<open>The next answer of a script.\<close>

definition scripted :: "'a option list \<Rightarrow> 'a option" where
  "scripted q = (case q of [] \<Rightarrow> None | a # _ \<Rightarrow> a)"

text \<open>\<open>open\<close> gives the lowest descriptor that is not in use.\<close>

definition lowest_fd :: "nat list \<Rightarrow> nat" where
  "lowest_fd fds = hd (filter (\<lambda>n. n \<notin> set fds) [0..<Suc (length fds)])"

definition sys_open :: "posix_os \<Rightarrow> string \<Rightarrow> int \<times> posix_os" where
  "sys_open w path =
     (case os_path w path of
        Some e \<Rightarrow> (-1, fails e w)
      | None \<Rightarrow> (int (lowest_fd (os_fds w)), w\<lparr>os_fds := lowest_fd (os_fds w) # os_fds w\<rparr>))"

definition sys_close :: "posix_os \<Rightarrow> int \<Rightarrow> posix_os" where
  "sys_close w fd =
     (if \<not> fd_open w fd then fails EBADF w
      else let w' = w\<lparr>os_fds := filter (\<lambda>n. n \<noteq> nat fd) (os_fds w), os_closing := drop 1 (os_closing w)\<rparr>
        in case scripted (os_closing w) of None \<Rightarrow> w' | Some e \<Rightarrow> fails e w')"

definition sys_isatty :: "posix_os \<Rightarrow> int \<Rightarrow> bool" where
  "sys_isatty w fd \<longleftrightarrow> fd_open w fd \<and> os_tty w"

definition sys_tcgetattr :: "posix_os \<Rightarrow> int \<Rightarrow> termios option \<times> posix_os" where
  "sys_tcgetattr w fd =
     (if \<not> fd_open w fd then (None, fails EBADF w)
      else let w' = w\<lparr>os_tcget := drop 1 (os_tcget w)\<rparr>
        in case scripted (os_tcget w) of None \<Rightarrow> (Some (os_termios w), w') | Some e \<Rightarrow> (None, fails e w'))"

text \<open>Whether it succeeded, and the state it leaves.\<close>

definition sys_tcsetattr :: "posix_os \<Rightarrow> int \<Rightarrow> termios \<Rightarrow> bool \<times> posix_os" where
  "sys_tcsetattr w fd term =
     (if \<not> fd_open w fd then (False, fails EBADF w)
      else let w' = w\<lparr>os_tcset := drop 1 (os_tcset w)\<rparr>
        in case scripted (os_tcset w) of
             None \<Rightarrow> (True, w'\<lparr>os_termios := term\<rparr>)
           | Some e \<Rightarrow> (False, fails e w'))"

text \<open>The descriptor does not block: a line with nothing to read or no room answers \<^const>\<open>EAGAIN\<close>.\<close>

definition sys_read :: "posix_os \<Rightarrow> int \<Rightarrow> nat \<Rightarrow> byte list option \<times> posix_os" where
  "sys_read w fd k =
     (if \<not> fd_open w fd then (None, fails EBADF w)
      else case line_read (os_line w) k of
          (None, l) \<Rightarrow> (None, fails EAGAIN (w\<lparr>os_line := l\<rparr>))
        | (Some (Inl e), l) \<Rightarrow> (None, fails e (w\<lparr>os_line := l\<rparr>))
        | (Some (Inr bs), l) \<Rightarrow> (Some bs, w\<lparr>os_line := l\<rparr>))"

definition sys_write :: "posix_os \<Rightarrow> int \<Rightarrow> byte list \<Rightarrow> size_t option \<times> posix_os" where
  "sys_write w fd bs =
     (if \<not> fd_open w fd then (None, fails EBADF w)
      else case line_write (os_line w) bs of
          (None, l) \<Rightarrow> (None, fails EAGAIN (w\<lparr>os_line := l\<rparr>))
        | (Some (Inl e), l) \<Rightarrow> (None, fails e (w\<lparr>os_line := l\<rparr>))
        | (Some (Inr n), l) \<Rightarrow> (Some n, w\<lparr>os_line := l\<rparr>))"

text \<open>
  \<open>poll\<close> on one descriptor: the result and the returned events. A negative descriptor is ignored,
  a closed one is reported at once; without a timeout only an event or an error ends the call.
\<close>

definition sys_poll :: "posix_os \<Rightarrow> int \<Rightarrow> int \<Rightarrow> (int \<times> poll_flag set \<times> posix_os) option" where
  "sys_poll w fd timeout =
     (if fd < 0 then (if timeout < 0 then None else Some (0, {}, w))
      else if \<not> fd_open w fd then Some (1, {POLLNVAL}, w)
      else let q = (if timeout < 0 then dropWhile (\<lambda>a. a = PollNothing) (os_polls w) else os_polls w);
               w' = w\<lparr>os_polls := drop 1 q\<rparr>
        in case q of
             [] \<Rightarrow> if timeout < 0 then None else Some (0, {}, w')
           | PollNothing # _ \<Rightarrow> Some (0, {}, w')
           | PollError e # _ \<Rightarrow> Some (-1, {}, fails e w')
           | PollEvents evs # _ \<Rightarrow> Some (1, evs, w'))"

section \<open>The device\<close>

record posix_device =
  pd_fd :: int
  pd_os :: posix_os

definition posix_errno :: "posix_os \<Rightarrow> smp_error" where
  "posix_errno w = errno_to_smp_error (os_errno w)"

definition posix_device_init :: "posix_device \<Rightarrow> posix_device" where
  "posix_device_init d = d\<lparr>pd_fd := -1\<rparr>"

text \<open>The block that prepares a terminal: its error, and the system it leaves.\<close>

definition open_terminal :: "posix_os \<Rightarrow> int \<Rightarrow> (smp_error + unit) \<times> posix_os" where
  "open_terminal w fd =
     (case sys_tcgetattr w fd of
        (None, w) \<Rightarrow> let w = sys_close w fd in (Inl (posix_errno w), w)
      | (Some term, w) \<Rightarrow>
          let term = cfmakeraw (cfsetospeed B115200 (cfsetispeed B115200 term)) in
          case sys_tcsetattr w fd term of
            (False, w) \<Rightarrow> let w = sys_close w fd in (Inl (posix_errno w), w)
          | (True, w) \<Rightarrow> (Inr (), w))"

definition posix_device_open ::
  "posix_device \<Rightarrow> string \<Rightarrow> (smp_error + int) \<times> posix_device" where
  "posix_device_open d path =
     (case sys_open (pd_os d) path of (fd, w) \<Rightarrow>
        if fd < 0 then (Inl (posix_errno w), d\<lparr>pd_os := w\<rparr>)
        else case (if sys_isatty w fd then open_terminal w fd else (Inr (), w)) of
            (Inl e, w) \<Rightarrow> (Inl e, d\<lparr>pd_os := w\<rparr>)
          | (Inr _, w) \<Rightarrow> (Inr fd, d\<lparr>pd_os := w, pd_fd := fd\<rparr>))"

definition posix_device_close :: "posix_device \<Rightarrow> posix_device" where
  "posix_device_close d = d\<lparr>pd_os := sys_close (pd_os d) (pd_fd d), pd_fd := -1\<rparr>"

definition posix_device_get_fd :: "posix_device \<Rightarrow> smp_error + int" where
  "posix_device_get_fd d = (if pd_fd d < 0 then Inl SMP_ERROR_BAD_FD else Inr (pd_fd d))"

fun posix_speed :: "smp_serial_baudrate \<Rightarrow> tc_speed option" where
  "posix_speed BAUDRATE_1200 = Some B1200"
| "posix_speed BAUDRATE_2400 = Some B2400"
| "posix_speed BAUDRATE_4800 = Some B4800"
| "posix_speed BAUDRATE_9600 = Some B9600"
| "posix_speed BAUDRATE_19200 = Some B19200"
| "posix_speed BAUDRATE_38400 = Some B38400"
| "posix_speed BAUDRATE_57600 = Some B57600"
| "posix_speed BAUDRATE_115200 = Some B115200"
| "posix_speed BAUDRATE_230400 = Some B230400"
| "posix_speed BAUDRATE_460800 = Some B460800"
| "posix_speed BAUDRATE_921600 = Some B921600"
| "posix_speed BAUDRATE_1000000 = Some B1000000"
| "posix_speed BAUDRATE_2000000 = Some B2000000"
| "posix_speed BAUDRATE_4000000 = Some B4000000"
| "posix_speed (BAUDRATE_OTHER n) = None"

fun posix_parity :: "smp_serial_parity \<Rightarrow> termios \<Rightarrow> termios" where
  "posix_parity PARITY_ODD t = t\<lparr>c_cflag := insert PARODD (insert PARENB (c_cflag t))\<rparr>"
| "posix_parity PARITY_EVEN t = t\<lparr>c_cflag := insert PARENB (c_cflag t) - {PARODD}\<rparr>"
| "posix_parity PARITY_NONE t = t\<lparr>c_cflag := c_cflag t - {PARENB}\<rparr>"
| "posix_parity (PARITY_OTHER n) t = t\<lparr>c_cflag := c_cflag t - {PARENB}\<rparr>"

definition posix_flow_control :: "bool \<Rightarrow> termios \<Rightarrow> termios" where
  "posix_flow_control flow_control t =
     (if flow_control then t\<lparr>c_iflag := insert IXOFF (insert IXON (c_iflag t))\<rparr>
      else t\<lparr>c_iflag := c_iflag t - {IXON} - {IXOFF}\<rparr>)"

definition posix_device_set_config ::
  "posix_device \<Rightarrow> smp_serial_baudrate \<Rightarrow> smp_serial_parity \<Rightarrow> bool
   \<Rightarrow> (smp_error + unit) \<times> posix_device" where
  "posix_device_set_config d baudrate parity flow_control =
     (if \<not> sys_isatty (pd_os d) (pd_fd d) then (Inl SMP_ERROR_NOT_SUPPORTED, d)
      else case sys_tcgetattr (pd_os d) (pd_fd d) of
          (None, w) \<Rightarrow> (Inl (posix_errno w), d\<lparr>pd_os := w\<rparr>)
        | (Some term, w) \<Rightarrow>
            (case posix_speed baudrate of
               None \<Rightarrow> (Inl SMP_ERROR_INVALID_PARAM, d\<lparr>pd_os := w\<rparr>)
             | Some speed \<Rightarrow>
                 let term = cfsetospeed speed (cfsetispeed speed term);
                     term = posix_flow_control flow_control (posix_parity parity term) in
                 case sys_tcsetattr w (pd_fd d) term of
                   (False, w) \<Rightarrow> (Inl (posix_errno w), d\<lparr>pd_os := w\<rparr>)
                 | (True, w) \<Rightarrow> (Inr (), d\<lparr>pd_os := w\<rparr>)))"

definition posix_device_write :: "posix_device \<Rightarrow> byte list \<Rightarrow> (smp_error + size_t) \<times> posix_device" where
  "posix_device_write d bs =
     (case sys_write (pd_os d) (pd_fd d) bs of
        (None, w) \<Rightarrow> (Inl (posix_errno w), d\<lparr>pd_os := w\<rparr>)
      | (Some n, w) \<Rightarrow> (Inr n, d\<lparr>pd_os := w\<rparr>))"

definition posix_device_read :: "posix_device \<Rightarrow> nat \<Rightarrow> (smp_error + byte list) \<times> posix_device" where
  "posix_device_read d k =
     (case sys_read (pd_os d) (pd_fd d) k of
        (Some [], w) \<Rightarrow> (Inl SMP_ERROR_PIPE, d\<lparr>pd_os := w\<rparr>)
      | (None, w) \<Rightarrow> (Inl (posix_errno w), d\<lparr>pd_os := w\<rparr>)
      | (Some bs, w) \<Rightarrow> (Inr bs, d\<lparr>pd_os := w\<rparr>))"

definition posix_device_wait ::
  "posix_device \<Rightarrow> 32 word \<Rightarrow> ((smp_error + unit) \<times> posix_device) option" where
  "posix_device_wait d timeout_ms =
     (case sys_poll (pd_os d) (pd_fd d) (sint timeout_ms) of
        None \<Rightarrow> None
      | Some (ret, revents, w) \<Rightarrow>
          Some (if ret < 0 then Inl (posix_errno w)
                else if ret = 0 then Inl SMP_ERROR_TIMEDOUT
                else if POLLERR \<in> revents then Inl SMP_ERROR_PIPE
                else Inr (), d\<lparr>pd_os := w\<rparr>))"

definition posix_ops :: "posix_device device_ops" where
  "posix_ops = \<lparr>
     dev_init = posix_device_init,
     dev_open = (\<lambda>d path. Some (posix_device_open d path)),
     dev_close = (\<lambda>d. Some (posix_device_close d)),
     dev_get_fd = posix_device_get_fd,
     dev_set_config = (\<lambda>d baudrate parity fc. Some (posix_device_set_config d baudrate parity fc)),
     dev_write = (\<lambda>d bs. Some (posix_device_write d bs)),
     dev_read = (\<lambda>d k. Some (posix_device_read d k)),
     dev_wait = posix_device_wait\<rparr>"

section \<open>The contract of the context\<close>

definition posix_is_open :: "posix_device \<Rightarrow> bool" where
  "posix_is_open d \<longleftrightarrow> fd_open (pd_os d) (pd_fd d)"

definition posix_sent :: "posix_device \<Rightarrow> byte list" where
  "posix_sent d = ln_sent (os_line (pd_os d))"

definition posix_pending :: "posix_device \<Rightarrow> byte list" where
  "posix_pending d = ln_pending (os_line (pd_os d))"

lemmas posix_views = posix_is_open_def posix_sent_def posix_pending_def fd_open_def fails_def

lemma posix_read_cases:
  assumes "posix_is_open d"
  obtains (failed) e d' where "posix_device_read d k = (Inl e, d')" "posix_is_open d'"
      "posix_sent d' = posix_sent d" "posix_pending d' = posix_pending d"
  | (data) bs d' where "posix_device_read d k = (Inr bs, d')" "bs \<noteq> []" "length bs \<le> k"
      "posix_is_open d'" "posix_sent d' = posix_sent d" "posix_pending d = bs @ posix_pending d'"
proof (cases rule: line_read_cases [of "os_line (pd_os d)" k])
  case idle
  let ?w = "fails EAGAIN (pd_os d)"
  show thesis
    by (rule failed [of "posix_errno ?w" "d\<lparr>pd_os := ?w\<rparr>"])
      (use assms idle in \<open>simp_all add: posix_device_read_def sys_read_def posix_views\<close>)
next
  case (failed e l)
  let ?w = "fails e (pd_os d\<lparr>os_line := l\<rparr>)"
  show thesis
    by (rule that(1) [of "posix_errno ?w" "d\<lparr>pd_os := ?w\<rparr>"])
      (use assms failed in \<open>simp_all add: posix_device_read_def sys_read_def posix_views\<close>)
next
  case (data bs l)
  let ?d = "d\<lparr>pd_os := pd_os d\<lparr>os_line := l\<rparr>\<rparr>"
  have read: "sys_read (pd_os d) (pd_fd d) k = (Some bs, pd_os ?d)"
    using assms data(1) by (simp add: sys_read_def posix_views)
  have same: "posix_is_open ?d" "posix_sent ?d = posix_sent d" "posix_pending d = bs @ posix_pending ?d"
    using assms data by (simp_all add: posix_views)
  show thesis
  proof (cases bs)
    case Nil
    with same show thesis
      by (intro that(1) [of SMP_ERROR_PIPE ?d]) (simp_all add: posix_device_read_def read)
  next
    case Cons
    with same data(4) show thesis
      by (intro that(2) [of bs ?d]) (simp_all add: posix_device_read_def read)
  qed
qed

lemma posix_write_sent:
  assumes "posix_is_open d" and "posix_device_write d bs = (Inr n, d')"
  shows "posix_is_open d' \<and> unat n \<le> length bs \<and> posix_sent d' = posix_sent d @ take (unat n) bs"
  using assms
  by (cases rule: line_write_cases [of "os_line (pd_os d)" bs])
    (auto simp: posix_device_write_def sys_write_def posix_views)

lemma posix_wait_keeps:
  assumes "posix_is_open d" and "posix_device_wait d t = Some (r, d')"
  shows "posix_is_open d' \<and> posix_sent d' = posix_sent d \<and> posix_pending d' = posix_pending d"
  using assms
  by (auto simp: posix_device_wait_def sys_poll_def posix_views Let_def
      split: option.splits list.splits poll_answer.splits if_splits)

section \<open>Descriptors\<close>

lemma lowest_fd_unused: "lowest_fd fds \<notin> set fds"
proof -
  have "\<not> {0..<Suc (length fds)} \<subseteq> set fds"
    using card_mono [of "set fds" "{0..<Suc (length fds)}"] card_length [of fds] by fastforce
  then have "filter (\<lambda>n. n \<notin> set fds) [0..<Suc (length fds)] \<noteq> []"
    by (auto simp: filter_empty_conv simp del: upt_Suc)
  from hd_in_set [OF this] show ?thesis unfolding lowest_fd_def set_filter by blast
qed

lemma close_reopens:
  assumes "n \<notin> set fds"
  shows "filter (\<lambda>m. m \<noteq> n) fds = fds"
  using assms by (auto intro!: filter_True)

end
