(* ===== verification/Smp_Posix_Spec.thy ===== *)
theory Smp_Posix_Spec
  imports Smp_Device_Posix Smp_Context_Receive Smp_Context_Safe
begin

text \<open>What the functions of the POSIX device guarantee.\<close>

section \<open>The contract of the context\<close>

interpretation posix: waiting_device posix_ops posix_is_open posix_sent posix_pending "\<lambda>_. True"
proof (unfold_locales, goal_cases)
  case (1 d bs n d')
  then show ?case using posix_write_sent by (simp add: posix_ops_def)
next
  case (2 d k bs d')
  then show ?case by (cases rule: posix_read_cases [of d k]) (auto simp: posix_ops_def)
next
  case (3 d k e d')
  then show ?case by (cases rule: posix_read_cases [of d k]) (auto simp: posix_ops_def)
next
  case (4 d k)
  then show ?case by (simp add: posix_ops_def)
next
  case (5 d k bs d')
  then show ?case by (cases rule: posix_read_cases [of d k]) (auto simp: posix_ops_def)
next
  case (6 d t r d')
  then show ?case using posix_wait_keeps by (simp add: posix_ops_def)
qed

section \<open>Opening\<close>

text \<open>The block on terminals keeps the descriptor when it succeeds and closes it when it fails.\<close>

lemma open_terminal_cases:
  assumes "fd_open w fd"
  obtains (failed) e w' where "open_terminal w fd = (Inl e, w')"
      "os_fds w' = filter (\<lambda>n. n \<noteq> nat fd) (os_fds w)" "os_termios w' = os_termios w"
      "os_line w' = os_line w"
  | (ok) w' where "open_terminal w fd = (Inr (), w')" "os_fds w' = os_fds w" "os_line w' = os_line w"
      "os_termios w' = cfmakeraw (cfsetospeed B115200 (cfsetispeed B115200 (os_termios w)))"
proof (cases "scripted (os_tcget w)")
  case (Some e)
  with assms show thesis
    by (intro failed [of _ "snd (open_terminal w fd)"])
      (auto simp: open_terminal_def sys_tcgetattr_def sys_close_def fails_def fd_open_def Let_def
        split: option.splits)
next
  case get: None
  show thesis
  proof (cases "scripted (os_tcset w)")
    case (Some e)
    with get assms show thesis
      by (intro failed [of _ "snd (open_terminal w fd)"])
        (auto simp: open_terminal_def sys_tcgetattr_def sys_tcsetattr_def sys_close_def fails_def
          fd_open_def Let_def split: option.splits)
  next
    case None
    with get assms show thesis
      by (intro ok [of "snd (open_terminal w fd)"])
        (auto simp: open_terminal_def sys_tcgetattr_def sys_tcsetattr_def fd_open_def Let_def)
  qed
qed

lemma posix_open_opens:
  assumes "posix_device_open d path = (Inr fd, d')"
  shows "posix_is_open d'"
proof -
  obtain fd1 w where sys: "sys_open (pd_os d) path = (fd1, w)" by fastforce
  show ?thesis
  proof (cases "fd1 < 0")
    case True
    with assms sys show ?thesis by (simp add: posix_device_open_def)
  next
    case False
    with sys have op: "fd_open w fd1"
      by (auto simp: sys_open_def fd_open_def split: option.splits)
    show ?thesis
    proof (cases "sys_isatty w fd1")
      case True
      from op show ?thesis
        by (cases rule: open_terminal_cases)
          (use assms sys op \<open>\<not> fd1 < 0\<close> True in \<open>auto simp: posix_device_open_def posix_is_open_def fd_open_def\<close>)
    next
      case False
      with assms sys op \<open>\<not> fd1 < 0\<close> show ?thesis
        by (auto simp: posix_device_open_def posix_is_open_def)
    qed
  qed
qed

lemma posix_config_open:
  assumes "posix_device_set_config d baudrate parity fc = (r, d')" and "posix_is_open d"
  shows "posix_is_open d'"
  using assms
  by (auto simp: posix_device_set_config_def sys_tcgetattr_def sys_tcsetattr_def posix_views Let_def
      split: if_splits option.splits)

interpretation posix_life: managed_device posix_ops posix_is_open "\<lambda>_. True"
proof (unfold_locales, goal_cases)
  case (2 d path r d')
  then show ?case using posix_open_opens by (cases r) (auto simp: posix_ops_def)
next
  case (4 d baudrate parity fc s d')
  then show ?case using posix_config_open by (auto simp: posix_ops_def)
next
  case (5 d bs w d')
  then show ?case
    by (auto simp: posix_ops_def posix_device_write_def sys_write_def posix_views
        split: prod.splits option.splits sum.splits)
next
  case (6 d k a d')
  from 6(2) show ?case
    by (cases rule: posix_read_cases [where k = k]) (use 6(3) in \<open>auto simp: posix_ops_def\<close>)
next
  case (7 d t s d')
  then show ?case using posix_wait_keeps by (simp add: posix_ops_def)
qed simp_all

definition raw_8n1 :: "termios \<Rightarrow> bool" where
  "raw_8n1 t \<longleftrightarrow> c_ispeed t = B115200 \<and> c_ospeed t = B115200 \<and> c_size t = CS8 \<and>
     PARENB \<notin> c_cflag t \<and> OPOST \<notin> c_oflag t \<and> ICANON \<notin> c_lflag t \<and> ECHO \<notin> c_lflag t \<and>
     ISIG \<notin> c_lflag t \<and> IXON \<notin> c_iflag t \<and> ISTRIP \<notin> c_iflag t \<and> INLCR \<notin> c_iflag t \<and>
     ICRNL \<notin> c_iflag t"

lemma raw_8n1_cfmakeraw: "raw_8n1 (cfmakeraw (cfsetospeed B115200 (cfsetispeed B115200 t)))"
  by (simp add: raw_8n1_def cfmakeraw_def cfsetospeed_def cfsetispeed_def)

text \<open>
  C35: Opening either succeeds with a descriptor that was not in use, stored in the device, on a
  terminal that is then raw at 115200 bauds with 8 bits and no parity; or it fails with an error,
  the device as it was and no descriptor left open. Bytes on the line are not touched.
\<close>

theorem posix_open_outcome:
  "case posix_device_open d path of
     (Inr fd, d') \<Rightarrow> \<not> fd_open (pd_os d) fd \<and> posix_is_open d' \<and> pd_fd d' = fd \<and>
       os_fds (pd_os d') = nat fd # os_fds (pd_os d) \<and> os_line (pd_os d') = os_line (pd_os d) \<and>
       (if os_tty (pd_os d) then raw_8n1 (os_termios (pd_os d'))
        else os_termios (pd_os d') = os_termios (pd_os d))
   | (Inl e, d') \<Rightarrow> pd_fd d' = pd_fd d \<and> os_fds (pd_os d') = os_fds (pd_os d) \<and>
       os_line (pd_os d') = os_line (pd_os d) \<and> os_termios (pd_os d') = os_termios (pd_os d)"
proof (cases "os_path (pd_os d) path")
  case (Some e)
  then show ?thesis by (simp add: posix_device_open_def sys_open_def fails_def)
next
  case None
  let ?n = "lowest_fd (os_fds (pd_os d))"
  let ?w = "pd_os d\<lparr>os_fds := ?n # os_fds (pd_os d)\<rparr>"
  have new: "?n \<notin> set (os_fds (pd_os d))" by (rule lowest_fd_unused)
  have open_w: "fd_open ?w (int ?n)" by (simp add: fd_open_def)
  have sys: "sys_open (pd_os d) path = (int ?n, ?w)" using None by (simp add: sys_open_def)
  show ?thesis
  proof (cases "os_tty (pd_os d)")
    case True
    with open_w have tty: "sys_isatty ?w (int ?n)" by (simp add: sys_isatty_def)
    from open_w show ?thesis
    proof (cases rule: open_terminal_cases)
      case (failed e w)
      then show ?thesis using new
        by (simp add: posix_device_open_def sys tty close_reopens)
    next
      case (ok w)
      then show ?thesis using new True raw_8n1_cfmakeraw
        by (simp add: posix_device_open_def sys tty posix_is_open_def fd_open_def)
    qed
  next
    case False
    then show ?thesis using new
      by (simp add: posix_device_open_def sys sys_isatty_def posix_is_open_def fd_open_def)
  qed
qed

text \<open>
  When the settings of the terminal cannot be read, the error that opening reports is read
  from \<open>errno\<close> after the descriptor was closed: if closing fails too, its error replaces the cause.
\<close>

theorem posix_open_error_reported:
  assumes "os_path (pd_os d) path = None" and "os_tty (pd_os d)"
    and "os_tcget (pd_os d) = Some e # q"
  shows "fst (posix_device_open d path) =
    Inl (errno_to_smp_error (case scripted (os_closing (pd_os d)) of None \<Rightarrow> e | Some e' \<Rightarrow> e'))"
  using assms
  by (simp add: posix_device_open_def sys_open_def sys_isatty_def fd_open_def open_terminal_def
      sys_tcgetattr_def scripted_def sys_close_def fails_def posix_errno_def Let_def
      split: option.splits list.splits)

definition sample_os :: posix_os where
  "sample_os = \<lparr>os_errno = E_OTHER 0, os_fds = [0, 1, 2], os_path = (\<lambda>p. if p = ''tty'' then None else Some ENOENT),
     os_tty = True,
     os_termios = \<lparr>c_iflag = {IXON, ICRNL}, c_oflag = {OPOST}, c_cflag = {CREAD, PARENB}, c_lflag = {ECHO},
       c_size = CS7, c_ispeed = B9600, c_ospeed = B9600\<rparr>,
     os_tcget = [], os_tcset = [], os_closing = [], os_polls = [],
     os_line = \<lparr>ln_in = [], ln_out = [], ln_sent = []\<rparr>\<rparr>"

theorem posix_open_error_reported_witness:
  "fst (posix_device_open
     \<lparr>pd_fd = -1, pd_os = sample_os\<lparr>os_tcget := [Some EIO], os_closing := [Some EBADF]\<rparr>\<rparr> ''tty'') =
   Inl SMP_ERROR_BAD_FD"
  using posix_open_error_reported
    [of "\<lparr>pd_fd = -1, pd_os = sample_os\<lparr>os_tcget := [Some EIO], os_closing := [Some EBADF]\<rparr>\<rparr>"
      "''tty''" EIO "[]"]
  by (simp add: sample_os_def scripted_def)

section \<open>Configuration\<close>

text \<open>
  On a terminal whose settings can be read and written, a known baudrate sets both speeds,
  parity and flow control as asked and nothing else; an unknown baudrate changes no setting.
\<close>

theorem posix_set_config_functional:
  assumes "posix_is_open d" and "os_tty (pd_os d)"
    and "scripted (os_tcget (pd_os d)) = None" and "scripted (os_tcset (pd_os d)) = None"
  shows "case posix_device_set_config d baudrate parity flow_control of (ret, d') \<Rightarrow>
    pd_fd d' = pd_fd d \<and> os_line (pd_os d') = os_line (pd_os d) \<and>
    (case posix_speed baudrate of
       None \<Rightarrow> ret = Inl SMP_ERROR_INVALID_PARAM \<and> os_termios (pd_os d') = os_termios (pd_os d)
     | Some speed \<Rightarrow> ret = Inr () \<and>
         (let t = os_termios (pd_os d); t' = os_termios (pd_os d') in
          c_ispeed t' = speed \<and> c_ospeed t' = speed \<and>
          (PARENB \<in> c_cflag t' \<longleftrightarrow> parity = PARITY_ODD \<or> parity = PARITY_EVEN) \<and>
          (parity = PARITY_ODD \<longrightarrow> PARODD \<in> c_cflag t') \<and>
          (parity = PARITY_EVEN \<longrightarrow> PARODD \<notin> c_cflag t') \<and>
          (IXON \<in> c_iflag t' \<longleftrightarrow> flow_control) \<and> (IXOFF \<in> c_iflag t' \<longleftrightarrow> flow_control) \<and>
          c_cflag t' - {PARENB, PARODD} = c_cflag t - {PARENB, PARODD} \<and>
          c_iflag t' - {IXON, IXOFF} = c_iflag t - {IXON, IXOFF} \<and>
          c_oflag t' = c_oflag t \<and> c_lflag t' = c_lflag t \<and> c_size t' = c_size t))"
proof -
  have tty: "sys_isatty (pd_os d) (pd_fd d)"
    using assms by (simp add: sys_isatty_def posix_is_open_def)
  have run: "posix_device_set_config d baudrate parity flow_control =
    (case posix_speed baudrate of
       None \<Rightarrow> (Inl SMP_ERROR_INVALID_PARAM, d\<lparr>pd_os := pd_os d\<lparr>os_tcget := drop 1 (os_tcget (pd_os d))\<rparr>\<rparr>)
     | Some speed \<Rightarrow> (Inr (), d\<lparr>pd_os := pd_os d\<lparr>os_tcget := drop 1 (os_tcget (pd_os d)),
         os_tcset := drop 1 (os_tcset (pd_os d)),
         os_termios := posix_flow_control flow_control (posix_parity parity
           (cfsetospeed speed (cfsetispeed speed (os_termios (pd_os d)))))\<rparr>\<rparr>))"
    using assms tty
    by (simp add: posix_device_set_config_def sys_tcgetattr_def sys_tcsetattr_def posix_is_open_def
        fd_open_def Let_def split: option.splits)
  show ?thesis
    unfolding run Let_def
    by (cases parity; cases "posix_speed baudrate")
      (auto simp: posix_flow_control_def cfsetospeed_def cfsetispeed_def)
qed

theorem posix_set_config_functional_witness:
  "let d = \<lparr>pd_fd = 0, pd_os = sample_os\<rparr>;
     t' = os_termios (pd_os (snd (posix_device_set_config d BAUDRATE_1200 PARITY_ODD True)))
   in c_ispeed t' = B1200 \<and> PARODD \<in> c_cflag t' \<and> IXOFF \<in> c_iflag t' \<and> c_size t' = CS7"
  using posix_set_config_functional
    [where d = "\<lparr>pd_fd = 0, pd_os = sample_os\<rparr>" and baudrate = BAUDRATE_1200
       and parity = PARITY_ODD and flow_control = True]
  by (simp add: sample_os_def scripted_def posix_is_open_def fd_open_def Let_def split: prod.splits)

section \<open>Reading and waiting\<close>

text \<open>
  A read never reports zero bytes: a line that was removed is a broken pipe, an idle one would
  block, and a descriptor that is closed is a bad one.
\<close>

theorem posix_read_outcome:
  "case posix_device_read d k of
     (Inr bs, d') \<Rightarrow> bs \<noteq> [] \<and> length bs \<le> k \<and> posix_is_open d \<and>
       posix_pending d = bs @ posix_pending d' \<and> pd_fd d' = pd_fd d
   | (Inl e, d') \<Rightarrow> posix_pending d' = posix_pending d \<and> pd_fd d' = pd_fd d \<and>
       (\<not> posix_is_open d \<longrightarrow> e = SMP_ERROR_BAD_FD) \<and>
       (posix_is_open d \<and> ln_in (os_line (pd_os d)) = [] \<longrightarrow> e = SMP_ERROR_WOULD_BLOCK) \<and>
       (posix_is_open d \<and> (\<exists>q. ln_in (os_line (pd_os d)) = Inr [] # q) \<longrightarrow> e = SMP_ERROR_PIPE)"
proof (cases "posix_is_open d")
  case False
  then show ?thesis
    by (auto simp: posix_device_read_def sys_read_def posix_views posix_errno_def)
next
  case True
  have fd: "pd_fd (snd (posix_device_read d k)) = pd_fd d"
    by (simp add: posix_device_read_def split: prod.split option.split list.split)
  have idle: "posix_device_read d k = (Inl SMP_ERROR_WOULD_BLOCK, snd (posix_device_read d k))"
    if "ln_in (os_line (pd_os d)) = []"
    using that True
    by (simp add: posix_device_read_def sys_read_def line_read_def posix_views posix_errno_def)
  have eof: "posix_device_read d k = (Inl SMP_ERROR_PIPE, snd (posix_device_read d k))"
    if "ln_in (os_line (pd_os d)) = Inr [] # q" for q
    using that True
    by (simp add: posix_device_read_def sys_read_def line_read_def posix_views)
  from True show ?thesis
  proof (cases rule: posix_read_cases [where k = k])
    case (failed e d')
    with fd True idle eof show ?thesis by auto
  next
    case (data bs d')
    with fd True show ?thesis by auto
  qed
qed

theorem posix_read_outcome_witness:
  "fst (posix_device_read \<lparr>pd_fd = 0, pd_os = sample_os\<rparr> 4) = Inl SMP_ERROR_WOULD_BLOCK \<and>
   fst (posix_device_read \<lparr>pd_fd = -1, pd_os = sample_os\<rparr> 4) = Inl SMP_ERROR_BAD_FD"
  using posix_read_outcome [of "\<lparr>pd_fd = 0, pd_os = sample_os\<rparr>" 4]
    posix_read_outcome [of "\<lparr>pd_fd = -1, pd_os = sample_os\<rparr>" 4]
  by (auto simp: sample_os_def posix_views ln_pending_def split: prod.splits sum.splits)

text \<open>
  A wait with a timeout returns whatever happens; one without returns exactly when there is an
  event or an error to return. It succeeds only on an event that is not an error of the line.
\<close>

theorem posix_wait_outcome:
  assumes "posix_is_open d"
  shows "(posix_device_wait d timeout_ms = None \<longleftrightarrow>
      sint timeout_ms < 0 \<and> set (os_polls (pd_os d)) \<subseteq> {PollNothing}) \<and>
    (\<forall>ret d'. posix_device_wait d timeout_ms = Some (ret, d') \<longrightarrow>
      posix_is_open d' \<and> posix_pending d' = posix_pending d \<and>
      (ret = Inr () \<longrightarrow> (\<exists>evs. PollEvents evs \<in> set (os_polls (pd_os d)) \<and> POLLERR \<notin> evs)))"
proof -
  let ?q = "os_polls (pd_os d)"
  have none: "dropWhile (\<lambda>a. a = PollNothing) ?q = [] \<longleftrightarrow> set ?q \<subseteq> {PollNothing}" by auto
  have next_in: "a \<in> set ?q \<and> a \<noteq> PollNothing" if "dropWhile (\<lambda>a. a = PollNothing) ?q = a # q" for a q
    using that unfolding dropWhile_eq_Cons_conv by (metis in_set_conv_decomp)
  have op: "0 \<le> pd_fd d" "nat (pd_fd d) \<in> set (os_fds (pd_os d))"
    using assms by (simp_all add: posix_views)
  show ?thesis
  proof (cases "sint timeout_ms < 0")
    case True
    show ?thesis
    proof (cases "dropWhile (\<lambda>a. a = PollNothing) ?q")
      case Nil
      then have "set ?q \<subseteq> {PollNothing}" using none by blast
      with True op show ?thesis by (simp add: posix_device_wait_def sys_poll_def fd_open_def Let_def Nil)
    next
      case (Cons a q)
      have some: "\<not> set ?q \<subseteq> {PollNothing}" and a: "a \<in> set ?q" "a \<noteq> PollNothing"
        using none next_in [OF Cons] by (simp_all add: Cons)
      show ?thesis
      proof (cases a)
        case PollNothing
        with a(2) show ?thesis by simp
      next
        case (PollError e)
        with some Cons True op show ?thesis by (simp add: posix_device_wait_def sys_poll_def posix_views Let_def)
      next
        case (PollEvents evs)
        with some a(1) Cons True op show ?thesis
          by (auto simp: posix_device_wait_def sys_poll_def posix_views Let_def)
      qed
    qed
  next
    case False
    show ?thesis
    proof (cases ?q)
      case Nil
      with False op show ?thesis by (simp add: posix_device_wait_def sys_poll_def posix_views Let_def)
    next
      case (Cons a q)
      with False op show ?thesis
        by (cases a) (auto simp: posix_device_wait_def sys_poll_def posix_views Let_def)
    qed
  qed
qed

theorem posix_wait_outcome_witness:
  "posix_device_wait \<lparr>pd_fd = 0, pd_os = sample_os\<rparr> (-1) = None \<and>
   posix_device_wait \<lparr>pd_fd = 0, pd_os = sample_os\<rparr> 100 \<noteq> None"
  using posix_wait_outcome [of "\<lparr>pd_fd = 0, pd_os = sample_os\<rparr>" "-1"]
    posix_wait_outcome [of "\<lparr>pd_fd = 0, pd_os = sample_os\<rparr>" 100]
  by (simp add: sample_os_def posix_views)

end
