(* ===== verification/Smp_Posix_Config.thy ===== *)
theory Smp_Posix_Config
  imports Smp_Posix_Spec
begin

text \<open>
  The configurations of \<open>src/serial-device-posix.c\<close> that the build selects with \<open>HAVE_TERMIOS_H\<close> and
  \<open>HAVE_POLL_H\<close>. The other theories have both; here each may be missing.
\<close>

section \<open>The functions that depend on the configuration\<close>

definition open_without_termios :: "posix_device \<Rightarrow> string \<Rightarrow> (smp_error + int) \<times> posix_device" where
  "open_without_termios d path =
     (case sys_open (pd_os d) path of (fd, w) \<Rightarrow>
        if fd < 0 then (Inl (posix_errno w), d\<lparr>pd_os := w\<rparr>)
        else (Inr fd, d\<lparr>pd_os := w, pd_fd := fd\<rparr>))"

definition set_config_without_termios ::
  "posix_device \<Rightarrow> smp_serial_baudrate \<Rightarrow> smp_serial_parity \<Rightarrow> bool \<Rightarrow> (smp_error + unit) \<times> posix_device" where
  "set_config_without_termios d baudrate parity flow_control = (Inl SMP_ERROR_NOT_SUPPORTED, d)"

definition wait_without_poll :: "posix_device \<Rightarrow> 32 word \<Rightarrow> ((smp_error + unit) \<times> posix_device) option" where
  "wait_without_poll d timeout_ms = Some (Inl SMP_ERROR_NOT_SUPPORTED, d)"

definition posix_ops_for :: "bool \<Rightarrow> bool \<Rightarrow> posix_device device_ops" where
  "posix_ops_for have_termios have_poll = posix_ops\<lparr>
     dev_open := if have_termios then dev_open posix_ops else (\<lambda>d path. Some (open_without_termios d path)),
     dev_set_config := if have_termios then dev_set_config posix_ops
       else (\<lambda>d baudrate parity fc. Some (set_config_without_termios d baudrate parity fc)),
     dev_wait := if have_poll then dev_wait posix_ops else wait_without_poll\<rparr>"

lemma posix_ops_for_all: "posix_ops_for True True = posix_ops"
  by (simp add: posix_ops_for_def)

lemma posix_ops_for_simps [simp]:
  "dev_init (posix_ops_for t p) = dev_init posix_ops"
  "dev_close (posix_ops_for t p) = dev_close posix_ops"
  "dev_write (posix_ops_for t p) = dev_write posix_ops"
  "dev_read (posix_ops_for t p) = dev_read posix_ops"
  "dev_open (posix_ops_for True p) = dev_open posix_ops"
  "dev_set_config (posix_ops_for True p) = dev_set_config posix_ops"
  "dev_wait (posix_ops_for t True) = dev_wait posix_ops"
  "dev_open (posix_ops_for False p) = (\<lambda>d path. Some (open_without_termios d path))"
  "dev_set_config (posix_ops_for False p) = (\<lambda>d baudrate parity fc. Some (Inl SMP_ERROR_NOT_SUPPORTED, d))"
  "dev_wait (posix_ops_for t False) = (\<lambda>d timeout. Some (Inl SMP_ERROR_NOT_SUPPORTED, d))"
  by (simp_all add: posix_ops_for_def set_config_without_termios_def [abs_def] wait_without_poll_def [abs_def])

section \<open>The contract of the context\<close>

text \<open>On what is not a terminal the two ways of opening are the same.\<close>

lemma open_no_terminal:
  "\<not> os_tty (pd_os d) \<Longrightarrow> posix_device_open d path = open_without_termios d path"
  by (auto simp: posix_device_open_def open_without_termios_def sys_open_def sys_isatty_def fails_def
      split: option.splits)

lemma open_without_termios_opens:
  "open_without_termios d path = (Inr fd, d') \<Longrightarrow> posix_is_open d' \<and> os_termios (pd_os d') = os_termios (pd_os d)"
  by (auto simp: open_without_termios_def sys_open_def fails_def posix_views fd_open_def split: option.splits if_splits)

text \<open>Every configuration keeps the contract, so the delivery of messages does not depend on it.\<close>

interpretation posix_conf: waiting_device "posix_ops_for have_termios have_poll" posix_is_open posix_sent
  posix_pending "\<lambda>_. True" for have_termios have_poll
proof (unfold_locales, goal_cases)
  case (1 d bs n d')
  from posix.write_sent [OF 1(1,2)] 1(3) show ?case by simp
next
  case (2 d k bs d')
  from posix.read_pending [OF 2(1)] 2(2) show ?case by simp
next
  case (3 d k e d')
  from posix.read_error [OF 3(1)] 3(2) show ?case by simp
next
  case (4 d k)
  from posix.read_returns [OF 4] show ?case by simp
next
  case (5 d k bs d')
  from posix.read_shrinks [OF 5(1)] 5(2) show ?case by simp
next
  case (6 d t r d')
  with posix.wait_keeps [OF 6(1), of t r d'] show ?case by (cases have_poll) simp_all
qed

interpretation posix_conf_life: managed_device "posix_ops_for have_termios have_poll" posix_is_open "\<lambda>_. True"
  for have_termios have_poll
proof (unfold_locales, goal_cases)
  case (2 d path r d')
  then show ?case
    using posix_life.open_opens [of d path r d'] open_without_termios_opens [of d path _ d']
    by (cases have_termios; cases r) simp_all
next
  case (4 d baudrate parity fc s d')
  then show ?case using posix_life.config_keeps [of d baudrate parity fc s d'] by (cases have_termios) simp_all
next
  case (5 d bs w d')
  from posix_life.write_keeps [OF 5(1,2), of bs w d'] 5(3) show ?case by simp
next
  case (6 d k a d')
  from posix_life.read_keeps [OF 6(1,2), of k a d'] 6(3) show ?case by simp
next
  case (7 d t s d')
  then show ?case using posix_life.wait_keeps_open [of d t s d'] by (cases have_poll) simp_all
qed simp_all

end
