(* ===== verification/Smp_Device_Avr.thy ===== *)
theory Smp_Device_Avr
  imports Smp_Device Smp_Prelude
begin

unbundle bit_operations_syntax

text \<open>
  The serial device of \<open>src/serial-device-avr.c\<close>: the UARTs of an ATmega328P or ATmega2560, each
  with a ring buffer that the receive interrupt fills and that reading drains.

  The state has the table \<open>avr_uart_devices\<close>, the structure \<open>SmpSerialDevice\<close> and the hardware:
  the bytes each UART sends, what \<open>UDRE0\<close> reads as each time it is polled, and the bytes that
  arrive before each access of the main program to a volatile variable. Interrupts can only be
  observed at those accesses; they are enabled globally by the application.

  The values that \<open>util/setbaud.h\<close> computes from the clock of the board are the argument
  \<open>setbaud\<close>: high and low byte of the divisor and whether the double speed mode is used.
\<close>

section \<open>State\<close>

record uart_registers =
  csr_a :: byte
  csr_b :: byte
  csr_c :: byte
  br_l :: byte
  br_h :: byte

record uart =
  uart_name :: string
  uart_regs :: uart_registers
  cbuf :: "byte list"
  rindex :: byte
  windex :: byte
  uart_out :: "byte list"

text \<open>
  \<open>avr_irq\<close>: the arrivals before each access, as UART and byte; \<open>avr_udre\<close>: the reads of \<open>UDRE0\<close>.
  \<open>avr_lost\<close> records that a byte arrived at a UART that is off or whose buffer was full.
\<close>

record avr_device =
  avr_fd :: int
  avr_uarts :: "uart list"
  avr_irq :: "(nat \<times> byte) list list"
  avr_udre :: "bool list"
  avr_lost :: "nat list"

type_synonym setbaud = "nat \<Rightarrow> byte \<times> byte \<times> bool"

text \<open>The bits of the registers, as the data sheets number them.\<close>

definition bv :: "nat \<Rightarrow> byte" where "bv n = push_bit n 1"

definition U2X0 :: nat where "U2X0 = 1"
definition TXEN0 :: nat where "TXEN0 = 3"
definition RXEN0 :: nat where "RXEN0 = 4"
definition TXCIE0 :: nat where "TXCIE0 = 6"
definition RXCIE0 :: nat where "RXCIE0 = 7"
definition UCSZ02 :: nat where "UCSZ02 = 2"
definition UCSZ00 :: nat where "UCSZ00 = 1"
definition UCSZ01 :: nat where "UCSZ01 = 2"
definition USBS0 :: nat where "USBS0 = 3"
definition UPM00 :: nat where "UPM00 = 4"
definition UPM01 :: nat where "UPM01 = 5"

lemmas uart_bits = U2X0_def TXEN0_def RXEN0_def TXCIE0_def RXCIE0_def UCSZ02_def UCSZ00_def
  UCSZ01_def USBS0_def UPM00_def UPM01_def

definition set_csr_a :: "byte \<Rightarrow> uart \<Rightarrow> uart" where
  "set_csr_a v u = u\<lparr>uart_regs := uart_regs u\<lparr>csr_a := v\<rparr>\<rparr>"

definition set_csr_b :: "byte \<Rightarrow> uart \<Rightarrow> uart" where
  "set_csr_b v u = u\<lparr>uart_regs := uart_regs u\<lparr>csr_b := v\<rparr>\<rparr>"

definition set_csr_c :: "byte \<Rightarrow> uart \<Rightarrow> uart" where
  "set_csr_c v u = u\<lparr>uart_regs := uart_regs u\<lparr>csr_c := v\<rparr>\<rparr>"

definition or_csr_a :: "byte \<Rightarrow> uart \<Rightarrow> uart" where
  "or_csr_a m u = set_csr_a (csr_a (uart_regs u) OR m) u"

definition and_csr_a :: "byte \<Rightarrow> uart \<Rightarrow> uart" where
  "and_csr_a m u = set_csr_a (csr_a (uart_regs u) AND m) u"

definition or_csr_b :: "byte \<Rightarrow> uart \<Rightarrow> uart" where
  "or_csr_b m u = set_csr_b (csr_b (uart_regs u) OR m) u"

definition and_csr_b :: "byte \<Rightarrow> uart \<Rightarrow> uart" where
  "and_csr_b m u = set_csr_b (csr_b (uart_regs u) AND m) u"

definition or_csr_c :: "byte \<Rightarrow> uart \<Rightarrow> uart" where
  "or_csr_c m u = set_csr_c (csr_c (uart_regs u) OR m) u"

definition and_csr_c :: "byte \<Rightarrow> uart \<Rightarrow> uart" where
  "and_csr_c m u = set_csr_c (csr_c (uart_regs u) AND m) u"

lemmas uart_setters = set_csr_a_def set_csr_b_def set_csr_c_def or_csr_a_def and_csr_a_def
  or_csr_b_def and_csr_b_def or_csr_c_def and_csr_c_def

section \<open>Devices and their interrupt\<close>

text \<open>
  \<^term>\<open>None\<close>: the index is out of the array; \<^term>\<open>Some None\<close>: the null pointer. The comparison with
  the number of devices is signed, so it lets negative descriptors pass.
\<close>

definition get_device_from_fd :: "avr_device \<Rightarrow> int \<Rightarrow> nat option option" where
  "get_device_from_fd d fd =
     (if fd \<ge> int (length (avr_uarts d)) then Some None
      else if fd < 0 then None
      else Some (Some (nat fd)))"

text \<open>The size of the buffer is that of its array, \<open>SMP_SERIAL_DEVICE_AVR_CBUF_SIZE\<close>.\<close>

definition rx_interrupt_handler :: "uart \<Rightarrow> byte \<Rightarrow> uart" where
  "rx_interrupt_handler u dr =
     (let u = u\<lparr>cbuf := (cbuf u)[unat (windex u) := dr]\<rparr>;
          u = u\<lparr>windex := windex u + 1\<rparr>
      in if unat (windex u) \<ge> length (cbuf u) then u\<lparr>windex := 0\<rparr> else u)"

text \<open>The bytes in the ring buffer, oldest first.\<close>

definition ring_size :: "uart \<Rightarrow> nat" where
  "ring_size u =
     (if rindex u \<le> windex u then unat (windex u) - unat (rindex u)
      else length (cbuf u) - unat (rindex u) + unat (windex u))"

definition ring_contents :: "uart \<Rightarrow> byte list" where
  "ring_contents u = map (\<lambda>i. cbuf u ! ((unat (rindex u) + i) mod length (cbuf u))) [0..<ring_size u]"

definition receiving :: "uart \<Rightarrow> bool" where
  "receiving u \<longleftrightarrow> bit (csr_b (uart_regs u)) RXEN0 \<and> bit (csr_b (uart_regs u)) RXCIE0"

text \<open>A byte arrives: a UART that receives interrupts the program with its own handler.\<close>

definition uart_receive :: "avr_device \<Rightarrow> nat \<times> byte \<Rightarrow> avr_device" where
  "uart_receive d = (\<lambda>(n, b).
     if n < length (avr_uarts d) \<and> receiving (avr_uarts d ! n) then
       (let u = avr_uarts d ! n;
            d' = d\<lparr>avr_uarts := (avr_uarts d)[n := rx_interrupt_handler u b]\<rparr>
        in if ring_size u + 1 < length (cbuf u) then d' else d'\<lparr>avr_lost := n # avr_lost d'\<rparr>)
     else d\<lparr>avr_lost := n # avr_lost d\<rparr>)"

text \<open>What arrives before the program's next access to a volatile variable.\<close>

definition volatile_access :: "avr_device \<Rightarrow> avr_device" where
  "volatile_access d =
     (case avr_irq d of [] \<Rightarrow> d | arrivals # q \<Rightarrow> foldl uart_receive (d\<lparr>avr_irq := q\<rparr>) arrivals)"

definition update_uart :: "nat \<Rightarrow> (uart \<Rightarrow> uart) \<Rightarrow> avr_device \<Rightarrow> avr_device" where
  "update_uart n f d = d\<lparr>avr_uarts := (avr_uarts d)[n := f (avr_uarts d ! n)]\<rparr>"

section \<open>Baudrate\<close>

definition set_baudrate_value :: "byte \<times> byte \<times> bool \<Rightarrow> uart \<Rightarrow> uart" where
  "set_baudrate_value = (\<lambda>(ubrrh, ubrrl, use_2x) u.
     (let u = u\<lparr>uart_regs := uart_regs u\<lparr>br_h := ubrrh\<rparr>\<rparr>;
          u = u\<lparr>uart_regs := uart_regs u\<lparr>br_l := ubrrl\<rparr>\<rparr>
      in if use_2x then or_csr_a (bv U2X0) u else and_csr_a (NOT (bv U2X0)) u))"

definition set_baudrate_1200 :: "setbaud \<Rightarrow> uart \<Rightarrow> uart" where
  "set_baudrate_1200 setbaud = set_baudrate_value (setbaud 1200)"
definition set_baudrate_2400 :: "setbaud \<Rightarrow> uart \<Rightarrow> uart" where
  "set_baudrate_2400 setbaud = set_baudrate_value (setbaud 2400)"
definition set_baudrate_4800 :: "setbaud \<Rightarrow> uart \<Rightarrow> uart" where
  "set_baudrate_4800 setbaud = set_baudrate_value (setbaud 4800)"
definition set_baudrate_9600 :: "setbaud \<Rightarrow> uart \<Rightarrow> uart" where
  "set_baudrate_9600 setbaud = set_baudrate_value (setbaud 9600)"
definition set_baudrate_19200 :: "setbaud \<Rightarrow> uart \<Rightarrow> uart" where
  "set_baudrate_19200 setbaud = set_baudrate_value (setbaud 19200)"
definition set_baudrate_38400 :: "setbaud \<Rightarrow> uart \<Rightarrow> uart" where
  "set_baudrate_38400 setbaud = set_baudrate_value (setbaud 38400)"
definition set_baudrate_57600 :: "setbaud \<Rightarrow> uart \<Rightarrow> uart" where
  "set_baudrate_57600 setbaud = set_baudrate_value (setbaud 57600)"
definition set_baudrate_115200 :: "setbaud \<Rightarrow> uart \<Rightarrow> uart" where
  "set_baudrate_115200 setbaud = set_baudrate_value (setbaud 115200)"
definition set_baudrate_230400 :: "setbaud \<Rightarrow> uart \<Rightarrow> uart" where
  "set_baudrate_230400 setbaud = set_baudrate_value (setbaud 230400)"
definition set_baudrate_460800 :: "setbaud \<Rightarrow> uart \<Rightarrow> uart" where
  "set_baudrate_460800 setbaud = set_baudrate_value (setbaud 460800)"
definition set_baudrate_921600 :: "setbaud \<Rightarrow> uart \<Rightarrow> uart" where
  "set_baudrate_921600 setbaud = set_baudrate_value (setbaud 921600)"
definition set_baudrate_1000000 :: "setbaud \<Rightarrow> uart \<Rightarrow> uart" where
  "set_baudrate_1000000 setbaud = set_baudrate_value (setbaud 1000000)"
definition set_baudrate_2000000 :: "setbaud \<Rightarrow> uart \<Rightarrow> uart" where
  "set_baudrate_2000000 setbaud = set_baudrate_value (setbaud 2000000)"
definition set_baudrate_4000000 :: "setbaud \<Rightarrow> uart \<Rightarrow> uart" where
  "set_baudrate_4000000 setbaud = set_baudrate_value (setbaud 4000000)"

fun set_baudrate :: "setbaud \<Rightarrow> smp_serial_baudrate \<Rightarrow> uart \<Rightarrow> uart" where
  "set_baudrate setbaud BAUDRATE_1200 = set_baudrate_1200 setbaud"
| "set_baudrate setbaud BAUDRATE_2400 = set_baudrate_2400 setbaud"
| "set_baudrate setbaud BAUDRATE_4800 = set_baudrate_4800 setbaud"
| "set_baudrate setbaud BAUDRATE_9600 = set_baudrate_9600 setbaud"
| "set_baudrate setbaud BAUDRATE_19200 = set_baudrate_19200 setbaud"
| "set_baudrate setbaud BAUDRATE_38400 = set_baudrate_38400 setbaud"
| "set_baudrate setbaud BAUDRATE_57600 = set_baudrate_57600 setbaud"
| "set_baudrate setbaud BAUDRATE_115200 = set_baudrate_115200 setbaud"
| "set_baudrate setbaud BAUDRATE_230400 = set_baudrate_230400 setbaud"
| "set_baudrate setbaud BAUDRATE_460800 = set_baudrate_460800 setbaud"
| "set_baudrate setbaud BAUDRATE_921600 = set_baudrate_921600 setbaud"
| "set_baudrate setbaud BAUDRATE_1000000 = set_baudrate_1000000 setbaud"
| "set_baudrate setbaud BAUDRATE_2000000 = set_baudrate_2000000 setbaud"
| "set_baudrate setbaud BAUDRATE_4000000 = set_baudrate_4000000 setbaud"
| "set_baudrate setbaud (BAUDRATE_OTHER n) = (\<lambda>u. u)"

section \<open>Device functions\<close>

definition init_uart_device :: "setbaud \<Rightarrow> uart \<Rightarrow> (smp_error + unit) \<times> uart" where
  "init_uart_device setbaud u =
     (if bit (csr_b (uart_regs u)) TXEN0 \<or> bit (csr_b (uart_regs u)) RXEN0
      then (Inl SMP_ERROR_BUSY, u)
      else
        (let u = set_baudrate setbaud BAUDRATE_115200 u;
             u = or_csr_c (bv UCSZ00) u;
             u = or_csr_c (bv UCSZ01) u;
             u = and_csr_b (NOT (bv UCSZ02)) u;
             u = and_csr_c (NOT (bv UPM00)) u;
             u = and_csr_c (NOT (bv UPM01)) u;
             u = and_csr_c (NOT (bv USBS0)) u;
             u = or_csr_b (bv RXCIE0) u;
             u = and_csr_b (NOT (bv TXCIE0)) u;
             u = or_csr_b (bv RXEN0) u;
             u = or_csr_b (bv TXEN0) u
         in (Inr (), u)))"

definition avr_device_init :: "avr_device \<Rightarrow> avr_device" where
  "avr_device_init d = d\<lparr>avr_fd := -1\<rparr>"

text \<open>The loop over the table, from index \<open>i\<close>: the index it stops at and the result.\<close>

fun open_loop :: "setbaud \<Rightarrow> string \<Rightarrow> nat \<Rightarrow> uart list \<Rightarrow> (smp_error + nat) \<times> uart list" where
  "open_loop setbaud path i [] = (Inl SMP_ERROR_NO_DEVICE, [])"
| "open_loop setbaud path i (u # us) =
     (if path = uart_name u
      then (case init_uart_device setbaud u of
              (Inl e, u) \<Rightarrow> (Inl e, u # us)
            | (Inr _, u) \<Rightarrow> (Inr i, u # us))
      else case open_loop setbaud path (Suc i) us of (ret, us) \<Rightarrow> (ret, u # us))"

definition avr_device_open :: "setbaud \<Rightarrow> avr_device \<Rightarrow> string \<Rightarrow> (smp_error + int) \<times> avr_device" where
  "avr_device_open setbaud d path =
     (case open_loop setbaud path 0 (avr_uarts d) of
        (Inl e, us) \<Rightarrow> (Inl e, d\<lparr>avr_uarts := us\<rparr>)
      | (Inr i, us) \<Rightarrow> (Inr 0, d\<lparr>avr_uarts := us, avr_fd := int i\<rparr>))"

definition avr_device_close :: "avr_device \<Rightarrow> avr_device option" where
  "avr_device_close d =
     (case get_device_from_fd d (avr_fd d) of
        None \<Rightarrow> None
      | Some None \<Rightarrow> Some d
      | Some (Some n) \<Rightarrow>
          Some ((update_uart n (\<lambda>u. and_csr_b (NOT (bv TXEN0)) (and_csr_b (NOT (bv RXEN0)) u)) d)
            \<lparr>avr_fd := -1\<rparr>))"

definition avr_device_get_fd :: "avr_device \<Rightarrow> smp_error + int" where
  "avr_device_get_fd d = (if avr_fd d < 0 then Inl SMP_ERROR_BAD_FD else Inr (avr_fd d))"

fun avr_parity :: "smp_serial_parity \<Rightarrow> uart \<Rightarrow> uart" where
  "avr_parity PARITY_ODD u = or_csr_c (bv UPM00 OR bv UPM01) u"
| "avr_parity PARITY_EVEN u = and_csr_c (NOT (bv UPM00)) (or_csr_c (bv UPM01) u)"
| "avr_parity PARITY_NONE u = and_csr_c (NOT (bv UPM00 OR bv UPM01)) u"
| "avr_parity (PARITY_OTHER n) u = and_csr_c (NOT (bv UPM00 OR bv UPM01)) u"

definition avr_device_set_config ::
  "setbaud \<Rightarrow> avr_device \<Rightarrow> smp_serial_baudrate \<Rightarrow> smp_serial_parity \<Rightarrow> bool
   \<Rightarrow> ((smp_error + unit) \<times> avr_device) option" where
  "avr_device_set_config setbaud d baudrate parity flow_control =
     (case get_device_from_fd d (avr_fd d) of
        None \<Rightarrow> None
      | Some None \<Rightarrow> Some (Inl SMP_ERROR_NO_DEVICE, d)
      | Some (Some n) \<Rightarrow>
          Some (Inr (), update_uart n (\<lambda>u.
            let u = and_csr_b (NOT (bv RXEN0)) u;
                u = and_csr_b (NOT (bv TXEN0)) u;
                u = set_baudrate setbaud baudrate u;
                u = avr_parity parity u;
                u = or_csr_b (bv RXEN0) u
            in or_csr_b (bv TXEN0) u) d))"

section \<open>Transfers\<close>

text \<open>\<open>loop_until_bit_is_set\<close>; \<^const>\<open>None\<close> when the bit is never set.\<close>

partial_function (option) loop_until_ready :: "avr_device \<Rightarrow> avr_device option" where
  "loop_until_ready d =
     (let d = volatile_access d in
      case avr_udre d of
        [] \<Rightarrow> loop_until_ready d
      | ready # q \<Rightarrow> if ready then Some (d\<lparr>avr_udre := q\<rparr>) else loop_until_ready (d\<lparr>avr_udre := q\<rparr>))"

fun write_loop :: "nat \<Rightarrow> avr_device \<Rightarrow> byte list \<Rightarrow> size_t \<Rightarrow> (size_t \<times> avr_device) option" where
  "write_loop n d [] ret = Some (ret, d)"
| "write_loop n d (b # bs) ret =
     (case loop_until_ready d of
        None \<Rightarrow> None
      | Some d \<Rightarrow>
          write_loop n (update_uart n (\<lambda>u. u\<lparr>uart_out := uart_out u @ [b]\<rparr>) d) bs (ret + 1))"

definition avr_device_write ::
  "avr_device \<Rightarrow> byte list \<Rightarrow> ((smp_error + size_t) \<times> avr_device) option" where
  "avr_device_write d bs =
     (case get_device_from_fd d (avr_fd d) of
        None \<Rightarrow> None
      | Some None \<Rightarrow> Some (Inl SMP_ERROR_NO_DEVICE, d)
      | Some (Some n) \<Rightarrow>
          (case write_loop n d bs 0 of None \<Rightarrow> None | Some (ret, d) \<Rightarrow> Some (Inr ret, d)))"

text \<open>What follows the test of the loop: take the byte at the read index.\<close>

definition ring_take :: "uart \<Rightarrow> byte \<times> uart" where
  "ring_take u =
     (let b = cbuf u ! unat (rindex u);
          u = u\<lparr>rindex := rindex u + 1\<rparr>
      in (b, if unat (rindex u) \<ge> length (cbuf u) then u\<lparr>rindex := 0\<rparr> else u))"

text \<open>\<open>k\<close> more bytes are wanted.\<close>

fun read_loop :: "nat \<Rightarrow> avr_device \<Rightarrow> nat \<Rightarrow> byte list \<times> avr_device" where
  "read_loop n d 0 = ([], d)"
| "read_loop n d (Suc k) =
     (let d = volatile_access d in
      if rindex (avr_uarts d ! n) = windex (avr_uarts d ! n) then ([], d)
      else case ring_take (avr_uarts d ! n) of (b, u) \<Rightarrow>
          case read_loop n (d\<lparr>avr_uarts := (avr_uarts d)[n := u]\<rparr>) k of (bs, d) \<Rightarrow> (b # bs, d))"

definition avr_device_read ::
  "avr_device \<Rightarrow> nat \<Rightarrow> ((smp_error + byte list) \<times> avr_device) option" where
  "avr_device_read d k =
     (case get_device_from_fd d (avr_fd d) of
        None \<Rightarrow> None
      | Some None \<Rightarrow> Some (Inl SMP_ERROR_NO_DEVICE, d)
      | Some (Some n) \<Rightarrow> (case read_loop n d k of (bs, d) \<Rightarrow> Some (Inr bs, d)))"

section \<open>Waiting\<close>

text \<open>Whether the buffer of UART \<open>n\<close> has a byte, at an access of the program.\<close>

definition ring_ready :: "nat \<Rightarrow> avr_device \<Rightarrow> bool \<times> avr_device" where
  "ring_ready n d =
     (let d = volatile_access d in (rindex (avr_uarts d ! n) \<noteq> windex (avr_uarts d ! n), d))"

partial_function (option) wait_forever :: "nat \<Rightarrow> avr_device \<Rightarrow> avr_device option" where
  "wait_forever n d =
     (case ring_ready n d of (ready, d) \<Rightarrow> if ready then Some d else wait_forever n d)"

text \<open>
  The loop with a timeout: an access, then a delay of 5 ms. The elapsed time does not wrap, because
  it stays below the timeout plus 5 and the timeout is a non-negative signed integer of that width.
\<close>

function wait_loop :: "nat \<Rightarrow> nat \<Rightarrow> nat \<Rightarrow> avr_device \<Rightarrow> (smp_error + unit) \<times> avr_device" where
  "wait_loop n timeout elapsed d =
     (if elapsed < timeout then
        (case ring_ready n d of (ready, d) \<Rightarrow>
           if ready then (Inr (), d) else wait_loop n timeout (elapsed + 5) d)
      else
        (case ring_ready n d of (ready, d) \<Rightarrow>
           (if ready then Inr () else Inl SMP_ERROR_TIMEDOUT, d)))"
  by pat_completeness auto
termination by (relation "measure (\<lambda>(n, timeout, elapsed, d). timeout - elapsed)") auto

declare wait_loop.simps [simp del]

definition avr_device_wait ::
  "avr_device \<Rightarrow> 32 word \<Rightarrow> ((smp_error + unit) \<times> avr_device) option" where
  "avr_device_wait d timeout_ms =
     (case get_device_from_fd d (avr_fd d) of
        None \<Rightarrow> None
      | Some None \<Rightarrow> Some (Inl SMP_ERROR_NO_DEVICE, d)
      | Some (Some n) \<Rightarrow>
          (case ring_ready n d of (ready, d) \<Rightarrow>
             if ready then Some (Inr (), d)
             else if sint timeout_ms < 0 then
               (case wait_forever n d of None \<Rightarrow> None | Some d \<Rightarrow> Some (Inr (), d))
             else Some (wait_loop n (nat (sint timeout_ms)) 0 d)))"

definition avr_ops :: "setbaud \<Rightarrow> avr_device device_ops" where
  "avr_ops setbaud = \<lparr>
     dev_init = avr_device_init,
     dev_open = (\<lambda>d path. Some (avr_device_open setbaud d path)),
     dev_close = avr_device_close,
     dev_get_fd = avr_device_get_fd,
     dev_set_config = avr_device_set_config setbaud,
     dev_write = avr_device_write,
     dev_read = avr_device_read,
     dev_wait = avr_device_wait\<rparr>"

end
