(* ===== verification/Smp_Avr_Ring.thy ===== *)
theory Smp_Avr_Ring
  imports Smp_Device_Avr
begin

text \<open>
  The receive buffer of a UART as a queue of bytes: the interrupt handler puts, the reader takes.
  The interface is stated on its own and interpreted on the ring buffer of the code.
\<close>

section \<open>Queues of bounded size\<close>

locale byte_fifo =
  fixes inv :: "'s \<Rightarrow> bool"
    and contents :: "'s \<Rightarrow> byte list"
    and room :: "'s \<Rightarrow> nat"
    and put :: "'s \<Rightarrow> byte \<Rightarrow> 's"
    and is_empty :: "'s \<Rightarrow> bool"
    and get :: "'s \<Rightarrow> byte \<times> 's"
  assumes put_inv: "inv s \<Longrightarrow> inv (put s b)"
    and put_contents: "inv s \<Longrightarrow> 0 < room s \<Longrightarrow> contents (put s b) = contents s @ [b]"
    and put_room: "inv s \<Longrightarrow> 0 < room s \<Longrightarrow> Suc (room (put s b)) = room s"
    and put_shrinks: "inv s \<Longrightarrow> length (contents (put s b)) \<le> Suc (length (contents s))"
    and empty_iff: "inv s \<Longrightarrow> is_empty s \<longleftrightarrow> contents s = []"
    and get_contents: "inv s \<Longrightarrow> \<not> is_empty s \<Longrightarrow> get s = (b, s') \<Longrightarrow>
      inv s' \<and> contents s = b # contents s' \<and> room s' = Suc (room s)"
begin

lemma puts_inv: "inv s \<Longrightarrow> inv (foldl put s bs)"
  by (induction bs arbitrary: s) (simp_all add: put_inv)

lemma puts_contents:
  "inv s \<Longrightarrow> length bs \<le> room s \<Longrightarrow>
    contents (foldl put s bs) = contents s @ bs \<and> room (foldl put s bs) + length bs = room s"
proof (induction bs arbitrary: s)
  case (Cons b bs)
  then have pos: "0 < room s" by simp
  with Cons.IH [of "put s b"] Cons.prems put_room [OF Cons.prems(1) pos, of b] show ?case
    by (auto simp: put_inv put_contents)
qed simp

lemma get_not_empty: "inv s \<Longrightarrow> contents s = b # bs \<Longrightarrow> \<exists>s'. get s = (b, s') \<and> inv s' \<and> contents s' = bs"
  using empty_iff get_contents by (metis list.distinct(1) list.inject surj_pair)

end

section \<open>The ring buffer\<close>

definition uart_inv :: "uart \<Rightarrow> bool" where
  "uart_inv u \<longleftrightarrow> 2 \<le> length (cbuf u) \<and> length (cbuf u) \<le> 256 \<and>
     unat (rindex u) < length (cbuf u) \<and> unat (windex u) < length (cbuf u)"

definition ring_room :: "uart \<Rightarrow> nat" where
  "ring_room u = length (cbuf u) - 1 - ring_size u"

text \<open>The increment of an index, with its reset at the end of the array.\<close>

definition ring_next :: "nat \<Rightarrow> byte \<Rightarrow> byte" where
  "ring_next n i = (if unat (i + 1) \<ge> n then 0 else i + 1)"

lemma unat_ring_next:
  assumes "unat i < n" and "n \<le> 256"
  shows "unat (ring_next n i) = (if Suc (unat i) = n then 0 else Suc (unat i))"
proof (cases "unat i = 255")
  case True
  then have "i = 255" by (simp add: word_unat_eq_iff)
  with assms show ?thesis by (simp add: ring_next_def)
next
  case False
  then have "unat (i + 1) = Suc (unat i)"
    using unsigned_less [of i, where 'a = nat] by (simp add: unat_word_ariths(1))
  with assms show ?thesis by (auto simp: ring_next_def)
qed

lemma rx_interrupt_handler_eq:
  "rx_interrupt_handler u b =
     u\<lparr>cbuf := (cbuf u)[unat (windex u) := b], windex := ring_next (length (cbuf u)) (windex u)\<rparr>"
  by (simp add: rx_interrupt_handler_def ring_next_def Let_def)

lemma ring_take_eq:
  "ring_take u = (cbuf u ! unat (rindex u), u\<lparr>rindex := ring_next (length (cbuf u)) (rindex u)\<rparr>)"
  by (simp add: ring_take_def ring_next_def Let_def)

lemma ring_size_less: "uart_inv u \<Longrightarrow> ring_size u < length (cbuf u)"
  by (auto simp: uart_inv_def ring_size_def word_le_nat_alt)

lemma ring_size_end:
  "uart_inv u \<Longrightarrow> (unat (rindex u) + ring_size u) mod length (cbuf u) = unat (windex u)"
  by (auto simp: uart_inv_def ring_size_def word_le_nat_alt)

lemma ring_slot_inj:
  fixes r i j n :: nat
  assumes "i < n" and "j < n" and "(r + i) mod n = (r + j) mod n"
  shows "i = j"
proof -
  have le: "a = b" if "a \<le> b" "b < n" "(r + b) mod n = (r + a) mod n" for a b
  proof -
    have "n dvd r + b - (r + a)" using that by (subst (asm) mod_eq_dvd_iff_nat) simp_all
    then have "n dvd b - a" by simp
    moreover have "b - a < n" using that(2) by simp
    ultimately have "b - a = 0" by (metis dvd_imp_le gr0I not_le)
    with that(1) show ?thesis by simp
  qed
  show ?thesis using le [of i j] le [of j i] assms by (metis nat_le_linear)
qed

lemma length_ring_contents [simp]: "length (ring_contents u) = ring_size u"
  by (simp add: ring_contents_def)

lemma rx_inv: "uart_inv u \<Longrightarrow> uart_inv (rx_interrupt_handler u b)"
  by (auto simp: rx_interrupt_handler_eq uart_inv_def unat_ring_next)

lemma rx_size:
  assumes "uart_inv u"
  shows "ring_size (rx_interrupt_handler u b) =
    (if Suc (ring_size u) = length (cbuf u) then 0 else Suc (ring_size u))"
  using assms
  by (auto simp: rx_interrupt_handler_eq uart_inv_def unat_ring_next ring_size_def word_le_nat_alt)

lemma rx_contents:
  assumes "uart_inv u" and "0 < ring_room u"
  shows "ring_contents (rx_interrupt_handler u b) = ring_contents u @ [b]"
proof (rule nth_equalityI)
  have size: "ring_size (rx_interrupt_handler u b) = Suc (ring_size u)"
    using assms ring_size_less [OF assms(1)] by (auto simp: rx_size ring_room_def)
  then show "length (ring_contents (rx_interrupt_handler u b)) = length (ring_contents u @ [b])" by simp
  fix i assume "i < length (ring_contents (rx_interrupt_handler u b))"
  with size have i: "i \<le> ring_size u" by simp
  let ?n = "length (cbuf u)" and ?r = "unat (rindex u)"
  have w: "unat (windex u) < ?n" using assms(1) by (simp add: uart_inv_def)
  have "ring_contents (rx_interrupt_handler u b) ! i = (cbuf u)[unat (windex u) := b] ! ((?r + i) mod ?n)"
    using i unfolding ring_contents_def size by (simp add: rx_interrupt_handler_eq del: upt_Suc)
  also have "\<dots> = (ring_contents u @ [b]) ! i"
  proof (cases "i = ring_size u")
    case True
    with ring_size_end [OF assms(1)] w show ?thesis by (simp add: nth_append)
  next
    case False
    with i have less: "i < ring_size u" by simp
    have "(?r + i) mod ?n \<noteq> unat (windex u)"
      using False less ring_slot_inj [of i ?n "ring_size u" ?r] ring_size_end [OF assms(1)]
        ring_size_less [OF assms(1)] by auto
    with less show ?thesis by (simp add: nth_append ring_contents_def)
  qed
  finally show "ring_contents (rx_interrupt_handler u b) ! i = (ring_contents u @ [b]) ! i" .
qed

lemma ring_empty: "uart_inv u \<Longrightarrow> rindex u = windex u \<longleftrightarrow> ring_contents u = []"
  by (auto simp: ring_contents_def ring_size_def uart_inv_def word_le_nat_alt word_unat_eq_iff)

lemma take_size:
  assumes "uart_inv u" and "rindex u \<noteq> windex u"
  shows "Suc (ring_size (snd (ring_take u))) = ring_size u"
  using assms
  by (auto simp: ring_take_eq uart_inv_def unat_ring_next ring_size_def word_le_nat_alt word_unat_eq_iff)

lemma take_contents:
  assumes "uart_inv u" and "rindex u \<noteq> windex u" and "ring_take u = (b, u')"
  shows "uart_inv u' \<and> ring_contents u = b # ring_contents u' \<and> ring_room u' = Suc (ring_room u)"
proof -
  let ?n = "length (cbuf u)" and ?r = "unat (rindex u)"
  have u': "u' = u\<lparr>rindex := ring_next ?n (rindex u)\<rparr>" and b: "b = cbuf u ! ?r"
    using assms(3) by (simp_all add: ring_take_eq)
  have inv': "uart_inv u'" using assms(1) by (auto simp: u' uart_inv_def unat_ring_next)
  have size: "ring_size u = Suc (ring_size u')" using take_size [OF assms(1,2)] by (simp add: assms(3))
  have next_slot: "(unat (rindex u') + i) mod ?n = (?r + Suc i) mod ?n" for i
  proof (cases "Suc ?r = ?n")
    case True
    then have "Suc (?r + i) = ?n + i" by simp
    then have "Suc (?r + i) mod ?n = i mod ?n" by (simp only: mod_add_self1)
    with True assms(1) show ?thesis by (simp add: u' uart_inv_def unat_ring_next)
  next
    case False
    with assms(1) show ?thesis by (simp add: u' uart_inv_def unat_ring_next)
  qed
  have "ring_contents u = b # ring_contents u'"
  proof (rule nth_equalityI)
    show "length (ring_contents u) = length (b # ring_contents u')" using size by simp
    fix i assume "i < length (ring_contents u)"
    then have "i < Suc (ring_size u')" by (simp add: size)
    then show "ring_contents u ! i = (b # ring_contents u') ! i"
      using assms(1) next_slot [of "i - 1"]
      by (cases i) (simp_all add: ring_contents_def size b u' uart_inv_def del: upt_Suc)
  qed
  moreover have "ring_room u' = Suc (ring_room u)"
    using size ring_size_less [OF assms(1)] by (simp add: ring_room_def u')
  ultimately show ?thesis using inv' by blast
qed

interpretation uart_ring: byte_fifo uart_inv ring_contents ring_room rx_interrupt_handler
  "\<lambda>u. rindex u = windex u" ring_take
proof (unfold_locales, goal_cases)
  case (1 u b)
  then show ?case by (rule rx_inv)
next
  case (2 u b)
  then show ?case by (rule rx_contents)
next
  case (3 u b)
  then show ?case using ring_size_less [of u]
    by (auto simp: ring_room_def rx_size) (simp add: rx_interrupt_handler_eq)
next
  case (4 u b)
  then show ?case by (simp add: rx_size)
next
  case (5 u)
  then show ?case by (rule ring_empty)
next
  case (6 u b u')
  then show ?case by (rule take_contents)
qed

end
