(* ===== verification/Smp_Avr_Transfer.thy ===== *)
theory Smp_Avr_Transfer
  imports Smp_Avr_Ring Smp_Context_Receive
begin

text \<open>
  The AVR device under interrupts: what an access, a read, a write and a wait of the main program
  do to the bytes of the UART in use, and the contract of the context.
\<close>

section \<open>The bytes of a UART\<close>

definition arrivals_for :: "nat \<Rightarrow> (nat \<times> byte) list list \<Rightarrow> byte list" where
  "arrivals_for n irq = map snd (filter (\<lambda>a. fst a = n) (concat irq))"

text \<open>All UARTs have their indices inside their buffers.\<close>

definition avr_sound :: "avr_device \<Rightarrow> bool" where
  "avr_sound d \<longleftrightarrow> (\<forall>i<length (avr_uarts d). uart_inv (avr_uarts d ! i))"

definition avr_ok :: "nat \<Rightarrow> avr_device \<Rightarrow> bool" where
  "avr_ok n d \<longleftrightarrow> n < length (avr_uarts d) \<and> avr_sound d \<and> receiving (avr_uarts d ! n)"

text \<open>In the ring buffer or still to arrive.\<close>

definition avr_bytes :: "nat \<Rightarrow> avr_device \<Rightarrow> byte list" where
  "avr_bytes n d = ring_contents (avr_uarts d ! n) @ arrivals_for n (avr_irq d)"

text \<open>
  The program took \<open>bs\<close> from UART \<open>n\<close>: it never gets more than there was, and when no byte of the
  UART is lost it gets the first ones in order.
\<close>

definition avr_took :: "nat \<Rightarrow> byte list \<Rightarrow> avr_device \<Rightarrow> avr_device \<Rightarrow> bool" where
  "avr_took n bs d d' \<longleftrightarrow> avr_ok n d' \<and> avr_fd d' = avr_fd d \<and>
     uart_out (avr_uarts d' ! n) = uart_out (avr_uarts d ! n) \<and>
     length (avr_uarts d') = length (avr_uarts d) \<and>
     length (avr_bytes n d') + length bs \<le> length (avr_bytes n d) \<and>
     (n \<notin> set (avr_lost d') \<longrightarrow> n \<notin> set (avr_lost d) \<and> avr_bytes n d = bs @ avr_bytes n d')"

lemma avr_okD: "avr_ok n d \<Longrightarrow> n < length (avr_uarts d) \<and> uart_inv (avr_uarts d ! n)"
  by (simp add: avr_ok_def avr_sound_def)

lemma avr_sound_update:
  "avr_sound d \<Longrightarrow> uart_inv u \<Longrightarrow> avr_sound (d\<lparr>avr_uarts := (avr_uarts d)[n := u]\<rparr>)"
  by (cases "n < length (avr_uarts d)") (auto simp: avr_sound_def nth_list_update list_update_beyond)

lemma avr_took_refl: "avr_ok n d \<Longrightarrow> avr_took n [] d d"
  by (simp add: avr_took_def)

lemma avr_took_trans:
  assumes "avr_took n bs d d1" and "avr_took n cs d1 d2"
  shows "avr_took n (bs @ cs) d d2"
  using assms by (auto simp: avr_took_def)

lemma rx_regs [simp]:
  "uart_regs (rx_interrupt_handler u b) = uart_regs u"
  "uart_out (rx_interrupt_handler u b) = uart_out u"
  "length (cbuf (rx_interrupt_handler u b)) = length (cbuf u)"
  by (simp_all add: rx_interrupt_handler_eq)

lemma uart_receive_took:
  assumes "avr_ok n d" and "avr_irq d = [(m, b) # as] @ q"
  shows "avr_took n [] d ((uart_receive (d\<lparr>avr_irq := q\<rparr>) (m, b))\<lparr>avr_irq := as # q\<rparr>)"
proof -
  let ?u = "avr_uarts d ! n"
  have inv: "uart_inv ?u" and rec: "receiving ?u" and n: "n < length (avr_uarts d)"
    using avr_okD [OF assms(1)] assms(1) by (simp_all add: avr_ok_def)
  have all: "\<forall>i<length (avr_uarts d). uart_inv (avr_uarts d ! i)"
    using assms(1) by (simp add: avr_ok_def avr_sound_def)
  have arr: "arrivals_for n (avr_irq d) = (if m = n then [b] else []) @ arrivals_for n (as # q)"
    using assms(2) by (simp add: arrivals_for_def)
  show ?thesis
  proof (cases "m = n")
    case True
    have fits: "ring_size ?u + 1 < length (cbuf ?u) \<longleftrightarrow> 0 < ring_room ?u"
      by (auto simp: ring_room_def)
    show ?thesis
      using True inv rec n uart_ring.put_inv [OF inv, of b] uart_ring.put_shrinks [OF inv, of b]
        uart_ring.put_contents [OF inv, of b] fits arr all
      by (auto simp: avr_took_def avr_ok_def avr_sound_def nth_list_update avr_bytes_def uart_receive_def Let_def receiving_def)
  next
    case False
    with inv rec n arr all uart_ring.put_inv [of "avr_uarts d ! m" b] show ?thesis
      by (auto simp: avr_took_def avr_ok_def avr_sound_def nth_list_update avr_bytes_def uart_receive_def Let_def receiving_def)
  qed
qed

lemma uart_receive_irq:
  "uart_receive (d\<lparr>avr_irq := q\<rparr>) a = (uart_receive d a)\<lparr>avr_irq := q\<rparr>"
  by (cases a) (simp add: uart_receive_def Let_def)

lemma foldl_receive_took:
  "avr_ok n d \<Longrightarrow> avr_irq d = as # q \<Longrightarrow> avr_took n [] d (foldl uart_receive (d\<lparr>avr_irq := q\<rparr>) as)"
proof (induction as arbitrary: d)
  case Nil
  then show ?case by (simp add: avr_took_def avr_ok_def avr_sound_def avr_bytes_def arrivals_for_def)
next
  case (Cons a as)
  obtain m b where a: "a = (m, b)" by (cases a)
  let ?d = "(uart_receive (d\<lparr>avr_irq := q\<rparr>) a)\<lparr>avr_irq := as # q\<rparr>"
  have 1: "avr_took n [] d ?d"
    using uart_receive_took [of n d m b as q] Cons.prems by (simp add: a)
  then have "avr_ok n ?d" by (simp add: avr_took_def)
  from Cons.IH [OF this] have "avr_took n [] ?d (foldl uart_receive (?d\<lparr>avr_irq := q\<rparr>) as)" by simp
  moreover have "?d\<lparr>avr_irq := q\<rparr> = uart_receive (d\<lparr>avr_irq := q\<rparr>) a"
    by (simp add: uart_receive_irq)
  ultimately show ?case using avr_took_trans [OF 1] by fastforce
qed

lemma volatile_access_took: "avr_ok n d \<Longrightarrow> avr_took n [] d (volatile_access d)"
  by (auto simp: volatile_access_def foldl_receive_took avr_took_refl split: list.split)

section \<open>Transfers\<close>

lemma ring_take_took:
  assumes "avr_ok n d" and "rindex (avr_uarts d ! n) \<noteq> windex (avr_uarts d ! n)"
    and "ring_take (avr_uarts d ! n) = (b, u)"
  shows "avr_took n [b] d (d\<lparr>avr_uarts := (avr_uarts d)[n := u]\<rparr>)"
proof -
  have "uart_inv u \<and> ring_contents (avr_uarts d ! n) = b # ring_contents u"
    using uart_ring.get_contents [OF _ assms(2,3)] avr_okD [OF assms(1)] by blast
  moreover have "uart_regs u = uart_regs (avr_uarts d ! n)" "uart_out u = uart_out (avr_uarts d ! n)"
    using assms(3) by (auto simp: ring_take_eq)
  ultimately show ?thesis using assms(1) avr_sound_update [of d u n]
    by (simp add: avr_took_def avr_ok_def avr_bytes_def receiving_def)
qed

lemma read_loop_took:
  "avr_ok n d \<Longrightarrow> read_loop n d k = (bs, d') \<Longrightarrow> avr_took n bs d d' \<and> length bs \<le> k"
proof (induction n d k arbitrary: bs d' rule: read_loop.induct)
  case (1 n d)
  then show ?case by (simp add: avr_took_refl)
next
  case (2 n d k)
  let ?d = "volatile_access d"
  have took: "avr_took n [] d ?d" using 2(2) by (rule volatile_access_took)
  then have ok: "avr_ok n ?d" by (simp add: avr_took_def)
  show ?case
  proof (cases "rindex (avr_uarts ?d ! n) = windex (avr_uarts ?d ! n)")
    case True
    with took 2(3) show ?thesis by auto
  next
    case False
    obtain b u where t: "ring_take (avr_uarts ?d ! n) = (b, u)" by fastforce
    let ?d1 = "?d\<lparr>avr_uarts := (avr_uarts ?d)[n := u]\<rparr>"
    have one: "avr_took n [b] ?d ?d1" using ok False t by (rule ring_take_took)
    then have ok1: "avr_ok n ?d1" by (simp add: avr_took_def)
    obtain bs1 where rest: "read_loop n ?d1 k = (bs1, d')" and bs: "bs = b # bs1"
      using 2(3) False t by (auto simp: Let_def split: prod.splits)
    from 2(1) [OF refl False t [symmetric] ok1 rest]
    have "avr_took n bs1 ?d1 d'" "length bs1 \<le> k" by simp_all
    with avr_took_trans [OF took avr_took_trans [OF one]] show ?thesis by (fastforce simp: bs)
  qed
qed

lemma avr_took_udre:
  "avr_took n bs d (d'\<lparr>avr_udre := q\<rparr>) = avr_took n bs d d'"
  "avr_took n bs (d\<lparr>avr_udre := q\<rparr>) d' = avr_took n bs d d'"
  "avr_ok n (d\<lparr>avr_udre := q\<rparr>) = avr_ok n d"
  by (simp_all add: avr_took_def avr_ok_def avr_sound_def avr_bytes_def)

lemma loop_until_ready_took:
  assumes "avr_ok n d" and "loop_until_ready d = Some d'"
  shows "avr_took n [] d d'"
proof -
  have "avr_ok n d \<longrightarrow> avr_took n [] d d'"
    using assms(2)
  proof (rule loop_until_ready.raw_induct [rotated])
    fix f d d'
    assume IH: "\<And>d d'. f d = Some d' \<Longrightarrow> avr_ok n d \<longrightarrow> avr_took n [] d d'"
      and run: "(let d = volatile_access d in
        case avr_udre d of [] \<Rightarrow> f d
        | ready # q \<Rightarrow> if ready then Some (d\<lparr>avr_udre := q\<rparr>) else f (d\<lparr>avr_udre := q\<rparr>)) = Some d'"
    show "avr_ok n d \<longrightarrow> avr_took n [] d d'"
    proof
      assume "avr_ok n d"
      then have took: "avr_took n [] d (volatile_access d)" by (rule volatile_access_took)
      then have "avr_ok n (volatile_access d)" by (simp add: avr_took_def)
      with IH run have "avr_took n [] (volatile_access d) d'"
        by (fastforce simp: Let_def avr_took_udre avr_took_refl split: list.splits if_splits)
      from avr_took_trans [OF took this] show "avr_took n [] d d'" by simp
    qed
  qed
  with assms(1) show ?thesis by blast
qed

lemma write_loop_sent:
  "avr_ok n d \<Longrightarrow> write_loop n d bs ret = Some (ret', d') \<Longrightarrow>
    avr_ok n d' \<and> avr_fd d' = avr_fd d \<and> ret' = ret + of_nat (length bs) \<and>
    uart_out (avr_uarts d' ! n) = uart_out (avr_uarts d ! n) @ bs"
proof (induction bs arbitrary: d ret)
  case (Cons b bs)
  then obtain d1 where ready: "loop_until_ready d = Some d1"
    and rest: "write_loop n (update_uart n (\<lambda>u. u\<lparr>uart_out := uart_out u @ [b]\<rparr>) d1) bs (ret + 1) = Some (ret', d')"
    by (auto split: option.splits)
  have took: "avr_took n [] d d1" using Cons.prems(1) ready by (rule loop_until_ready_took)
  let ?d = "update_uart n (\<lambda>u. u\<lparr>uart_out := uart_out u @ [b]\<rparr>) d1"
  from took have "avr_ok n ?d"
    by (auto simp: avr_took_def avr_ok_def avr_sound_def update_uart_def uart_inv_def receiving_def
        nth_list_update)
  from Cons.IH [OF this rest] took show ?case
    by (simp add: update_uart_def avr_took_def avr_ok_def)
qed simp

section \<open>Waiting\<close>

lemma ring_ready_took: "avr_ok n d \<Longrightarrow> ring_ready n d = (ready, d') \<Longrightarrow> avr_took n [] d d'"
  by (auto simp: ring_ready_def Let_def volatile_access_took)

lemma wait_forever_took:
  assumes "avr_ok n d" and "wait_forever n d = Some d'"
  shows "avr_took n [] d d'"
proof -
  have "avr_ok n d \<longrightarrow> avr_took n [] d d'"
    using assms(2)
  proof (rule wait_forever.raw_induct [rotated])
    fix f n d d'
    assume IH: "\<And>n d d'. f n d = Some d' \<Longrightarrow> avr_ok n d \<longrightarrow> avr_took n [] d d'"
      and run: "(case ring_ready n d of (ready, d) \<Rightarrow> if ready then Some d else f n d) = Some d'"
    obtain ready d1 where rr: "ring_ready n d = (ready, d1)" by fastforce
    show "avr_ok n d \<longrightarrow> avr_took n [] d d'"
    proof
      assume "avr_ok n d"
      then have took: "avr_took n [] d d1" using rr by (rule ring_ready_took)
      then have "avr_ok n d1" by (simp add: avr_took_def)
      with IH [of n d1 d'] run rr have "avr_took n [] d1 d'"
        by (auto simp: avr_took_refl split: if_splits)
      from avr_took_trans [OF took this] show "avr_took n [] d d'" by simp
    qed
  qed
  with assms(1) show ?thesis by blast
qed

lemma wait_loop_took:
  "avr_ok n d \<Longrightarrow> wait_loop n timeout elapsed d = (r, d') \<Longrightarrow> avr_took n [] d d'"
proof (induction n timeout elapsed d rule: wait_loop.induct)
  case (1 n timeout elapsed d)
  obtain ready d1 where rr: "ring_ready n d = (ready, d1)" by fastforce
  have took: "avr_took n [] d d1" using 1(2) rr by (rule ring_ready_took)
  then have ok: "avr_ok n d1" by (simp add: avr_took_def)
  show ?case
  proof (cases "elapsed < timeout \<and> \<not> ready")
    case True
    with 1(3) rr have "wait_loop n timeout (elapsed + 5) d1 = (r, d')"
      by (simp add: wait_loop.simps [of n timeout elapsed])
    with 1(1) [OF _ rr [symmetric]] True ok have "avr_took n [] d1 d'" by blast
    from avr_took_trans [OF took this] show ?thesis by simp
  next
    case False
    with 1(3) rr took show ?thesis
      by (auto simp: wait_loop.simps [of n timeout elapsed] split: if_splits)
  qed
qed

section \<open>The contract of the context\<close>

definition avr_is_open :: "avr_device \<Rightarrow> bool" where
  "avr_is_open d \<longleftrightarrow> 0 \<le> avr_fd d \<and> avr_ok (nat (avr_fd d)) d"

definition avr_sent :: "avr_device \<Rightarrow> byte list" where
  "avr_sent d = uart_out (avr_uarts d ! nat (avr_fd d))"

definition avr_pending :: "avr_device \<Rightarrow> byte list" where
  "avr_pending d = avr_bytes (nat (avr_fd d)) d"

definition avr_healthy :: "avr_device \<Rightarrow> bool" where
  "avr_healthy d \<longleftrightarrow> nat (avr_fd d) \<notin> set (avr_lost d)"

lemma get_device_open:
  "avr_is_open d \<Longrightarrow> get_device_from_fd d (avr_fd d) = Some (Some (nat (avr_fd d)))"
  by (auto simp: avr_is_open_def avr_ok_def get_device_from_fd_def)

lemma avr_took_views:
  assumes "avr_is_open d" and "avr_took (nat (avr_fd d)) bs d d'"
  shows "avr_is_open d'" and "avr_sent d' = avr_sent d"
    and "length (avr_pending d') + length bs \<le> length (avr_pending d)"
    and "avr_healthy d' \<longrightarrow> avr_healthy d \<and> avr_pending d = bs @ avr_pending d'"
  using assms
  by (auto simp: avr_took_def avr_is_open_def avr_sent_def avr_pending_def avr_healthy_def)

lemma avr_read_took:
  assumes "avr_is_open d"
  obtains bs d' where "avr_device_read d k = Some (Inr bs, d')" "length bs \<le> k"
    "avr_took (nat (avr_fd d)) bs d d'"
proof -
  obtain bs d' where run: "read_loop (nat (avr_fd d)) d k = (bs, d')" by fastforce
  have ok: "avr_ok (nat (avr_fd d)) d" using assms by (simp add: avr_is_open_def)
  from read_loop_took [OF ok run] show thesis
    by (intro that [of bs d']) (simp_all add: avr_device_read_def get_device_open [OF assms] run)
qed

lemma avr_wait_took:
  assumes "avr_is_open d" and "avr_device_wait d t = Some (r, d')"
  shows "avr_took (nat (avr_fd d)) [] d d'"
proof -
  let ?n = "nat (avr_fd d)"
  obtain ready d1 where rr: "ring_ready ?n d = (ready, d1)" by fastforce
  have ok: "avr_ok ?n d" using assms(1) by (simp add: avr_is_open_def)
  then have took: "avr_took ?n [] d d1" using rr by (rule ring_ready_took)
  then have ok1: "avr_ok ?n d1" by (simp add: avr_took_def)
  have "avr_took ?n [] d1 d'"
    using assms(2) ok1 wait_forever_took [OF ok1] wait_loop_took [OF ok1] avr_took_refl [OF ok1]
    by (auto simp: avr_device_wait_def get_device_open [OF assms(1)] rr split: if_splits option.splits)
  from avr_took_trans [OF took this] show ?thesis by simp
qed

text \<open>Opening and configuring touch no index and leave the other UARTs alone.\<close>

lemma set_baudrate_ring [simp]:
  "cbuf (set_baudrate setbaud baudrate u) = cbuf u"
  "rindex (set_baudrate setbaud baudrate u) = rindex u"
  "windex (set_baudrate setbaud baudrate u) = windex u"
  "csr_b (uart_regs (set_baudrate setbaud baudrate u)) = csr_b (uart_regs u)"
  by (cases baudrate; simp add: set_baudrate_1200_def set_baudrate_2400_def set_baudrate_4800_def
      set_baudrate_9600_def set_baudrate_19200_def set_baudrate_38400_def set_baudrate_57600_def
      set_baudrate_115200_def set_baudrate_230400_def set_baudrate_460800_def set_baudrate_921600_def
      set_baudrate_1000000_def set_baudrate_2000000_def set_baudrate_4000000_def
      set_baudrate_value_def uart_setters Let_def split_beta)+

interpretation avr: waiting_device "avr_ops setbaud" avr_is_open avr_sent avr_pending avr_healthy
  for setbaud
proof (unfold_locales, goal_cases)
  case (1 d bs n d')
  then have ok: "avr_ok (nat (avr_fd d)) d" by (simp add: avr_is_open_def)
  from 1 have run: "write_loop (nat (avr_fd d)) d bs 0 = Some (n, d')"
    by (auto simp: avr_ops_def avr_device_write_def get_device_open split: option.splits)
  from write_loop_sent [OF ok run] 1(1,2) show ?case
    by (simp add: avr_is_open_def avr_sent_def unat_of_nat take_bit_nat_eq_self)
next
  case (2 d k bs d')
  from 2(1) show ?case
  proof (cases rule: avr_read_took [where k = k])
    case (1 bs1 d1)
    with 2 avr_took_views [OF 2(1) 1(3)] show ?thesis by (simp add: avr_ops_def)
  qed
next
  case (3 d k e d')
  from 3(1) show ?case
    by (cases rule: avr_read_took [where k = k]) (use 3 in \<open>simp add: avr_ops_def\<close>)
next
  case (4 d k)
  from 4 show ?case
    by (cases rule: avr_read_took [where k = k]) (simp add: avr_ops_def)
next
  case (5 d k bs d')
  from 5(1) show ?case
  proof (cases rule: avr_read_took [where k = k])
    case (1 bs1 d1)
    with 5 avr_took_views(3) [OF 5(1) 1(3)] show ?thesis by (simp add: avr_ops_def)
  qed
next
  case (6 d t r d')
  then have "avr_took (nat (avr_fd d)) [] d d'" by (intro avr_wait_took) (simp_all add: avr_ops_def)
  from avr_took_views [OF 6(1) this] show ?case by simp
qed

end
