(* ===== verification/Smp_Avr_Spec.thy ===== *)
theory Smp_Avr_Spec
  imports Smp_Avr_Transfer Smp_Context_Safe
begin

unbundle bit_operations_syntax

text \<open>What the functions of the AVR device guarantee.\<close>

section \<open>Opening\<close>

text \<open>The format of a character and the interrupts, as the registers state them.\<close>

definition uart_ready :: "byte \<times> byte \<times> bool \<Rightarrow> uart \<Rightarrow> bool" where
  "uart_ready baud u \<longleftrightarrow> (let r = uart_regs u; (ubrrh, ubrrl, use_2x) = baud in
     bit (csr_b r) TXEN0 \<and> bit (csr_b r) RXEN0 \<and> bit (csr_b r) RXCIE0 \<and> \<not> bit (csr_b r) TXCIE0 \<and>
     \<not> bit (csr_b r) UCSZ02 \<and> bit (csr_c r) UCSZ01 \<and> bit (csr_c r) UCSZ00 \<and>
     \<not> bit (csr_c r) UPM01 \<and> \<not> bit (csr_c r) UPM00 \<and> \<not> bit (csr_c r) USBS0 \<and>
     br_h r = ubrrh \<and> br_l r = ubrrl \<and> bit (csr_a r) U2X0 = use_2x)"

text \<open>The parts of a UART that are not its registers.\<close>

definition same_ring :: "uart \<Rightarrow> uart \<Rightarrow> bool" where
  "same_ring u u' \<longleftrightarrow> uart_name u' = uart_name u \<and> cbuf u' = cbuf u \<and> rindex u' = rindex u \<and>
     windex u' = windex u \<and> uart_out u' = uart_out u"

lemma bit_bv [simp]: "bit (bv n) m \<longleftrightarrow> m = n \<and> n < 8"
  by (auto simp: bv_def bit_simps)

lemma init_uart_cases:
  obtains (busy) "init_uart_device setbaud u = (Inl SMP_ERROR_BUSY, u)"
      "bit (csr_b (uart_regs u)) TXEN0 \<or> bit (csr_b (uart_regs u)) RXEN0"
  | (ready) u' where "init_uart_device setbaud u = (Inr (), u')" "uart_ready (setbaud 115200) u'"
      "same_ring u u'" "\<not> bit (csr_b (uart_regs u)) TXEN0" "\<not> bit (csr_b (uart_regs u)) RXEN0"
proof (cases "bit (csr_b (uart_regs u)) TXEN0 \<or> bit (csr_b (uart_regs u)) RXEN0")
  case True
  then show thesis by (intro busy) (simp_all add: init_uart_device_def)
next
  case False
  obtain h l x where baud: "setbaud 115200 = (h, l, x)" by (cases "setbaud 115200")
  show thesis
  proof (rule ready [of "snd (init_uart_device setbaud u)"])
    show "uart_ready (setbaud 115200) (snd (init_uart_device setbaud u))"
      using False
      by (simp add: init_uart_device_def uart_ready_def Let_def set_baudrate_115200_def
          set_baudrate_value_def baud uart_setters uart_bits bit_simps)
    show "same_ring u (snd (init_uart_device setbaud u))"
      using False
      by (simp add: init_uart_device_def same_ring_def Let_def set_baudrate_115200_def
          set_baudrate_value_def baud uart_setters)
  qed (use False in \<open>simp_all add: init_uart_device_def Let_def\<close>)
qed

lemma open_loop_cases:
  obtains (missing) "open_loop setbaud path i us = (Inl SMP_ERROR_NO_DEVICE, us)"
      "path \<notin> uart_name ` set us"
  | (found) n where "n < length us" "uart_name (us ! n) = path" "path \<notin> uart_name ` set (take n us)"
      "open_loop setbaud path i us = (case init_uart_device setbaud (us ! n) of
         (Inl e, u) \<Rightarrow> (Inl e, us[n := u]) | (Inr _, u) \<Rightarrow> (Inr (i + n), us[n := u]))"
proof (induction us arbitrary: i thesis)
  case Nil
  then show ?case by simp
next
  case (Cons u us)
  show ?case
  proof (cases "path = uart_name u")
    case True
    then show ?thesis by (intro Cons.prems(2) [of 0]) (simp_all split: prod.split sum.split)
  next
    case False
    show ?thesis
    proof (rule Cons.IH [of "Suc i"])
      assume "open_loop setbaud path (Suc i) us = (Inl SMP_ERROR_NO_DEVICE, us)"
        "path \<notin> uart_name ` set us"
      with False show ?thesis by (intro Cons.prems(1)) simp_all
    next
      fix n assume "n < length us" "uart_name (us ! n) = path" "path \<notin> uart_name ` set (take n us)"
        "open_loop setbaud path (Suc i) us = (case init_uart_device setbaud (us ! n) of
           (Inl e, u) \<Rightarrow> (Inl e, us[n := u]) | (Inr _, u) \<Rightarrow> (Inr (Suc i + n), us[n := u]))"
      with False show ?thesis
        by (intro Cons.prems(2) [of "Suc n"]) (auto split: prod.split sum.split)
    qed
  qed
qed

lemma same_ring_inv: "same_ring u u' \<Longrightarrow> uart_inv u' = uart_inv u"
  by (simp add: same_ring_def uart_inv_def)

lemma avr_open_opens:
  assumes "avr_sound d" and "avr_device_open setbaud d path = (r, d')"
  shows "avr_sound d' \<and> (\<forall>fd. r = Inr fd \<longrightarrow> avr_is_open d')"
proof (cases rule: open_loop_cases [of setbaud path 0 "avr_uarts d"])
  case missing
  with assms show ?thesis by (auto simp: avr_device_open_def)
next
  case (found n)
  show ?thesis
  proof (cases rule: init_uart_cases [of setbaud "avr_uarts d ! n"])
    case busy
    with found assms show ?thesis by (auto simp: avr_device_open_def list_update_id)
  next
    case (ready u')
    then have inv: "uart_inv u'"
      using found(1) assms(1) by (simp add: same_ring_inv avr_sound_def)
    have "receiving u'" using ready(2) by (auto simp: uart_ready_def receiving_def Let_def split: prod.splits)
    with found ready(1) inv assms avr_sound_update [OF assms(1) inv, of n] show ?thesis
      by (auto simp: avr_device_open_def avr_is_open_def avr_ok_def avr_sound_def)
  qed
qed

lemma avr_parity_ring [simp]:
  "cbuf (avr_parity parity u) = cbuf u" "rindex (avr_parity parity u) = rindex u"
  "windex (avr_parity parity u) = windex u"
  "csr_b (uart_regs (avr_parity parity u)) = csr_b (uart_regs u)"
  by (cases parity; simp add: uart_setters)+

lemma avr_config_keeps:
  assumes "avr_sound d" and "avr_device_set_config setbaud d baudrate parity fc = Some (r, d')"
  shows "avr_sound d' \<and> (avr_is_open d \<longrightarrow> avr_is_open d')"
  using assms
  by (auto simp: avr_device_set_config_def get_device_from_fd_def update_uart_def Let_def
      avr_is_open_def avr_ok_def avr_sound_def receiving_def uart_inv_def nth_list_update uart_setters
      bit_simps uart_bits split: if_splits option.splits)

lemma avr_close_sound:
  assumes "avr_sound d" and "avr_device_close d = Some d'"
  shows "avr_sound d'"
  using assms
  by (auto simp: avr_device_close_def get_device_from_fd_def update_uart_def avr_sound_def
      uart_inv_def nth_list_update uart_setters split: if_splits option.splits)

interpretation avr_life: managed_device "avr_ops setbaud" avr_is_open avr_sound for setbaud
proof (unfold_locales, goal_cases)
  case (1 d)
  then show ?case by (simp add: avr_ops_def avr_device_init_def avr_sound_def)
next
  case (2 d path r d')
  then show ?case using avr_open_opens by (simp add: avr_ops_def)
next
  case (3 d d')
  then show ?case using avr_close_sound by (simp add: avr_ops_def)
next
  case (4 d baudrate parity fc s d')
  then show ?case using avr_config_keeps by (simp add: avr_ops_def)
next
  case (5 d bs w d')
  then have ok: "avr_ok (nat (avr_fd d)) d" by (simp add: avr_is_open_def)
  from 5 obtain ret where "write_loop (nat (avr_fd d)) d bs 0 = Some (ret, d')"
    by (auto simp: avr_ops_def avr_device_write_def get_device_open split: option.splits)
  from write_loop_sent [OF ok this] 5(2) show ?case by (simp add: avr_is_open_def avr_ok_def)
next
  case (6 d k a d')
  from 6(2) obtain bs d1 where "avr_device_read d k = Some (Inr bs, d1)" "avr_took (nat (avr_fd d)) bs d d1"
    by (rule avr_read_took)
  with 6 avr_took_views(1) [OF 6(2)] show ?case
    by (auto simp: avr_ops_def avr_took_def avr_ok_def)
next
  case (7 d t s d')
  then have "avr_took (nat (avr_fd d)) [] d d'" by (intro avr_wait_took) (simp_all add: avr_ops_def)
  with avr_took_views(1) [OF 7(2) this] show ?case by (simp add: avr_took_def avr_ok_def)
qed

text \<open>
  C36: Opening finds the first UART of that name. If it was off it is set to 115200 bauds, 8 bits,
  no parity, one stop bit, transmitter, receiver and receive interrupt on, and only its registers
  change: bytes left in its buffer by an earlier use stay there. If it was on, or there is none of
  that name, opening fails and nothing changes.
\<close>

theorem avr_open_outcome:
  "case avr_device_open setbaud d path of
     (Inr ret, d') \<Rightarrow> ret = 0 \<and> (\<exists>n u'. n < length (avr_uarts d) \<and>
       uart_name (avr_uarts d ! n) = path \<and> path \<notin> uart_name ` set (take n (avr_uarts d)) \<and>
       d' = d\<lparr>avr_uarts := (avr_uarts d)[n := u'], avr_fd := int n\<rparr> \<and>
       uart_ready (setbaud 115200) u' \<and> same_ring (avr_uarts d ! n) u')
   | (Inl e, d') \<Rightarrow> d' = d \<and>
       (if path \<in> uart_name ` set (avr_uarts d) then e = SMP_ERROR_BUSY else e = SMP_ERROR_NO_DEVICE)"
proof (cases rule: open_loop_cases [of setbaud path 0 "avr_uarts d"])
  case missing
  then show ?thesis by (simp add: avr_device_open_def)
next
  case (found n)
  then have mem: "path \<in> uart_name ` set (avr_uarts d)" using nth_mem by blast
  show ?thesis
  proof (cases rule: init_uart_cases [of setbaud "avr_uarts d ! n"])
    case busy
    with found mem show ?thesis by (simp add: avr_device_open_def list_update_id)
  next
    case (ready u')
    with found show ?thesis by (auto simp: avr_device_open_def)
  qed
qed

section \<open>Receiving\<close>

text \<open>
  C15: The interrupt handler and the reader make the ring buffer a queue: bytes that arrive while
  there is room are appended in order, the reader finds the indices equal exactly when there is no
  byte, and otherwise takes the oldest one and leaves the others, with one more free place. One byte
  more, on a full buffer, makes the buffer look empty: everything in it is lost, since the handler
  never compares the two indices.
\<close>

theorem avr_ring_queue:
  assumes "uart_inv u" and "length bs \<le> ring_room u"
  shows "let v = foldl rx_interrupt_handler u bs; queue = ring_contents u @ bs in
    uart_inv v \<and> ring_contents v = queue \<and>
    (if rindex v = windex v then queue = []
     else \<exists>w. ring_take v = (hd queue, w) \<and> ring_contents w = tl queue \<and> queue \<noteq> [] \<and>
       uart_inv w \<and> ring_room w = Suc (ring_room v)) \<and>
    (length bs = ring_room u \<longrightarrow> ring_contents (rx_interrupt_handler v b) = [])"
proof -
  let ?v = "foldl rx_interrupt_handler u bs"
  have inv: "uart_inv ?v" using assms(1) by (rule uart_ring.puts_inv)
  have contents: "ring_contents ?v = ring_contents u @ bs" "ring_room ?v + length bs = ring_room u"
    using uart_ring.puts_contents [OF assms] by simp_all
  have "ring_contents (rx_interrupt_handler ?v b) = []" if "length bs = ring_room u"
  proof -
    have "Suc (ring_size ?v) = length (cbuf ?v)"
      using that contents(2) ring_size_less [OF inv] by (simp add: ring_room_def)
    then have "ring_size (rx_interrupt_handler ?v b) = 0" by (simp add: rx_size [OF inv])
    then show ?thesis by (simp add: ring_contents_def)
  qed
  moreover obtain x w where take: "ring_take ?v = (x, w)" by fastforce
  moreover have "uart_inv w \<and> ring_contents ?v = x # ring_contents w \<and> ring_room w = Suc (ring_room ?v)"
    if "rindex ?v \<noteq> windex ?v"
    using uart_ring.get_contents [OF inv that take] .
  ultimately show ?thesis
    using inv contents(1) uart_ring.empty_iff [OF inv]
    by (cases "rindex ?v = windex ?v") (auto simp: Let_def)
qed

definition sample_uart :: uart where
  "sample_uart = \<lparr>uart_name = ''serial0'',
     uart_regs = \<lparr>csr_a = 0, csr_b = 0, csr_c = 0, br_l = 0, br_h = 0\<rparr>,
     cbuf = [0, 0, 0, 0], rindex = 3, windex = 3, uart_out = []\<rparr>"

theorem avr_ring_queue_witness:
  "let v = foldl rx_interrupt_handler sample_uart [7, 8, 9] in
     ring_contents v = [7, 8, 9] \<and> (\<exists>w. ring_take v = (7, w) \<and> ring_contents w = [8, 9]) \<and>
     ring_contents (rx_interrupt_handler v 10) = []"
proof -
  have start: "uart_inv sample_uart" "ring_room sample_uart = 3" "ring_contents sample_uart = []"
    by (simp_all add: sample_uart_def uart_inv_def ring_room_def ring_size_def ring_contents_def)
  show ?thesis
    using avr_ring_queue [OF start(1), of "[7, 8, 9]" 10]
    by (auto simp: start Let_def split: if_splits)
qed

lemma read_loop_quiet:
  "read_loop n d k = (bs, d') \<Longrightarrow> avr_ok n d \<Longrightarrow> avr_irq d = [] \<Longrightarrow>
    bs = take k (ring_contents (avr_uarts d ! n))"
proof (induction n d k arbitrary: bs d' rule: read_loop.induct)
  case (2 n d k)
  have va: "volatile_access d = d" by (simp add: volatile_access_def 2(4))
  have inv: "uart_inv (avr_uarts d ! n)" and n: "n < length (avr_uarts d)"
    using avr_okD [OF 2(3)] by simp_all
  show ?case
  proof (cases "rindex (avr_uarts d ! n) = windex (avr_uarts d ! n)")
    case True
    with 2(2) inv show ?thesis by (simp add: va Let_def ring_empty)
  next
    case False
    obtain b u where t: "ring_take (avr_uarts d ! n) = (b, u)" by fastforce
    let ?d = "d\<lparr>avr_uarts := (avr_uarts d)[n := u]\<rparr>"
    obtain bs1 where run: "read_loop n ?d k = (bs1, d')" and bs: "bs = b # bs1"
      using 2(2) False t by (auto simp: Let_def va split: prod.splits)
    have ok: "avr_ok n ?d" using ring_take_took [OF 2(3) False t] by (simp add: avr_took_def)
    have "bs1 = take k (ring_contents (avr_uarts ?d ! n))"
      using 2(1) [of d, OF va [symmetric] False t [symmetric] run ok] 2(4) by simp
    with n uart_ring.get_contents [OF inv False t] show ?thesis by (simp add: bs)
  qed
qed simp

text \<open>
  Reading an open device returns at once, whatever interrupts do meanwhile. While no byte is
  lost, what it returns are the next bytes the UART received; with no interrupt it returns as many
  as asked for, or all there are.
\<close>

theorem avr_read_outcome:
  assumes "avr_is_open d"
  shows "\<exists>bs d'. avr_device_read d k = Some (Inr bs, d') \<and> length bs \<le> k \<and> avr_is_open d' \<and>
    avr_sent d' = avr_sent d \<and> (avr_healthy d' \<longrightarrow> avr_pending d = bs @ avr_pending d') \<and>
    (avr_irq d = [] \<longrightarrow> bs = take k (avr_pending d))"
proof -
  let ?n = "nat (avr_fd d)"
  from assms obtain bs d' where run: "avr_device_read d k = Some (Inr bs, d')" "length bs \<le> k"
    and took: "avr_took ?n bs d d'" by (rule avr_read_took)
  have "bs = take k (avr_pending d)" if "avr_irq d = []"
    using read_loop_quiet [of ?n d k bs d'] run(1) that assms
    by (auto simp: avr_device_read_def get_device_open avr_pending_def avr_bytes_def
        arrivals_for_def avr_is_open_def split: prod.splits)
  with run avr_took_views [OF assms took] show ?thesis by blast
qed

definition sample_avr :: "nat \<Rightarrow> byte list \<Rightarrow> (nat \<times> byte) list list \<Rightarrow> avr_device" where
  "sample_avr n bs irq = \<lparr>avr_fd = 0,
     avr_uarts = [foldl rx_interrupt_handler
       (sample_uart\<lparr>uart_regs := (uart_regs sample_uart)\<lparr>csr_b := 0x98\<rparr>, cbuf := replicate n 0\<rparr>) bs],
     avr_irq = irq, avr_udre = [], avr_lost = []\<rparr>"

lemma sample_avr_open:
  assumes "4 \<le> n" and "n \<le> 256"
  shows "avr_is_open (sample_avr n bs irq)"
proof -
  let ?u = "sample_uart\<lparr>uart_regs := (uart_regs sample_uart)\<lparr>csr_b := 0x98\<rparr>, cbuf := replicate n 0\<rparr>"
  have inv: "uart_inv ?u" using assms by (simp add: uart_inv_def sample_uart_def)
  have regs: "uart_regs (foldl rx_interrupt_handler u bs) = uart_regs u" for u
    by (induction bs arbitrary: u) simp_all
  have "bit (0x98 :: byte) RXEN0" "bit (0x98 :: byte) RXCIE0" by (simp_all add: uart_bits)
  with uart_ring.puts_inv [OF inv, of bs] show ?thesis
    by (simp add: avr_is_open_def avr_ok_def avr_sound_def sample_avr_def receiving_def regs sample_uart_def)
qed

lemma sample_avr_pending:
  assumes "4 \<le> n" and "n \<le> 256" and bs: "length bs < n"
  shows "avr_pending (sample_avr n bs []) = bs"
proof -
  let ?u = "sample_uart\<lparr>uart_regs := (uart_regs sample_uart)\<lparr>csr_b := 0x98\<rparr>, cbuf := replicate n 0\<rparr>"
  have "uart_inv ?u" "ring_contents ?u = []" "ring_room ?u = n - 1"
    using assms(1,2) by (simp_all add: uart_inv_def sample_uart_def ring_contents_def ring_size_def ring_room_def)
  with uart_ring.puts_contents [of ?u bs] bs show ?thesis
    by (simp add: avr_pending_def avr_bytes_def arrivals_for_def sample_avr_def)
qed

theorem avr_read_outcome_witness:
  "\<exists>d'. avr_device_read (sample_avr 4 [1, 2, 3] []) 2 = Some (Inr [1, 2], d')"
proof -
  have "avr_irq (sample_avr 4 [1, 2, 3] []) = []" by (simp add: sample_avr_def)
  then show ?thesis
    using avr_read_outcome [OF sample_avr_open [of 4 "[1, 2, 3]" "[]"], of 2]
    by (auto simp: sample_avr_pending)
qed

section \<open>Waiting\<close>

text \<open>What the buffer of UART \<open>n\<close> holds at the \<open>k\<close>-th look from \<open>d\<close> on.\<close>

definition looked :: "nat \<Rightarrow> nat \<Rightarrow> avr_device \<Rightarrow> byte list" where
  "looked n k d = ring_contents (avr_uarts ((volatile_access ^^ k) d) ! n)"

text \<open>\<open>d'\<close> is the device after \<open>k\<close> looks, of which all but the last found nothing.\<close>

definition waited :: "nat \<Rightarrow> avr_device \<Rightarrow> nat \<Rightarrow> avr_device \<Rightarrow> bool" where
  "waited n d k d' \<longleftrightarrow> 0 < k \<and> d' = (volatile_access ^^ k) d \<and> (\<forall>j. 0 < j \<and> j < k \<longrightarrow> looked n j d = [])"

lemma looked_next: "looked n (Suc k) d = looked n k (volatile_access d)"
  by (simp add: looked_def funpow_Suc_right del: funpow.simps)

lemma looks_took: "avr_ok n d \<Longrightarrow> avr_took n [] d ((volatile_access ^^ k) d)"
proof (induction k)
  case (Suc k)
  then have "avr_ok n ((volatile_access ^^ k) d)" by (simp add: avr_took_def)
  from avr_took_trans [OF Suc.IH [OF Suc.prems] volatile_access_took [OF this]] show ?case by simp
qed (simp add: avr_took_refl)

lemma ring_ready_looked:
  assumes "avr_ok n d"
  shows "ring_ready n d = (looked n 1 d \<noteq> [], volatile_access d)"
proof -
  have "avr_ok n (volatile_access d)" using volatile_access_took [OF assms] by (simp add: avr_took_def)
  with ring_empty [of "avr_uarts (volatile_access d) ! n"] avr_okD show ?thesis
    by (auto simp: ring_ready_def looked_def Let_def)
qed

lemma waited_now: "waited n d 1 (volatile_access d)"
  by (simp add: waited_def)

lemma waited_later:
  assumes "looked n 1 d = []" and "waited n (volatile_access d) k d'"
  shows "waited n d (Suc k) d'"
proof -
  have "looked n j d = []" if "0 < j" "j < Suc k" for j
  proof (cases "j = 1")
    case False
    with that obtain i where "j = Suc i" "0 < i" "i < k" by (cases j) auto
    with assms(2) show ?thesis by (simp add: looked_next waited_def)
  qed (use assms(1) in simp)
  with assms(2) show ?thesis by (simp add: waited_def funpow_Suc_right del: funpow.simps)
qed

lemma wait_forever_waited:
  assumes "avr_ok n d" and "wait_forever n d = Some d'"
  shows "\<exists>k. waited n d k d' \<and> looked n k d \<noteq> []"
proof -
  have "avr_ok n d \<longrightarrow> (\<exists>k. waited n d k d' \<and> looked n k d \<noteq> [])"
    using assms(2)
  proof (rule wait_forever.raw_induct [rotated])
    fix f n d d'
    assume IH: "\<And>n d d'. f n d = Some d' \<Longrightarrow> avr_ok n d \<longrightarrow> (\<exists>k. waited n d k d' \<and> looked n k d \<noteq> [])"
      and run: "(case ring_ready n d of (ready, d) \<Rightarrow> if ready then Some d else f n d) = Some d'"
    show "avr_ok n d \<longrightarrow> (\<exists>k. waited n d k d' \<and> looked n k d \<noteq> [])"
    proof
      assume ok: "avr_ok n d"
      show "\<exists>k. waited n d k d' \<and> looked n k d \<noteq> []"
      proof (cases "looked n 1 d = []")
        case True
        have "avr_ok n (volatile_access d)" using volatile_access_took [OF ok] by (simp add: avr_took_def)
        with IH [of n "volatile_access d" d'] run True obtain k where
          "waited n (volatile_access d) k d'" "looked n k (volatile_access d) \<noteq> []"
          by (auto simp: ring_ready_looked [OF ok])
        with waited_later [OF True] show ?thesis by (auto simp: looked_next intro!: exI [of _ "Suc k"])
      next
        case False
        with run waited_now [of n d] show ?thesis
          by (auto simp: ring_ready_looked [OF ok] intro!: exI [of _ 1])
      qed
    qed
  qed
  with assms(1) show ?thesis by blast
qed

lemma wait_forever_returns: "avr_ok n d \<Longrightarrow> looked n (Suc k) d \<noteq> [] \<Longrightarrow> wait_forever n d \<noteq> None"
proof (induction k arbitrary: d)
  case 0
  then show ?case by (subst wait_forever.simps) (simp add: ring_ready_looked)
next
  case (Suc k)
  have "avr_ok n (volatile_access d)" using volatile_access_took [OF Suc.prems(1)] by (simp add: avr_took_def)
  with Suc.IH [of "volatile_access d"] Suc.prems(2) show ?case
    by (subst wait_forever.simps) (simp add: ring_ready_looked [OF Suc.prems(1)] looked_next)
qed

text \<open>With a timeout: the looks are 5 ms apart, and the last one is not before the timeout.\<close>

lemma wait_loop_waited:
  "avr_ok n d \<Longrightarrow> wait_loop n timeout elapsed d = (ret, d') \<Longrightarrow>
    \<exists>k. waited n d k d' \<and> (if ret = Inr () then looked n k d \<noteq> []
      else ret = Inl SMP_ERROR_TIMEDOUT \<and> looked n k d = [] \<and> timeout + 5 \<le> elapsed + 5 * k)"
proof (induction n timeout elapsed d rule: wait_loop.induct)
  case (1 n timeout elapsed d)
  have ok: "avr_ok n (volatile_access d)" using volatile_access_took [OF 1(2)] by (simp add: avr_took_def)
  note rr = ring_ready_looked [OF 1(2)]
  show ?case
  proof (cases "elapsed < timeout \<and> looked n 1 d = []")
    case True
    with 1(3) have "wait_loop n timeout (elapsed + 5) (volatile_access d) = (ret, d')"
      by (simp add: wait_loop.simps [of n timeout elapsed] rr)
    with 1(1) [OF _ rr [symmetric] _ ok] True obtain k where "waited n (volatile_access d) k d'"
      "if ret = Inr () then looked n k (volatile_access d) \<noteq> []
       else ret = Inl SMP_ERROR_TIMEDOUT \<and> looked n k (volatile_access d) = [] \<and> timeout + 5 \<le> elapsed + 5 + 5 * k"
      by blast
    with waited_later [of n d k d'] True show ?thesis
      by (intro exI [of _ "Suc k"]) (auto simp: looked_next split: if_splits)
  next
    case False
    with 1(3) waited_now [of n d] show ?thesis
      by (intro exI [of _ 1]) (auto simp: wait_loop.simps [of n timeout elapsed] rr split: if_splits)
  qed
qed

lemma foldl_receive_irq [simp]: "avr_irq (foldl uart_receive d as) = avr_irq d"
  by (induction as arbitrary: d) (auto simp: uart_receive_def Let_def split_beta)

lemma looks_irq: "avr_irq ((volatile_access ^^ k) d) = drop k (avr_irq d)"
  by (induction k) (auto simp: volatile_access_def drop_Suc [symmetric] tl_drop [symmetric] split: list.split;
      metis drop_Suc list.sel(2,3) tl_drop)+

text \<open>When no byte of the UART is lost, some look finds a byte exactly when there is one to find.\<close>

lemma looks_find:
  assumes "avr_ok n d"
  shows "avr_bytes n d = [] \<Longrightarrow> looked n k d = []"
    and "n \<notin> set (avr_lost ((volatile_access ^^ length (avr_irq d)) d)) \<Longrightarrow> avr_bytes n d \<noteq> [] \<Longrightarrow>
      \<exists>k. looked n (Suc k) d \<noteq> []"
proof -
  have took: "avr_took n [] d ((volatile_access ^^ k) d)" for k using assms by (rule looks_took)
  show "looked n k d = []" if "avr_bytes n d = []"
  proof -
    have "length (avr_bytes n ((volatile_access ^^ k) d)) = 0"
      using took [of k] that by (simp add: avr_took_def)
    then show ?thesis unfolding length_0_conv by (simp add: avr_bytes_def looked_def)
  qed
  let ?k = "length (avr_irq d)"
  assume "n \<notin> set (avr_lost ((volatile_access ^^ ?k) d))" "avr_bytes n d \<noteq> []"
  with took [of ?k] have "looked n ?k d \<noteq> []"
    by (simp add: avr_took_def avr_bytes_def looked_def looks_irq arrivals_for_def)
  moreover have "volatile_access ((volatile_access ^^ ?k) d) = (volatile_access ^^ ?k) d"
    by (simp add: volatile_access_def [of "(volatile_access ^^ ?k) d"] looks_irq)
  then have "looked n (Suc ?k) d = looked n ?k d" by (simp add: looked_def)
  ultimately show "\<exists>k. looked n (Suc k) d \<noteq> []" by metis
qed

lemma avr_wait_waited:
  assumes "avr_is_open d" and "avr_device_wait d timeout_ms = Some (ret, d')"
  shows "\<exists>k. waited (nat (avr_fd d)) d k d' \<and>
    (if ret = Inr () then looked (nat (avr_fd d)) k d \<noteq> []
     else 0 \<le> sint timeout_ms \<and> ret = Inl SMP_ERROR_TIMEDOUT \<and> looked (nat (avr_fd d)) k d = [] \<and>
       sint timeout_ms + 10 \<le> 5 * int k)"
proof -
  let ?n = "nat (avr_fd d)" and ?d = "volatile_access d"
  have ok: "avr_ok ?n d" using assms(1) by (simp add: avr_is_open_def)
  then have ok1: "avr_ok ?n ?d" using volatile_access_took by (simp add: avr_took_def)
  note open_simps = avr_device_wait_def get_device_open [OF assms(1)] ring_ready_looked [OF ok]
  show ?thesis
  proof (cases "looked ?n 1 d = []")
    case False
    with assms(2) waited_now [of ?n d] show ?thesis by (intro exI [of _ 1]) (simp add: open_simps)
  next
    case empty: True
    note later = waited_later [OF empty]
    show ?thesis
    proof (cases "sint timeout_ms < 0")
      case True
      with assms(2) empty have "wait_forever ?n ?d = Some d'" "ret = Inr ()"
        by (auto simp: open_simps split: option.splits)
      with wait_forever_waited [OF ok1] obtain k where "waited ?n ?d k d'" "looked ?n k ?d \<noteq> []" by blast
      with later \<open>ret = Inr ()\<close> show ?thesis by (intro exI [of _ "Suc k"]) (simp add: looked_next)
    next
      case False
      with assms(2) empty have "wait_loop ?n (nat (sint timeout_ms)) 0 ?d = (ret, d')"
        by (simp add: open_simps)
      from wait_loop_waited [OF ok1 this] obtain k where "waited ?n ?d k d'"
        "if ret = Inr () then looked ?n k ?d \<noteq> []
         else ret = Inl SMP_ERROR_TIMEDOUT \<and> looked ?n k ?d = [] \<and> nat (sint timeout_ms) + 5 \<le> 0 + 5 * k"
        by blast
      with later False show ?thesis
        by (intro exI [of _ "Suc k"]) (auto simp: looked_next split: if_splits)
    qed
  qed
qed

lemma avr_wait_blocked:
  assumes "avr_is_open d"
  shows "avr_device_wait d timeout_ms = None \<longleftrightarrow> sint timeout_ms < 0 \<and> (\<forall>k. looked (nat (avr_fd d)) (Suc k) d = [])"
proof -
  let ?n = "nat (avr_fd d)" and ?d = "volatile_access d"
  have ok: "avr_ok ?n d" using assms(1) by (simp add: avr_is_open_def)
  then have ok1: "avr_ok ?n ?d" using volatile_access_took by (simp add: avr_took_def)
  have "wait_forever ?n ?d = None \<longleftrightarrow> (\<forall>k. looked ?n (Suc k) ?d = [])"
  proof (cases "wait_forever ?n ?d")
    case None
    with wait_forever_returns [OF ok1] show ?thesis by blast
  next
    case (Some d')
    from wait_forever_waited [OF ok1 this] obtain k where "0 < k" "looked ?n k ?d \<noteq> []"
      by (auto simp: waited_def)
    with Some show ?thesis by (auto simp: gr0_conv_Suc)
  qed
  moreover have "(\<forall>k. looked ?n (Suc k) d = []) \<longleftrightarrow> looked ?n 1 d = [] \<and> (\<forall>k. looked ?n (Suc k) ?d = [])"
    by (auto simp: looked_next [of ?n _ d, symmetric]) (metis One_nat_def looked_next not0_implies_Suc)
  ultimately show ?thesis
    by (auto simp: avr_device_wait_def get_device_open [OF assms(1)] ring_ready_looked [OF ok] split: option.splits)
qed

text \<open>
  C37: A wait looks at the buffer until it finds a byte. With a timeout it always returns, with
  success exactly when its last look found a byte and with a timeout only when no look did, the
  last being at least that many milliseconds after the first (5 for every look but two). A negative
  timeout waits for ever: it returns exactly when some look finds a byte, and when no byte is lost,
  that is exactly when a byte is in the buffer or still arrives.
\<close>

theorem avr_wait_returns:
  assumes "avr_is_open d"
  shows "(case avr_device_wait d timeout_ms of
      None \<Rightarrow> sint timeout_ms < 0 \<and> (\<forall>k>0. looked (nat (avr_fd d)) k d = [])
    | Some (ret, d') \<Rightarrow> avr_is_open d' \<and> (avr_healthy d' \<longrightarrow> avr_pending d' = avr_pending d) \<and>
        (\<exists>k. waited (nat (avr_fd d)) d k d' \<and>
          (if ret = Inr () then looked (nat (avr_fd d)) k d \<noteq> []
           else 0 \<le> sint timeout_ms \<and> ret = Inl SMP_ERROR_TIMEDOUT \<and> looked (nat (avr_fd d)) k d = [] \<and>
             sint timeout_ms \<le> 5 * (int k - 2)))) \<and>
    (sint timeout_ms < 0 \<and> avr_healthy ((volatile_access ^^ length (avr_irq d)) d) \<longrightarrow>
      (avr_device_wait d timeout_ms = None \<longleftrightarrow> avr_pending d = []))"
proof (intro conjI impI)
  let ?n = "nat (avr_fd d)"
  have ok: "avr_ok ?n d" using assms by (simp add: avr_is_open_def)
  show "case avr_device_wait d timeout_ms of
      None \<Rightarrow> sint timeout_ms < 0 \<and> (\<forall>k>0. looked ?n k d = [])
    | Some (ret, d') \<Rightarrow> avr_is_open d' \<and> (avr_healthy d' \<longrightarrow> avr_pending d' = avr_pending d) \<and>
        (\<exists>k. waited ?n d k d' \<and>
          (if ret = Inr () then looked ?n k d \<noteq> []
           else 0 \<le> sint timeout_ms \<and> ret = Inl SMP_ERROR_TIMEDOUT \<and> looked ?n k d = [] \<and>
             sint timeout_ms \<le> 5 * (int k - 2)))"
  proof (cases "avr_device_wait d timeout_ms")
    case None
    then have "sint timeout_ms < 0" "\<forall>k. looked ?n (Suc k) d = []"
      using avr_wait_blocked [OF assms] by blast+
    with None show ?thesis by (auto simp: gr0_conv_Suc)
  next
    case (Some r)
    obtain ret d' where r: "r = (ret, d')" by (cases r)
    from avr_took_views [OF assms avr_wait_took [OF assms, of timeout_ms ret d']]
      avr_wait_waited [OF assms, of timeout_ms ret d'] Some
    show ?thesis by (auto simp: r)
  qed
  assume t: "sint timeout_ms < 0 \<and> avr_healthy ((volatile_access ^^ length (avr_irq d)) d)"
  have "avr_fd ((volatile_access ^^ k) d) = avr_fd d" for k
    using looks_took [OF ok, of k] by (simp add: avr_took_def)
  with t looks_find [OF ok] avr_wait_blocked [OF assms, of timeout_ms]
  show "avr_device_wait d timeout_ms = None \<longleftrightarrow> avr_pending d = []"
    by (auto simp: avr_healthy_def avr_pending_def)
qed

theorem avr_wait_returns_witness:
  "(\<exists>ret d'. avr_device_wait (sample_avr 4 [] [[], [], [(0, 5)]]) 10 = Some (ret, d')) \<and>
   avr_device_wait (sample_avr 4 [] []) (-1) = None"
proof -
  have open1: "avr_is_open (sample_avr 4 [] irq)" for irq by (rule sample_avr_open) simp_all
  have "avr_healthy ((volatile_access ^^ length (avr_irq (sample_avr 4 [] []))) (sample_avr 4 [] []))"
    by (simp add: sample_avr_def avr_healthy_def)
  with avr_wait_returns [OF open1 [of "[]"], of "-1"] avr_wait_returns [OF open1 [of "[[], [], [(0, 5)]]"], of 10]
    sample_avr_pending [of 4 "[]"]
  show ?thesis by (auto split: option.splits)
qed

section \<open>The life of the device\<close>

text \<open>
  C17: Whatever calls a context makes to the device of a microcontroller, in the order it makes
  them (reads, writes and waits only while it is opened), and whatever bytes arrive meanwhile: the
  indices of all ring buffers stay inside their arrays, and while the context is opened its
  descriptor is the index of a UART of the table that is receiving.
\<close>

theorem avr_life_invariant:
  assumes "device_life avr_sound (avr_ops setbaud) d opened"
  shows "(\<forall>u\<in>set (avr_uarts d). unat (rindex u) < length (cbuf u) \<and> unat (windex u) < length (cbuf u)) \<and>
    (opened \<longrightarrow> (\<exists>n. get_device_from_fd d (avr_fd d) = Some (Some n) \<and>
      n < length (avr_uarts d) \<and> receiving (avr_uarts d ! n)))"
proof -
  have safe: "avr_sound d" "opened \<longrightarrow> avr_is_open d"
    using avr_life.life_safe [OF assms] by simp_all
  have "\<forall>u\<in>set (avr_uarts d). uart_inv u"
    using safe(1) by (auto simp: avr_sound_def in_set_conv_nth)
  with safe(2) show ?thesis
    by (auto simp: uart_inv_def get_device_open avr_is_open_def avr_ok_def)
qed

text \<open>A device whose only UART is off.\<close>

definition idle_avr :: "(nat \<times> byte) list list \<Rightarrow> avr_device" where
  "idle_avr irq = \<lparr>avr_fd = 0, avr_uarts = [sample_uart], avr_irq = irq, avr_udre = [], avr_lost = []\<rparr>"

lemma idle_avr_opened:
  obtains d where "device_life avr_sound (avr_ops setbaud) d True" and "avr_irq d = irq"
    and "ring_contents (avr_uarts d ! nat (avr_fd d)) = []"
proof -
  have "avr_sound (idle_avr irq)" by (simp add: idle_avr_def avr_sound_def sample_uart_def uart_inv_def)
  moreover have "avr_device_init (idle_avr irq) = dev_init (avr_ops setbaud) (idle_avr irq)"
    by (simp add: avr_ops_def)
  ultimately have life: "device_life avr_sound (avr_ops setbaud) (avr_device_init (idle_avr irq)) False"
    by (simp add: life_init)
  obtain u where u: "init_uart_device setbaud sample_uart = (Inr (), u)" "same_ring sample_uart u"
    by (rule init_uart_cases [of setbaud sample_uart]) (simp_all add: sample_uart_def)
  let ?d = "(avr_device_init (idle_avr irq))\<lparr>avr_uarts := [u], avr_fd := 0\<rparr>"
  have "dev_open (avr_ops setbaud) (avr_device_init (idle_avr irq)) ''serial0'' = Some (Inr 0, ?d)"
    using u(1) by (simp add: avr_ops_def avr_device_open_def avr_device_init_def idle_avr_def sample_uart_def)
  from life_open [OF life this] u(2) show thesis
    by (intro that [of ?d])
      (simp_all add: avr_device_init_def idle_avr_def same_ring_def ring_contents_def ring_size_def sample_uart_def)
qed

theorem avr_life_invariant_witness:
  "\<exists>d n. device_life avr_sound (avr_ops (\<lambda>n. (0, 8, False))) d True \<and> avr_irq d = [[], [(0, 5)]] \<and>
     get_device_from_fd d (avr_fd d) = Some (Some n) \<and> receiving (avr_uarts d ! n)"
proof -
  obtain d where d: "device_life avr_sound (avr_ops (\<lambda>n. (0, 8, False))) d True" "avr_irq d = [[], [(0, 5)]]"
    by (rule idle_avr_opened)
  with avr_life_invariant [OF d(1)] show ?thesis by blast
qed

end
