(* ===== verification/Smp_Device_Win32.thy ===== *)
theory Smp_Device_Win32
  imports Smp_Device Smp_Line
begin

text \<open>
  The serial device of \<open>src/serial-device-win32.c\<close>. The state is the structure
  \<open>SmpSerialDevice\<close> (the handle) and the part of the system the file calls: open handles, the
  last error, the state of the port, the line, and scripts of what the calls answer.
\<close>

section \<open>Errors\<close>

datatype win_error =
    ERROR_FILE_NOT_FOUND | ERROR_PATH_NOT_FOUND | ERROR_ACCESS_DENIED | ERROR_INVALID_ACCESS
  | ERROR_INVALID_HANDLE | ERROR_NOT_ENOUGH_MEMORY | ERROR_OUTOFMEMORY | ERROR_NOT_SUPPORTED
  | ERROR_DEV_NOT_EXIST | ERROR_FILE_EXISTS | ERROR_ALREADY_EXISTS | ERROR_INVALID_PARAMETER
  | ERROR_BUSY | ERROR_GEN_FAILURE | ERROR_OTHER int

fun win_error_to_smp_error :: "win_error \<Rightarrow> smp_error" where
  "win_error_to_smp_error ERROR_FILE_NOT_FOUND = SMP_ERROR_NOT_FOUND"
| "win_error_to_smp_error ERROR_PATH_NOT_FOUND = SMP_ERROR_NOT_FOUND"
| "win_error_to_smp_error ERROR_ACCESS_DENIED = SMP_ERROR_PERM"
| "win_error_to_smp_error ERROR_INVALID_ACCESS = SMP_ERROR_PERM"
| "win_error_to_smp_error ERROR_INVALID_HANDLE = SMP_ERROR_BAD_FD"
| "win_error_to_smp_error ERROR_NOT_ENOUGH_MEMORY = SMP_ERROR_NO_MEM"
| "win_error_to_smp_error ERROR_OUTOFMEMORY = SMP_ERROR_NO_MEM"
| "win_error_to_smp_error ERROR_NOT_SUPPORTED = SMP_ERROR_NOT_SUPPORTED"
| "win_error_to_smp_error ERROR_DEV_NOT_EXIST = SMP_ERROR_NO_DEVICE"
| "win_error_to_smp_error ERROR_FILE_EXISTS = SMP_ERROR_EXIST"
| "win_error_to_smp_error ERROR_ALREADY_EXISTS = SMP_ERROR_EXIST"
| "win_error_to_smp_error ERROR_INVALID_PARAMETER = SMP_ERROR_INVALID_PARAM"
| "win_error_to_smp_error ERROR_BUSY = SMP_ERROR_BUSY"
| "win_error_to_smp_error ERROR_GEN_FAILURE = SMP_ERROR_OTHER"
| "win_error_to_smp_error (ERROR_OTHER n) = SMP_ERROR_OTHER"

section \<open>System\<close>

datatype com_parity = NOPARITY | ODDPARITY | EVENPARITY

datatype com_stop_bits = ONESTOPBIT | ONE5STOPBITS | TWOSTOPBITS

record dcb =
  BaudRate :: nat
  fParity :: bool
  fOutxCtsFlow :: bool
  fOutxDsrFlow :: bool
  fDtrControl :: bool
  fRtsControl :: bool
  ByteSize :: nat
  Parity :: com_parity
  StopBits :: com_stop_bits
  fOutX :: bool
  fInX :: bool

record com_timeouts =
  ReadIntervalTimeout :: u32
  ReadTotalTimeoutMultiplier :: u32
  ReadTotalTimeoutConstant :: u32
  WriteTotalTimeoutMultiplier :: u32
  WriteTotalTimeoutConstant :: u32

datatype wait_answer = WAIT_OBJECT_0 | WAIT_TIMEOUT | WAIT_ABANDONED | WAIT_FAILED win_error

definition MAXDWORD :: u32 where "MAXDWORD = 0xFFFFFFFF"
definition INFINITE :: u32 where "INFINITE = 0xFFFFFFFF"
definition INVALID_HANDLE_VALUE :: int where "INVALID_HANDLE_VALUE = -1"

text \<open>
  \<open>w_path\<close> is what \<open>CreateFile\<close> answers for a path. In the other scripts \<^const>\<open>None\<close> and the end
  of the script are success.
\<close>

record win_os =
  w_error :: win_error
  w_handles :: "int list"
  w_path :: "string \<Rightarrow> win_error + int"
  w_dcb :: dcb
  w_timeouts :: com_timeouts
  w_getstate :: "win_error option list"
  w_setstate :: "win_error option list"
  w_settimes :: "win_error option list"
  w_waits :: "wait_answer list"
  w_line :: "win_error line"

definition win_fails :: "win_error \<Rightarrow> win_os \<Rightarrow> win_os" where
  "win_fails e w = w\<lparr>w_error := e\<rparr>"

definition CreateFile :: "win_os \<Rightarrow> string \<Rightarrow> int \<times> win_os" where
  "CreateFile w path =
     (case w_path w path of
        Inl e \<Rightarrow> (INVALID_HANDLE_VALUE, win_fails e w)
      | Inr h \<Rightarrow> (h, w\<lparr>w_handles := h # w_handles w\<rparr>))"

definition CloseHandle :: "win_os \<Rightarrow> int \<Rightarrow> win_os" where
  "CloseHandle w h =
     (if h \<in> set (w_handles w) then w\<lparr>w_handles := filter (\<lambda>x. x \<noteq> h) (w_handles w)\<rparr>
      else win_fails ERROR_INVALID_HANDLE w)"

definition answer :: "win_os \<Rightarrow> int \<Rightarrow> win_error option list \<Rightarrow> bool \<times> win_os" where
  "answer w h q =
     (if h \<notin> set (w_handles w) then (False, win_fails ERROR_INVALID_HANDLE w)
      else case q of Some e # _ \<Rightarrow> (False, win_fails e w) | _ \<Rightarrow> (True, w))"

definition GetCommState :: "win_os \<Rightarrow> int \<Rightarrow> bool \<times> dcb \<times> win_os" where
  "GetCommState w h =
     (case answer (w\<lparr>w_getstate := drop 1 (w_getstate w)\<rparr>) h (w_getstate w) of (ok, w) \<Rightarrow> (ok, w_dcb w, w))"

definition SetCommState :: "win_os \<Rightarrow> int \<Rightarrow> dcb \<Rightarrow> bool \<times> win_os" where
  "SetCommState w h d =
     (case answer (w\<lparr>w_setstate := drop 1 (w_setstate w)\<rparr>) h (w_setstate w) of
        (ok, w) \<Rightarrow> (ok, if ok then w\<lparr>w_dcb := d\<rparr> else w))"

definition SetCommTimeouts :: "win_os \<Rightarrow> int \<Rightarrow> com_timeouts \<Rightarrow> bool \<times> win_os" where
  "SetCommTimeouts w h t =
     (case answer (w\<lparr>w_settimes := drop 1 (w_settimes w)\<rparr>) h (w_settimes w) of
        (ok, w) \<Rightarrow> (ok, if ok then w\<lparr>w_timeouts := t\<rparr> else w))"

text \<open>
  With the timeouts the device sets, a read returns at once with what there is, possibly nothing,
  and a write lasts until the line takes it.
\<close>

definition ReadFile :: "win_os \<Rightarrow> int \<Rightarrow> nat \<Rightarrow> byte list option \<times> win_os" where
  "ReadFile w h k =
     (if h \<notin> set (w_handles w) then (None, win_fails ERROR_INVALID_HANDLE w)
      else case line_read (w_line w) k of
          (None, l) \<Rightarrow> (Some [], w\<lparr>w_line := l\<rparr>)
        | (Some (Inl e), l) \<Rightarrow> (None, win_fails e (w\<lparr>w_line := l\<rparr>))
        | (Some (Inr bs), l) \<Rightarrow> (Some bs, w\<lparr>w_line := l\<rparr>))"

definition WriteFile :: "win_os \<Rightarrow> int \<Rightarrow> byte list \<Rightarrow> (size_t option \<times> win_os) option" where
  "WriteFile w h bs =
     (if h \<notin> set (w_handles w) then Some (None, win_fails ERROR_INVALID_HANDLE w)
      else case line_write (w_line w) bs of
          (None, l) \<Rightarrow> None
        | (Some (Inl e), l) \<Rightarrow> Some (None, win_fails e (w\<lparr>w_line := l\<rparr>))
        | (Some (Inr n), l) \<Rightarrow> Some (Some n, w\<lparr>w_line := l\<rparr>))"

definition WaitForSingleObject :: "win_os \<Rightarrow> int \<Rightarrow> u32 \<Rightarrow> (wait_answer \<times> win_os) option" where
  "WaitForSingleObject w h timeout =
     (if h \<notin> set (w_handles w)
      then Some (WAIT_FAILED ERROR_INVALID_HANDLE, win_fails ERROR_INVALID_HANDLE w)
      else let q = (if timeout = INFINITE then dropWhile (\<lambda>a. a = WAIT_TIMEOUT) (w_waits w) else w_waits w);
               w' = w\<lparr>w_waits := drop 1 q\<rparr>
        in case q of
             [] \<Rightarrow> if timeout = INFINITE then None else Some (WAIT_TIMEOUT, w')
           | WAIT_FAILED e # _ \<Rightarrow> Some (WAIT_FAILED e, win_fails e w')
           | a # _ \<Rightarrow> Some (a, w'))"

section \<open>The device\<close>

record win_device =
  wd_handle :: int
  wd_os :: win_os

definition get_last_error_as_smp_error :: "win_os \<Rightarrow> smp_error" where
  "get_last_error_as_smp_error w = win_error_to_smp_error (w_error w)"

definition win_device_init :: "win_device \<Rightarrow> win_device" where
  "win_device_init d = d\<lparr>wd_handle := INVALID_HANDLE_VALUE\<rparr>"

definition open_dcb :: "dcb \<Rightarrow> dcb" where
  "open_dcb d = d\<lparr>BaudRate := 115200, fParity := False, fOutxCtsFlow := False, fOutxDsrFlow := False,
     fDtrControl := False, fRtsControl := False, ByteSize := 8, Parity := NOPARITY,
     StopBits := ONESTOPBIT, fOutX := False, fInX := False\<rparr>"

definition open_timeouts :: com_timeouts where
  "open_timeouts = \<lparr>ReadIntervalTimeout = MAXDWORD, ReadTotalTimeoutMultiplier = 0,
     ReadTotalTimeoutConstant = 0, WriteTotalTimeoutMultiplier = 0, WriteTotalTimeoutConstant = 0\<rparr>"

text \<open>The three error blocks: the error is read before the handle is closed.\<close>

definition close_failed :: "win_device \<Rightarrow> int \<Rightarrow> win_os \<Rightarrow> (smp_error + int) \<times> win_device" where
  "close_failed d handle w =
     (let ret = get_last_error_as_smp_error w; w = CloseHandle w handle in (Inl ret, d\<lparr>wd_os := w\<rparr>))"

definition win_device_open :: "win_device \<Rightarrow> string \<Rightarrow> (smp_error + int) \<times> win_device" where
  "win_device_open d path =
     (case CreateFile (wd_os d) path of (handle, w) \<Rightarrow>
        if handle = INVALID_HANDLE_VALUE then (Inl (get_last_error_as_smp_error w), d\<lparr>wd_os := w\<rparr>)
        else case GetCommState w handle of (ok, dcb, w) \<Rightarrow>
          if \<not> ok then close_failed d handle w
          else case SetCommState w handle (open_dcb dcb) of (ok, w) \<Rightarrow>
            if \<not> ok then close_failed d handle w
            else case SetCommTimeouts w handle open_timeouts of (ok, w) \<Rightarrow>
              if \<not> ok then close_failed d handle w
              else (Inr 0, d\<lparr>wd_os := w, wd_handle := handle\<rparr>))"

definition win_device_close :: "win_device \<Rightarrow> win_device" where
  "win_device_close d = d\<lparr>wd_os := CloseHandle (wd_os d) (wd_handle d), wd_handle := INVALID_HANDLE_VALUE\<rparr>"

definition win_device_get_fd :: "win_device \<Rightarrow> smp_error + int" where
  "win_device_get_fd d = Inr (wd_handle d)"

fun win_baudrate :: "smp_serial_baudrate \<Rightarrow> nat option" where
  "win_baudrate BAUDRATE_1200 = Some 1200"
| "win_baudrate BAUDRATE_2400 = Some 2400"
| "win_baudrate BAUDRATE_4800 = Some 4800"
| "win_baudrate BAUDRATE_9600 = Some 9600"
| "win_baudrate BAUDRATE_19200 = Some 19200"
| "win_baudrate BAUDRATE_38400 = Some 38400"
| "win_baudrate BAUDRATE_57600 = Some 57600"
| "win_baudrate BAUDRATE_115200 = Some 115200"
| "win_baudrate BAUDRATE_230400 = Some 230400"
| "win_baudrate BAUDRATE_460800 = Some 460800"
| "win_baudrate BAUDRATE_921600 = Some 921600"
| "win_baudrate BAUDRATE_1000000 = Some 1000000"
| "win_baudrate BAUDRATE_2000000 = Some 2000000"
| "win_baudrate BAUDRATE_4000000 = Some 4000000"
| "win_baudrate (BAUDRATE_OTHER n) = None"

fun win_parity :: "smp_serial_parity \<Rightarrow> dcb \<Rightarrow> dcb" where
  "win_parity PARITY_EVEN d = d\<lparr>fParity := True, Parity := EVENPARITY\<rparr>"
| "win_parity PARITY_ODD d = d\<lparr>fParity := True, Parity := ODDPARITY\<rparr>"
| "win_parity PARITY_NONE d = d\<lparr>fParity := False, Parity := NOPARITY\<rparr>"
| "win_parity (PARITY_OTHER n) d = d\<lparr>fParity := False, Parity := NOPARITY\<rparr>"

definition win_device_set_config ::
  "win_device \<Rightarrow> smp_serial_baudrate \<Rightarrow> smp_serial_parity \<Rightarrow> bool
   \<Rightarrow> (smp_error + unit) \<times> win_device" where
  "win_device_set_config d baudrate parity flow_control =
     (case GetCommState (wd_os d) (wd_handle d) of (ok, dcb, w) \<Rightarrow>
        if \<not> ok then (Inl (get_last_error_as_smp_error w), d\<lparr>wd_os := w\<rparr>)
        else case win_baudrate baudrate of
            None \<Rightarrow> (Inl SMP_ERROR_INVALID_PARAM, d\<lparr>wd_os := w\<rparr>)
          | Some br \<Rightarrow>
              let dcb = (win_parity parity (dcb\<lparr>BaudRate := br\<rparr>))\<lparr>fOutX := flow_control, fInX := flow_control\<rparr> in
              case SetCommState w (wd_handle d) dcb of (ok, w) \<Rightarrow>
                (if \<not> ok then Inl (get_last_error_as_smp_error w) else Inr (), d\<lparr>wd_os := w\<rparr>))"

definition transfer_error :: "win_os \<Rightarrow> smp_error" where
  "transfer_error w =
     (if w_error w = ERROR_ACCESS_DENIED then SMP_ERROR_PIPE else get_last_error_as_smp_error w)"

definition win_device_write ::
  "win_device \<Rightarrow> byte list \<Rightarrow> ((smp_error + size_t) \<times> win_device) option" where
  "win_device_write d bs =
     (if length bs > unat MAXDWORD then Some (Inl SMP_ERROR_OVERFLOW, d)
      else case WriteFile (wd_os d) (wd_handle d) bs of
          None \<Rightarrow> None
        | Some (None, w) \<Rightarrow> Some (Inl (transfer_error w), d\<lparr>wd_os := w\<rparr>)
        | Some (Some n, w) \<Rightarrow> Some (Inr n, d\<lparr>wd_os := w\<rparr>))"

definition win_device_read :: "win_device \<Rightarrow> nat \<Rightarrow> (smp_error + byte list) \<times> win_device" where
  "win_device_read d k =
     (if k > unat MAXDWORD then (Inl SMP_ERROR_OVERFLOW, d)
      else case ReadFile (wd_os d) (wd_handle d) k of
          (None, w) \<Rightarrow> (Inl (transfer_error w), d\<lparr>wd_os := w\<rparr>)
        | (Some bs, w) \<Rightarrow> (Inr bs, d\<lparr>wd_os := w\<rparr>))"

definition win_device_wait :: "win_device \<Rightarrow> 32 word \<Rightarrow> ((smp_error + unit) \<times> win_device) option" where
  "win_device_wait d timeout_ms =
     (let timeout = (if sint timeout_ms < 0 then INFINITE else timeout_ms) in
      case WaitForSingleObject (wd_os d) (wd_handle d) timeout of
        None \<Rightarrow> None
      | Some (ret, w) \<Rightarrow>
          Some (case ret of
              WAIT_OBJECT_0 \<Rightarrow> Inr ()
            | WAIT_TIMEOUT \<Rightarrow> Inl SMP_ERROR_TIMEDOUT
            | WAIT_FAILED _ \<Rightarrow>
                if w_error w = ERROR_GEN_FAILURE then Inl SMP_ERROR_PIPE else Inl SMP_ERROR_OTHER
            | WAIT_ABANDONED \<Rightarrow> Inl SMP_ERROR_OTHER, d\<lparr>wd_os := w\<rparr>))"

definition win_ops :: "win_device device_ops" where
  "win_ops = \<lparr>
     dev_init = win_device_init,
     dev_open = (\<lambda>d path. Some (win_device_open d path)),
     dev_close = (\<lambda>d. Some (win_device_close d)),
     dev_get_fd = win_device_get_fd,
     dev_set_config = (\<lambda>d baudrate parity fc. Some (win_device_set_config d baudrate parity fc)),
     dev_write = win_device_write,
     dev_read = (\<lambda>d k. Some (win_device_read d k)),
     dev_wait = win_device_wait\<rparr>"

section \<open>The contract of the context\<close>

definition win_is_open :: "win_device \<Rightarrow> bool" where
  "win_is_open d \<longleftrightarrow> wd_handle d \<in> set (w_handles (wd_os d))"

definition win_sent :: "win_device \<Rightarrow> byte list" where
  "win_sent d = ln_sent (w_line (wd_os d))"

definition win_pending :: "win_device \<Rightarrow> byte list" where
  "win_pending d = ln_pending (w_line (wd_os d))"

lemmas win_views = win_is_open_def win_sent_def win_pending_def win_fails_def

lemma win_read_cases:
  assumes "win_is_open d"
  obtains (failed) e d' where "win_device_read d k = (Inl e, d')" "win_is_open d'"
      "win_sent d' = win_sent d" "win_pending d' = win_pending d"
  | (data) bs d' where "win_device_read d k = (Inr bs, d')" "length bs \<le> k"
      "win_is_open d'" "win_sent d' = win_sent d" "win_pending d = bs @ win_pending d'"
proof (cases "k > unat MAXDWORD")
  case True
  then show thesis by (intro failed [of SMP_ERROR_OVERFLOW d]) (simp_all add: win_device_read_def assms)
next
  case False
  show thesis
    using assms False
  proof (cases rule: line_read_cases [of "w_line (wd_os d)" k])
    case idle
    with assms False show thesis
      by (intro data [of "[]" d]) (simp_all add: win_device_read_def ReadFile_def win_views)
  next
    case (failed e l)
    let ?w = "win_fails e (wd_os d\<lparr>w_line := l\<rparr>)"
    from failed assms False show thesis
      by (intro that(1) [of "transfer_error ?w" "d\<lparr>wd_os := ?w\<rparr>"])
        (simp_all add: win_device_read_def ReadFile_def win_views)
  next
    case (data bs l)
    with assms False show thesis
      by (intro that(2) [of bs "d\<lparr>wd_os := wd_os d\<lparr>w_line := l\<rparr>\<rparr>"])
        (simp_all add: win_device_read_def ReadFile_def win_views)
  qed
qed

lemma win_write_sent:
  assumes "win_is_open d" and "win_device_write d bs = Some (Inr n, d')"
  shows "win_is_open d' \<and> unat n \<le> length bs \<and> win_sent d' = win_sent d @ take (unat n) bs"
  using assms
  by (cases rule: line_write_cases [of "w_line (wd_os d)" bs])
    (auto simp: win_device_write_def WriteFile_def win_views split: if_splits)

lemma win_wait_keeps:
  assumes "win_is_open d" and "win_device_wait d t = Some (r, d')"
  shows "win_is_open d' \<and> win_sent d' = win_sent d \<and> win_pending d' = win_pending d"
  using assms
  by (auto simp: win_device_wait_def WaitForSingleObject_def win_views Let_def
      split: option.splits list.splits wait_answer.splits if_splits)

end
