(* ===== verification/Smp_Win_Spec.thy ===== *)
theory Smp_Win_Spec
  imports Smp_Device_Win32 Smp_Context_Receive Smp_Context_Safe
begin

text \<open>What the functions of the Windows device guarantee.\<close>

section \<open>The contract of the context\<close>

interpretation win: waiting_device win_ops win_is_open win_sent win_pending "\<lambda>_. True"
proof (unfold_locales, goal_cases)
  case (1 d bs n d')
  then show ?case using win_write_sent by (simp add: win_ops_def)
next
  case (2 d k bs d')
  then show ?case by (cases rule: win_read_cases [of d k]) (auto simp: win_ops_def)
next
  case (3 d k e d')
  then show ?case by (cases rule: win_read_cases [of d k]) (auto simp: win_ops_def)
next
  case (4 d k)
  then show ?case by (simp add: win_ops_def)
next
  case (5 d k bs d')
  then show ?case by (cases rule: win_read_cases [of d k]) (auto simp: win_ops_def)
next
  case (6 d t r d')
  then show ?case using win_wait_keeps by (simp add: win_ops_def)
qed

section \<open>Opening and reading\<close>

definition port_ready :: "win_os \<Rightarrow> bool" where
  "port_ready w \<longleftrightarrow> BaudRate (w_dcb w) = 115200 \<and> ByteSize (w_dcb w) = 8 \<and>
     \<not> fParity (w_dcb w) \<and> Parity (w_dcb w) = NOPARITY \<and> StopBits (w_dcb w) = ONESTOPBIT \<and>
     \<not> fOutxCtsFlow (w_dcb w) \<and> \<not> fOutxDsrFlow (w_dcb w) \<and> \<not> fOutX (w_dcb w) \<and> \<not> fInX (w_dcb w) \<and>
     ReadIntervalTimeout (w_timeouts w) = MAXDWORD \<and> ReadTotalTimeoutMultiplier (w_timeouts w) = 0 \<and>
     ReadTotalTimeoutConstant (w_timeouts w) = 0"

text \<open>The first error of the three calls that set up a port.\<close>

definition setup_error :: "win_os \<Rightarrow> win_error option" where
  "setup_error w = List.find (\<lambda>_. True)
     (List.map_filter (\<lambda>q. case q of Some e # _ \<Rightarrow> Some e | _ \<Rightarrow> None)
       [w_getstate w, w_setstate w, w_settimes w])"

lemma answer_cases:
  assumes "h \<in> set (w_handles w)"
  obtains (ok) "answer w h q = (True, w)" "\<forall>e r. q \<noteq> Some e # r"
  | (failed) e r where "answer w h q = (False, win_fails e w)" "q = Some e # r"
proof (cases q)
  case Nil
  then show thesis using assms by (intro ok) (simp_all add: answer_def)
next
  case (Cons a r)
  show thesis
  proof (cases a)
    case None
    with Cons assms show thesis by (intro ok) (simp_all add: answer_def)
  next
    case (Some e)
    with Cons assms show thesis by (intro failed [of e r]) (simp_all add: answer_def)
  qed
qed

lemma win_open_opens:
  assumes "win_device_open d path = (Inr ret, d')"
  shows "win_is_open d'"
  using assms
  by (auto simp: win_device_open_def CreateFile_def GetCommState_def SetCommState_def SetCommTimeouts_def
      answer_def close_failed_def win_views Let_def split: sum.splits if_splits prod.splits list.splits option.splits)

interpretation win_life: managed_device win_ops win_is_open "\<lambda>_. True"
proof (unfold_locales, goal_cases)
  case (2 d path r d')
  then show ?case using win_open_opens by (cases r) (auto simp: win_ops_def)
next
  case (4 d baudrate parity fc s d')
  then show ?case
    by (auto simp: win_ops_def win_device_set_config_def GetCommState_def SetCommState_def answer_def
        win_views Let_def split: if_splits option.splits list.splits prod.splits)
next
  case (5 d bs w d')
  then show ?case
    by (auto simp: win_ops_def win_device_write_def WriteFile_def win_views
        split: if_splits prod.splits option.splits sum.splits)
next
  case (6 d k a d')
  from 6(2) show ?case
    by (cases rule: win_read_cases [where k = k]) (use 6(3) in \<open>auto simp: win_ops_def\<close>)
next
  case (7 d t s d')
  then show ?case using win_wait_keeps by (simp add: win_ops_def)
qed simp_all

text \<open>
  C38: \<open>CreateFile\<close> answers with a valid handle that is not in use. Then opening either succeeds, the
  port at 115200 bauds with 8 bits, no parity, one stop bit and no flow control, and reads that do
  not block; or it reports the error of the first call that failed, and leaves no handle open.
\<close>

theorem win_open_outcome:
  assumes "\<And>h. w_path (wd_os d) path = Inr h \<Longrightarrow> h \<noteq> INVALID_HANDLE_VALUE \<and> h \<notin> set (w_handles (wd_os d))"
  shows "case win_device_open d path of
     (Inr ret, d') \<Rightarrow> ret = 0 \<and> w_path (wd_os d) path = Inr (wd_handle d') \<and> win_is_open d' \<and>
       w_handles (wd_os d') = wd_handle d' # w_handles (wd_os d) \<and> port_ready (wd_os d') \<and>
       win_pending d' = win_pending d
   | (Inl e, d') \<Rightarrow> wd_handle d' = wd_handle d \<and> w_handles (wd_os d') = w_handles (wd_os d) \<and>
       win_pending d' = win_pending d \<and>
       (case w_path (wd_os d) path of
          Inl e' \<Rightarrow> e = win_error_to_smp_error e'
        | Inr h \<Rightarrow> (\<exists>e'. setup_error (wd_os d) = Some e' \<and> e = win_error_to_smp_error e'))"
proof (cases "w_path (wd_os d) path")
  case (Inl e)
  then show ?thesis
    by (simp add: win_device_open_def CreateFile_def win_views get_last_error_as_smp_error_def)
next
  case (Inr h)
  let ?w0 = "wd_os d\<lparr>w_handles := h # w_handles (wd_os d)\<rparr>"
  let ?w1 = "?w0\<lparr>w_getstate := drop 1 (w_getstate ?w0)\<rparr>"
  let ?w2 = "?w1\<lparr>w_setstate := drop 1 (w_setstate ?w1)\<rparr>"
  have new: "h \<noteq> INVALID_HANDLE_VALUE" "filter (\<lambda>x. x \<noteq> h) (w_handles (wd_os d)) = w_handles (wd_os d)"
    using assms Inr by (auto intro!: filter_True)
  let ?w3 = "?w2\<lparr>w_dcb := open_dcb (w_dcb ?w0), w_settimes := drop 1 (w_settimes ?w2)\<rparr>"
  note defs = win_device_open_def CreateFile_def Inr GetCommState_def SetCommState_def
    SetCommTimeouts_def close_failed_def CloseHandle_def win_views setup_error_def new
    get_last_error_as_smp_error_def Let_def map_filter_simps
  have h: "h \<in> set (w_handles ?w1)" "h \<in> set (w_handles ?w2)" "h \<in> set (w_handles ?w3)" by simp_all
  from h(1) show ?thesis
  proof (cases rule: answer_cases [where q = "w_getstate (wd_os d)"])
    case (failed e r)
    then show ?thesis by (simp add: defs)
  next
    case get: ok
    then have get': "(case w_getstate (wd_os d) of Some e # x \<Rightarrow> Some e | _ \<Rightarrow> None) = None"
      by (auto split: list.split option.split)
    from h(2) show ?thesis
    proof (cases rule: answer_cases [where q = "w_setstate (wd_os d)"])
      case (failed e r)
      with get(1) show ?thesis by (simp add: defs get')
    next
      case set: ok
      then have set': "(case w_setstate (wd_os d) of Some e # x \<Rightarrow> Some e | _ \<Rightarrow> None) = None"
        by (auto split: list.split option.split)
      from h(3) show ?thesis
      proof (cases rule: answer_cases [where q = "w_settimes (wd_os d)"])
        case (failed e r)
        with get(1) set(1) show ?thesis by (simp add: defs get' set')
      next
        case ok
        with get(1) set(1) show ?thesis
          by (simp add: defs port_ready_def open_dcb_def open_timeouts_def)
      qed
    qed
  qed
qed

definition sample_win :: "win_error option list \<Rightarrow> win_device" where
  "sample_win q = \<lparr>wd_handle = -1, wd_os = \<lparr>w_error = ERROR_OTHER 0, w_handles = [4, 8],
     w_path = (\<lambda>p. if p = ''COM1'' then Inr 12 else Inl ERROR_FILE_NOT_FOUND),
     w_dcb = \<lparr>BaudRate = 9600, fParity = True, fOutxCtsFlow = True, fOutxDsrFlow = False,
       fDtrControl = True, fRtsControl = True, ByteSize = 7, Parity = ODDPARITY,
       StopBits = TWOSTOPBITS, fOutX = True, fInX = True\<rparr>,
     w_timeouts = \<lparr>ReadIntervalTimeout = 0, ReadTotalTimeoutMultiplier = 1,
       ReadTotalTimeoutConstant = 1, WriteTotalTimeoutMultiplier = 1, WriteTotalTimeoutConstant = 1\<rparr>,
     w_getstate = [], w_setstate = q, w_settimes = [], w_waits = [],
     w_line = \<lparr>ln_in = [], ln_out = [], ln_sent = []\<rparr>\<rparr>\<rparr>"

theorem win_open_outcome_witness:
  "\<exists>d'. win_device_open (sample_win [Some ERROR_BUSY]) ''COM1'' = (Inl SMP_ERROR_BUSY, d') \<and>
     w_handles (wd_os d') = [4, 8]"
proof -
  let ?d = "sample_win [Some ERROR_BUSY]"
  have "case win_device_open ?d ''COM1'' of
     (Inr ret, d') \<Rightarrow> port_ready (wd_os d') | (Inl e, d') \<Rightarrow> w_handles (wd_os d') = [4, 8]"
    using win_open_outcome [of ?d "''COM1''"]
    by (auto simp: sample_win_def INVALID_HANDLE_VALUE_def split: sum.splits)
  moreover have "fst (win_device_open ?d ''COM1'') = Inl SMP_ERROR_BUSY"
    by (simp add: sample_win_def win_device_open_def CreateFile_def INVALID_HANDLE_VALUE_def
        GetCommState_def SetCommState_def answer_def close_failed_def
        get_last_error_as_smp_error_def win_fails_def Let_def)
  ultimately show ?thesis by (cases "win_device_open ?d ''COM1''") auto
qed

text \<open>
  A read returns what the line has, possibly nothing, and never blocks; a port that was removed
  while it was in use is a broken pipe, not a missing permission.
\<close>

theorem win_read_outcome:
  "case win_device_read d k of
     (Inr bs, d') \<Rightarrow> length bs \<le> k \<and> k < 2 ^ 32 \<and> win_is_open d \<and> win_pending d = bs @ win_pending d'
   | (Inl e, d') \<Rightarrow> win_pending d' = win_pending d \<and> e \<noteq> SMP_ERROR_PERM \<or>
       (\<exists>q. ln_in (w_line (wd_os d)) = Inl ERROR_INVALID_ACCESS # q)"
proof (cases "k > unat MAXDWORD \<or> \<not> win_is_open d")
  case True
  then show ?thesis
    by (auto simp: win_device_read_def ReadFile_def win_views transfer_error_def
        get_last_error_as_smp_error_def)
next
  case False
  then have k: "k < 2 ^ 32" and op: "wd_handle d \<in> set (w_handles (wd_os d))"
    by (auto simp: MAXDWORD_def win_is_open_def)
  show ?thesis
  proof (cases rule: line_read_cases [of "w_line (wd_os d)" k])
    case idle
    with False op k show ?thesis
      by (simp add: win_device_read_def ReadFile_def win_views)
  next
    case (data bs l)
    with False op k show ?thesis
      by (simp add: win_device_read_def ReadFile_def win_views)
  next
    case (failed e l)
    have "win_error_to_smp_error e = SMP_ERROR_PERM \<Longrightarrow> e = ERROR_ACCESS_DENIED \<or> e = ERROR_INVALID_ACCESS"
      by (cases e) simp_all
    moreover have "\<exists>q. ln_in (w_line (wd_os d)) = Inl e # q"
      using failed(1) by (auto simp: line_read_def split: list.splits sum.splits)
    ultimately show ?thesis using False op k failed
      by (auto simp: win_device_read_def ReadFile_def win_views transfer_error_def
          get_last_error_as_smp_error_def)
  qed
qed

theorem win_read_outcome_witness:
  "fst (win_device_read ((sample_win [])\<lparr>wd_handle := 4\<rparr>) 8) = Inr []"
proof -
  let ?d = "(sample_win [])\<lparr>wd_handle := 4\<rparr>"
  have "win_is_open ?d" "win_pending ?d = []" "ln_in (w_line (wd_os ?d)) = []"
    by (simp_all add: sample_win_def win_views ln_pending_def)
  moreover from this have "\<not> isl (fst (win_device_read ?d 8))"
    by (simp add: win_device_read_def ReadFile_def line_read_def win_views MAXDWORD_def)
  ultimately show ?thesis
    using win_read_outcome [of ?d 8] by (cases "win_device_read ?d 8") (auto split: sum.splits)
qed

end
