(* ===== verification/Smp_System.thy ===== *)
theory Smp_System
  imports Smp_Hosted Smp_Posix_Config Smp_Avr_Spec Smp_Win_Spec
begin

text \<open>
  Two contexts with their devices: what one sends the other reports. The lemmas on contexts are
  used through their interpretations on the devices of the library.
\<close>

section \<open>Delivery between two hosts\<close>

text \<open>A line on which bytes arrive, in bursts, and no error does.\<close>

definition clean_line :: "posix_device \<Rightarrow> bool" where
  "clean_line d \<longleftrightarrow> (\<forall>a\<in>set (ln_in (os_line (pd_os d))). \<exists>bs. a = Inr bs \<and> bs \<noteq> [])"

lemma posix_read_clean:
  assumes "posix_is_open d" and "clean_line d" and "0 < k"
  obtains (idle) d' where "posix_device_read d k = (Inl SMP_ERROR_WOULD_BLOCK, d')" "posix_pending d' = []"
      "clean_line d'"
  | (data) bs d' where "posix_device_read d k = (Inr bs, d')" "bs \<noteq> []" "posix_is_open d'" "clean_line d'"
proof (cases "ln_in (os_line (pd_os d))")
  case Nil
  with assms(1) show thesis
    by (intro idle [of "snd (posix_device_read d k)"])
      (simp_all add: posix_device_read_def sys_read_def line_read_def posix_views posix_errno_def ln_pending_def
        clean_line_def)
next
  case (Cons a q)
  with assms(2) obtain bs where bs: "a = Inr bs" "bs \<noteq> []" by (auto simp: clean_line_def)
  with Cons assms show thesis
    by (intro data [of "take k bs" "snd (posix_device_read d k)"])
      (auto simp: posix_device_read_def sys_read_def line_read_def posix_views clean_line_def
        split: list.split)
qed

interpretation posix_dry: draining_device "posix_ops_for have_termios have_poll" posix_is_open posix_sent
  posix_pending "\<lambda>_. True" clean_line "\<lambda>k. 0 < k" for have_termios have_poll
proof (unfold_locales, goal_cases)
  case (2 d k a d')
  from 2(1-3) show ?case
    by (cases rule: posix_read_clean) (use 2(4) in \<open>auto simp: posix_ops_def\<close>)
qed simp

interpretation two_hosts: connection posix_ops posix_is_open posix_sent posix_pending "\<lambda>_. True"
  "posix_ops_for have_termios have_poll" posix_is_open posix_sent posix_pending "\<lambda>_. True" clean_line "\<lambda>k. 0 < k"
  for have_termios have_poll
  by unfold_locales

text \<open>
  C1: Delivery between two hosts of the same byte order. When a host has sent some messages, each
  with success, and the bytes it put on the line reach another host in order, in whatever bursts,
  then processing the input there returns success and reports exactly these messages, in order,
  with their identifiers and their arguments (those too large to be sent left out), and no error.
\<close>

theorem host_delivery:
  assumes "plat_ops pa = posix_ops" and "posix_is_open (ctx_device a)" and "ctx_opened a" and "tx_ready a"
    and "\<And>m. m \<in> set ms \<Longrightarrow> sendable pa m" and "send_all pa al a ms = Some (Inr (), a')"
    and "posix_sent (ctx_device a') = posix_sent (ctx_device a) @ posix_pending (ctx_device b)"
    and "plat_ops pb = posix_ops" and "plat_order pb = plat_order pa" and "0 < plat_chunk pb"
    and "posix_is_open (ctx_device b)" and "clean_line (ctx_device b)" and "ctx_opened b"
    and "rx_idle b" and "receivable pb als b ms"
  shows "\<exists>b'. smp_context_process_fd pb als recorder (Some b) = Some (Inr (), Some b') \<and>
    ctx_userdata b' = ctx_userdata b @
      map (\<lambda>m. Received (msgid m) (Some (filter arg_fits (the (message_args m))))) ms"
  by (rule two_hosts.delivery [OF assms(1-7) assms(8) [unfolded posix_ops_for_all [symmetric]] assms(9-15)])

lemma sample_send:
  assumes "dev_write (plat_ops plat) dev (frame_of plat sample_message) =
      Some (Inr (of_nat (length (frame_of plat sample_message))), dev')"
  shows "\<exists>rel c'. smp_context_send_message plat granting (Some (sample_context dev)) (Some sample_message) =
    Some (Inr (), rel, Some c') \<and> ctx_device c' = dev'"
proof -
  let ?p = "outgoing plat sample_message sample_args"
  have len: "length ?p = 22"
    by (simp add: outgoing_def sample_facts message_wire_def sample_args_wire_length)
  have "unat (compute_payload_size ?p) \<le> 2 * 22 + 4"
    using unat_compute_payload_size [of ?p] length_filter_le [of is_magic_byte ?p] len by simp
  then have ok: "msg_refusal granting (sample_context dev) 22 = None"
      "serial_refusal granting (sample_context dev) ?p = None" "ctx_opened (sample_context dev)"
    by (simp_all add: msg_refusal_def serial_refusal_def sample_context_def SIZEOF_BUFFER_def PTRDIFF_MAX_def)
  have frame: "frame_of plat sample_message = serial_frame ?p"
    by (simp add: frame_of_def sample_message_args)
  have small: "length (args_wire (plat_order plat) sample_args) < 2 ^ 32"
    by (simp add: sample_args_wire_length)
  from send_message_cases [OF ok(3) sample_context_ready(2) sample_message_args small, of granting]
  show ?thesis
  proof cases
    case (3 data txbuf)
    with assms show ?thesis by (simp add: write_frame_def frame sample_context_def)
  qed (use ok in \<open>simp_all add: sample_args_wire_length\<close>)
qed

definition host_platform :: "posix_device platform" where
  "host_platform = \<lparr>plat_ops = posix_ops, plat_order = LittleEndian, plat_chunk = 16, plat_avr = False\<rparr>"

definition host_device :: "(errno + byte list) list \<Rightarrow> (errno + nat) list \<Rightarrow> posix_device" where
  "host_device ins outs =
     \<lparr>pd_fd = 0, pd_os = sample_os\<lparr>os_line := \<lparr>ln_in = ins, ln_out = outs, ln_sent = []\<rparr>\<rparr>\<rparr>"

lemma sample_frame_length: "length (frame_of plat sample_message) \<le> 48" "frame_of plat sample_message \<noteq> []"
proof -
  let ?p = "outgoing plat sample_message sample_args"
  have "length ?p = 22"
    by (simp add: outgoing_def sample_facts message_wire_def sample_args_wire_length)
  then show "length (frame_of plat sample_message) \<le> 48"
    using serial_frame_fits [of ?p] length_filter_le [of is_magic_byte ?p]
    by (simp add: frame_of_def sample_message_args)
  show "frame_of plat sample_message \<noteq> []" by (simp add: frame_of_def serial_frame_def)
qed

lemma sample_receiver:
  "rx_idle (sample_context dev)" "receivable plat (\<lambda>_. granting) (sample_context dev) [sample_message]"
  "sendable plat sample_message"
proof -
  show send: "sendable plat sample_message"
    by (simp add: sendable_def sample_message_args sample_args_wire_length)
  show "rx_idle (sample_context dev)"
    using sample_context_ready [of dev]
    by (simp add: rx_idle_def sample_context_def decoder_inv_def sized_def PTRDIFF_MAX_def)
  show "receivable plat (\<lambda>_. granting) (sample_context dev) [sample_message]"
    using send
    by (simp add: receivable_def sane_def rx_room_def decoder_fits_def sample_context_def outgoing_def
        sample_message_args sample_facts message_wire_def sample_args_wire_length empty_message_facts)
qed

definition board_platform :: "setbaud \<Rightarrow> avr_device platform" where
  "board_platform setbaud = \<lparr>plat_ops = avr_ops setbaud, plat_order = LittleEndian, plat_chunk = 1, plat_avr = True\<rparr>"

lemma host_sends_sample:
  obtains a' where "send_all host_platform granting (sample_context (host_device [] [Inr 100])) [sample_message] =
      Some (Inr (), a')"
    and "posix_sent (ctx_device a') = frame_of host_platform sample_message"
proof -
  let ?f = "frame_of host_platform sample_message" and ?a = "host_device [] [Inr 100]"
  have len: "min 100 (min (length ?f) PTRDIFF_MAX) = length ?f" "length ?f \<le> 100"
    using sample_frame_length(1) [of host_platform] by (simp_all add: PTRDIFF_MAX_def)
  obtain d where w: "dev_write (plat_ops host_platform) ?a ?f = Some (Inr (of_nat (length ?f)), d)"
      "posix_sent d = ?f"
    using len
    by (auto simp: host_platform_def posix_ops_def posix_device_write_def sys_write_def line_write_def
        host_device_def posix_views sample_os_def)
  from sample_send [OF w(1)] obtain rel a' where
    "smp_context_send_message host_platform granting (Some (sample_context ?a)) (Some sample_message) =
      Some (Inr (), rel, Some a')" "ctx_device a' = d" by blast
  with w(2) show thesis by (intro that [of a']) simp_all
qed

lemma host_device_facts:
  "posix_is_open (host_device ins outs)" "posix_sent (host_device ins outs) = []"
  by (simp_all add: host_device_def posix_views sample_os_def)

lemma sample_context_facts:
  "ctx_device (sample_context e) = e" "ctx_opened (sample_context e)" "ctx_userdata (sample_context e) = []"
  by (simp_all add: sample_context_def)

lemma platform_facts:
  "plat_ops host_platform = posix_ops" "plat_chunk host_platform = 16"
  "plat_ops (board_platform setbaud) = avr_ops setbaud" "plat_chunk (board_platform setbaud) = 1"
  "plat_order (board_platform setbaud) = plat_order host_platform"
  by (simp_all add: host_platform_def board_platform_def)

theorem host_delivery_witness:
  "\<exists>b'. smp_context_process_fd host_platform (\<lambda>_. granting) recorder
       (Some (sample_context (host_device [Inr (frame_of host_platform sample_message)] []))) =
       Some (Inr (), Some b') \<and>
     ctx_userdata b' = [Received 33 (Some sample_args)]"
proof -
  let ?f = "frame_of host_platform sample_message"
  let ?b = "host_device [Inr ?f] []"
  obtain a' where a': "send_all host_platform granting (sample_context (host_device [] [Inr 100])) [sample_message] =
      Some (Inr (), a')" "posix_sent (ctx_device a') = ?f" by (rule host_sends_sample)
  have pend: "posix_pending ?b = ?f" "clean_line ?b"
    using sample_frame_length(2) by (simp_all add: host_device_def posix_views ln_pending_def clean_line_def)
  have "\<exists>b'. smp_context_process_fd host_platform (\<lambda>_. granting) recorder (Some (sample_context ?b)) =
      Some (Inr (), Some b') \<and>
    ctx_userdata b' = ctx_userdata (sample_context ?b) @
      map (\<lambda>m. Received (msgid m) (Some (filter arg_fits (the (message_args m))))) [sample_message]"
    by (rule host_delivery [where pa = host_platform and al = granting and a' = a' and
          a = "sample_context (host_device [] [Inr 100])"])
      (use a' pend sample_receiver sample_context_ready(2)
        in \<open>simp_all add: host_device_facts sample_context_facts platform_facts\<close>)
  then show ?thesis by (auto simp: sample_context_facts sample_message_args sample_facts)
qed

section \<open>Delivery to a microcontroller\<close>

lemma read_loop_quiet_state:
  "read_loop n d k = (bs, d') \<Longrightarrow> avr_irq d = [] \<Longrightarrow> avr_irq d' = [] \<and> avr_lost d' = avr_lost d"
proof (induction n d k arbitrary: bs d' rule: read_loop.induct)
  case (2 n d k)
  have va: "volatile_access d = d" by (simp add: volatile_access_def 2(3))
  show ?case
  proof (cases "rindex (avr_uarts d ! n) = windex (avr_uarts d ! n)")
    case True
    with 2(2,3) show ?thesis by (simp add: va Let_def)
  next
    case False
    obtain b u where t: "ring_take (avr_uarts d ! n) = (b, u)" by fastforce
    obtain bs1 where run: "read_loop n (d\<lparr>avr_uarts := (avr_uarts d)[n := u]\<rparr>) k = (bs1, d')"
      using 2(2) False t by (auto simp: Let_def va split: prod.splits)
    from 2(1) [of d, OF va [symmetric] False t [symmetric] run] 2(3) show ?thesis by simp
  qed
qed simp

lemma avr_read_quiet:
  assumes "avr_is_open d" and "avr_irq d = []" and "avr_healthy d"
  obtains bs d' where "avr_device_read d k = Some (Inr bs, d')" "bs = take k (avr_pending d)"
    "avr_is_open d'" "avr_irq d' = []" "avr_healthy d'" "avr_pending d = bs @ avr_pending d'"
proof -
  let ?n = "nat (avr_fd d)"
  obtain bs d' where run: "read_loop ?n d k = (bs, d')" by fastforce
  have ok: "avr_ok ?n d" using assms(1) by (simp add: avr_is_open_def)
  have took: "avr_took ?n bs d d'" using read_loop_took [OF ok run] by simp
  have quiet: "avr_irq d' = []" "avr_lost d' = avr_lost d"
    using read_loop_quiet_state [OF run assms(2)] by simp_all
  have "bs = take k (avr_pending d)"
    using read_loop_quiet [OF run ok assms(2)] assms(2)
    by (simp add: avr_pending_def avr_bytes_def arrivals_for_def)
  moreover have "avr_healthy d'"
    using took quiet(2) assms(3) by (simp add: avr_took_def avr_healthy_def)
  ultimately show thesis
    using avr_took_views [OF assms(1) took] quiet(1) run
    by (intro that [of bs d']) (simp_all add: avr_device_read_def get_device_open [OF assms(1)])
qed

lemma read_op: "dev_read (avr_ops setbaud) d k = avr_device_read d k"
  by (simp add: avr_ops_def)

text \<open>A board on which nothing arrives while it is read.\<close>

interpretation avr_dry: draining_device "avr_ops setbaud" avr_is_open avr_sent avr_pending avr_healthy
  "\<lambda>d. avr_irq d = [] \<and> avr_healthy d" "\<lambda>k. 0 < k" for setbaud
proof (unfold_locales, goal_cases)
  case (2 d k a d')
  then have quiet: "avr_irq d = []" "avr_healthy d" by simp_all
  obtain bs d1 where rd: "avr_device_read d k = Some (Inr bs, d1)" "bs = take k (avr_pending d)"
    "avr_irq d1 = []" "avr_healthy d1" "avr_pending d = bs @ avr_pending d1"
    using avr_read_quiet [OF 2(1) quiet] .
  have same: "a = Inr bs" "d1 = d'" using rd(1) 2(4) by (simp_all add: read_op)
  show ?case
  proof (cases bs)
    case Nil
    with rd(2) 2(3) have "avr_pending d = []" by (cases "avr_pending d") simp_all
    with rd(3-5) same Nil show ?thesis by simp
  qed (use rd(3,4) same in simp)
qed simp

text \<open>
  C10: What reaches a microcontroller, whose reads are interrupted by arriving bytes. A host has sent
  some messages, each with success, and the bytes it put on the line arrive at a UART of the
  board: some may be in its ring buffer, the others still come. Reading until there is nothing
  ends; if no byte was lost by then, what was read and what is left are, byte for byte and in
  order, the frames of these messages. If all had arrived and no byte was lost before, none is lost
  by reading, no read fails, and what was read is all of them. (The statement stops at the bytes:
  the number types of the board's compiler are not those of the host.)
\<close>

theorem host_to_avr_bytes:
  assumes "plat_ops pa = posix_ops" and "posix_is_open (ctx_device a)" and "ctx_opened a" and "tx_ready a"
    and "\<And>m. m \<in> set ms \<Longrightarrow> sendable pa m" and "send_all pa al a ms = Some (Inr (), a')"
    and "posix_sent (ctx_device a') = posix_sent (ctx_device a) @ avr_pending d"
    and "avr_is_open d" and "0 < k"
  shows "\<exists>chunks r d'. drains (avr_ops setbaud) k d chunks r d' \<and>
    (avr_healthy d' \<longrightarrow> concat (map (frame_of pa) ms) = concat chunks @ avr_pending d') \<and>
    (avr_irq d = [] \<and> avr_healthy d \<longrightarrow>
      avr_healthy d' \<and> r = Inr () \<and> concat chunks = concat (map (frame_of pa) ms))"
proof -
  have frames: "avr_pending d = concat (map (frame_of pa) ms)"
    using posix.send_all_sent [OF assms(1-6)] assms(7) by simp
  from avr.drains_exists [OF assms(8)] obtain chunks r d' where
    dr: "drains (avr_ops setbaud) k d chunks r d'" by blast
  have pending: "concat (map (frame_of pa) ms) = concat chunks @ avr_pending d'" if "avr_healthy d'"
    unfolding frames [symmetric] using avr.drains_pending [OF dr assms(8)] that by blast
  have "avr_healthy d' \<and> r = Inr () \<and> concat chunks = concat (map (frame_of pa) ms)"
    if "avr_irq d = [] \<and> avr_healthy d"
    using avr_dry.drains_clean [OF dr assms(8) that assms(9)] pending by (metis append_Nil2)
  with dr pending show ?thesis by blast
qed

theorem host_to_avr_bytes_witness:
  "\<exists>chunks d'. drains (avr_ops (\<lambda>n. (0, 8, False))) 1 (sample_avr 64 (frame_of host_platform sample_message) [])
       chunks (Inr ()) d' \<and> concat chunks = frame_of host_platform sample_message"
proof -
  let ?f = "frame_of host_platform sample_message" and ?sb = "\<lambda>n. (0, 8, False)"
  let ?b = "sample_avr 64 ?f []"
  obtain a' where a': "send_all host_platform granting (sample_context (host_device [] [Inr 100])) [sample_message] =
      Some (Inr (), a')" "posix_sent (ctx_device a') = ?f" by (rule host_sends_sample)
  have b: "avr_is_open ?b" "avr_pending ?b = ?f" "avr_irq ?b = []" "avr_healthy ?b"
    using sample_frame_length(1) [of host_platform] sample_avr_open [of 64 ?f "[]"]
      sample_avr_pending [of 64 ?f]
    by (simp_all add: sample_avr_def avr_healthy_def)
  have "\<exists>chunks r d'. drains (avr_ops ?sb) 1 ?b chunks r d' \<and>
    (avr_healthy d' \<longrightarrow> concat (map (frame_of host_platform) [sample_message]) = concat chunks @ avr_pending d') \<and>
    (avr_irq ?b = [] \<and> avr_healthy ?b \<longrightarrow>
      avr_healthy d' \<and> r = Inr () \<and> concat chunks = concat (map (frame_of host_platform) [sample_message]))"
    by (rule host_to_avr_bytes [where al = granting and a' = a' and
          a = "sample_context (host_device [] [Inr 100])"])
      (use a' b sample_receiver sample_context_ready(2)
        in \<open>simp_all add: host_device_facts sample_context_facts platform_facts\<close>)
  with b show ?thesis by auto
qed

section \<open>The life of a context on each device\<close>

text \<open>
  C14: On a host, whatever sequence of calls an application makes, and whatever the system answers, a
  context that is opened has a descriptor that is: no call reads from, writes to, waits for or
  closes a descriptor that was closed before. The callbacks of the application may make calls of
  their own on the context, any number of them, and change the data of the application, but
  they must not close the context or process input.
\<close>

theorem host_context_invariant:
  assumes "plat_ops plat = posix_ops" and "restrained plat cbs" and "api_reachable (\<lambda>_. True) plat cbs c"
    and "ctx_opened c"
  shows "0 \<le> pd_fd (ctx_device c) \<and> nat (pd_fd (ctx_device c)) \<in> set (os_fds (pd_os (ctx_device c)))"
  using posix_life.life_safe [OF api_reachable_living [OF assms(3,2), unfolded assms(1)]] assms(4)
  by (simp add: posix_is_open_def fd_open_def)

lemma restrained_recorder: "restrained plat recorder"
proof -
  have "rtranclp (inner_call plat) c (c\<lparr>ctx_userdata := ctx_userdata c @ [e]\<rparr>)" for c and e :: event
    by (intro r_into_rtranclp inner_userdata)
  then show ?thesis by (simp add: restrained_def recorder_def)
qed

text \<open>The application that answers sends from its callback.\<close>

lemma restrained_echo: "restrained plat (echo plat al)"
proof -
  have "rtranclp (inner_call plat) c (echo_message plat al c m)" for c m
  proof (cases "\<exists>ret rel c'. smp_context_send_message plat al (Some c) (Some m) = Some (ret, rel, Some c')")
    case True
    then obtain ret rel c' where send: "smp_context_send_message plat al (Some c) (Some m) = Some (ret, rel, Some c')"
      by blast
    then have "inner_call plat c c'" by (rule inner_send)
    then have "rtranclp (inner_call plat) c (c'\<lparr>ctx_userdata := u\<rparr>)" for u
      using inner_userdata by (rule converse_rtranclp_into_rtranclp [OF _ r_into_rtranclp])
    then show ?thesis by (simp add: echo_message_def send)
  qed (auto simp: echo_message_def split: option.split prod.split)
  then show ?thesis by (auto simp: restrained_def echo_def intro: inner_userdata)
qed

lemma new_context:
  assumes "\<not> plat_avr plat"
  obtains c where "smp_context_new plat granting dev (Some cbs) u = Some c"
    and "ctx_device c = dev_init (plat_ops plat) dev" and "\<not> ctx_opened c"
proof -
  obtain dec where
    "smp_serial_protocol_decoder_new False (al_decoder granting) (al_decoder_buf granting) 0 = Some dec"
    by (auto simp: smp_serial_protocol_decoder_new_def decoder_init_def
        decoder_set_capacity_def zeroed_decoder_def SIZEOF_DECODER_def DEFAULT_MAXIMUM_DECODER_BUFFER_SIZE_def
        DEFAULT_BUFFER_SIZE_def PTRDIFF_MAX_def)
  with assms show thesis
    by (intro that [of "smp_context_init plat (cleared_context dev u) dec u False"])
      (simp_all add: smp_context_new_def SIZEOF_CONTEXT_def PTRDIFF_MAX_def smp_context_init_def cleared_context_def)
qed

text \<open>On the AVR such a context is never created: the first buffer of the decoder exceeds its limit.\<close>

theorem avr_context_new_fails:
  assumes "plat_avr plat"
  shows "smp_context_new plat al dev cbs u = None"
proof -
  have "smp_serial_protocol_decoder_new True alloc_struct alloc_buf 0 = None" for alloc_struct alloc_buf
    by (auto simp: smp_serial_protocol_decoder_new_def decoder_init_def decoder_set_capacity_def
        zeroed_decoder_def DEFAULT_MAXIMUM_DECODER_BUFFER_SIZE_def DEFAULT_BUFFER_SIZE_def)
  with assms show ?thesis by (auto simp: smp_context_new_def split: option.split)
qed

theorem avr_context_new_fails_witness:
  "smp_context_new (board_platform (\<lambda>n. (0, 8, False))) granting (sample_avr 64 [] []) (Some recorder) [] = None"
  by (rule avr_context_new_fails) (simp add: board_platform_def)

theorem host_context_invariant_witness:
  "\<exists>c. api_reachable (\<lambda>_. True) host_platform (echo host_platform granting) c \<and> ctx_opened c \<and>
     nat (pd_fd (ctx_device c)) \<in> set (os_fds (pd_os (ctx_device c)))"
proof -
  let ?d = "\<lparr>pd_fd = 7, pd_os = sample_os\<rparr>" and ?echo = "echo host_platform granting"
  have "\<not> plat_avr host_platform" by (simp add: host_platform_def)
  then obtain c where c: "smp_context_new host_platform granting ?d (Some ?echo) ([], []) = Some c"
    "ctx_device c = dev_init (plat_ops host_platform) ?d" "\<not> ctx_opened c" by (rule new_context)
  have dev: "ctx_device c = \<lparr>pd_fd = -1, pd_os = sample_os\<rparr>"
    by (simp add: c(2) platform_facts posix_ops_def posix_device_init_def)
  have "\<exists>d. posix_device_open \<lparr>pd_fd = -1, pd_os = sample_os\<rparr> ''tty'' = (Inr 3, d)"
    by (simp add: posix_device_open_def sys_open_def sample_os_def lowest_fd_def sys_isatty_def fd_open_def
        open_terminal_def sys_tcgetattr_def sys_tcsetattr_def scripted_def Let_def)
  then obtain d where o: "posix_device_open \<lparr>pd_fd = -1, pd_os = sample_os\<rparr> ''tty'' = (Inr 3, d)" by blast
  let ?c = "c\<lparr>ctx_device := d, ctx_opened := True\<rparr>"
  have "smp_context_open host_platform (Some c) (Some ''tty'') = Some (Inr (), Some ?c)"
    by (simp add: smp_context_open_def c(3) dev platform_facts posix_ops_def o Let_def)
  then have "api_reachable (\<lambda>_. True) host_platform ?echo ?c"
    by (intro called [OF created [OF TrueI c(1)]] call_inner [OF inner_open])
  with host_context_invariant [OF platform_facts(1) restrained_echo this] show ?thesis
    by (intro exI [of _ ?c]) simp
qed

text \<open>
  Configuring a context that was not opened is refused on a host, but on a microcontroller it
  indexes the table of UARTs with -1: the test of the descriptor is against its upper bound only,
  and the context does not test whether it is opened.
\<close>

theorem unopened_config:
  assumes "plat_ops plat = avr_ops setbaud" and "plat_ops plat' = posix_ops"
  shows "(\<forall>storage sz cbs u dec stx mtx mrx c.
      smp_context_new_from_static plat (Some storage) sz (Some cbs) u dec stx mtx mrx = Some c \<longrightarrow>
      smp_context_set_serial_config plat (Some c) baudrate parity fc = None) \<and>
    (\<forall>al dev cbs u c. smp_context_new plat' al dev (Some cbs) u = Some c \<longrightarrow>
      (\<exists>c'. smp_context_set_serial_config plat' (Some c) baudrate parity fc =
        Some (Inl SMP_ERROR_NOT_SUPPORTED, Some c')))"
proof (intro conjI allI impI)
  fix storage sz cbs u dec stx mtx mrx c
  assume "smp_context_new_from_static plat (Some storage) sz (Some cbs) u dec stx mtx mrx = Some c"
  then have "avr_fd (ctx_device c) = -1"
    using assms(1)
    by (auto simp: smp_context_new_from_static_def smp_context_init_def avr_ops_def
        avr_device_init_def split: if_splits option.splits)
  with assms(1) show "smp_context_set_serial_config plat (Some c) baudrate parity fc = None"
    by (simp add: smp_context_set_serial_config_def avr_ops_def avr_device_set_config_def get_device_from_fd_def)
next
  fix al dev cbs u c
  assume "smp_context_new plat' al dev (Some cbs) u = Some c"
  then have "pd_fd (ctx_device c) = -1"
    using assms(2)
    by (auto simp: smp_context_new_def smp_context_init_def cleared_context_def posix_ops_def
        posix_device_init_def split: if_splits option.splits)
  with assms(2) show "\<exists>c'. smp_context_set_serial_config plat' (Some c) baudrate parity fc =
      Some (Inl SMP_ERROR_NOT_SUPPORTED, Some c')"
    by (simp add: smp_context_set_serial_config_def posix_ops_def posix_device_set_config_def
        sys_isatty_def fd_open_def)
qed

end
