(* ===== verification/Smp_System_Noise.thy ===== *)
theory Smp_System_Noise
  imports Smp_System
begin

text \<open>
  A host that reads from a line on which some frames were damaged: how the decoder, the parser and the
  callbacks of the context act together when not all that was sent arrives.
\<close>

text \<open>
  C7: Recovery from damage: whatever frames arrive at a host, in whatever bursts and with any bytes but
  the start byte between them, those whose checksum fails are reported as one bad message each, all the
  others as their messages, in the order in which they arrived; processing the input succeeds and leaves
  the decoder between two frames, with an empty message for the next one. It does so in every
  configuration of the POSIX device.
\<close>

theorem host_noisy_line:
  assumes "plat_ops plat = posix_ops_for have_termios have_poll" and "0 < plat_chunk plat" and "\<forall>k. sane (al_decoder_buf (als k))"
    and "posix_is_open (ctx_device c)" and "clean_line (ctx_device c)" and "ctx_opened c"
    and "rx_idle c" and "noisy_ok plat als c items"
    and "posix_pending (ctx_device c) = noisy_bytes (plat_order plat) items"
  shows "\<exists>c'. smp_context_process_fd plat als recorder (Some c) = Some (Inr (), Some c') \<and>
    ctx_userdata c' = ctx_userdata c @ noisy_journal items \<and>
    dec_state (ctx_decoder c') = WAIT_HEADER \<and> rx_ready c' \<and> posix_pending (ctx_device c') = []"
  by (rule posix_dry.process_fd_clean [OF assms(1,4,5,2,6,7,3,8,9)])

text \<open>Noise, a frame with a wrong checksum, then a message, in two bursts.\<close>

definition noisy_items :: "(byte list \<times> line_item) list" where
  "noisy_items = [([0x00], Inl [0x41, 0x42]), ([], Inr (33, sample_args))]"

definition noisy_device :: "poll_answer list \<Rightarrow> posix_device" where
  "noisy_device polls = \<lparr>pd_fd = 0, pd_os = sample_os\<lparr>os_polls := polls,
     os_line := \<lparr>ln_in = [Inr [0x00, START_BYTE, 0x41, 0x42, END_BYTE],
       Inr (serial_frame (message_wire LittleEndian 33 sample_args))], ln_out = [], ln_sent = []\<rparr>\<rparr>\<rparr>"

lemma noisy_device_facts:
  "posix_is_open (noisy_device polls)" "clean_line (noisy_device polls)"
  "os_polls (pd_os (noisy_device polls)) = polls"
  by (simp_all add: noisy_device_def sample_os_def posix_views clean_line_def serial_frame_def)

lemma noisy_items_arrive:
  "noisy_ok host_platform (\<lambda>_. granting) (sample_context d) noisy_items"
  "posix_pending (noisy_device polls) = noisy_bytes (plat_order host_platform) noisy_items"
proof -
  let ?f = "serial_frame (message_wire LittleEndian 33 sample_args)"
  have plain: "\<not> is_magic_byte 0x41" "\<not> is_magic_byte 0x42" "START_BYTE \<noteq> 0x00"
    by (simp_all add: is_magic_byte_def START_BYTE_def END_BYTE_def ESC_BYTE_def)
  have "noisy_bytes LittleEndian noisy_items = [0x00, START_BYTE, 0x41, 0x42, END_BYTE] @ ?f"
    using plain by (simp add: noisy_bytes_def noisy_items_def line_frame_payload) (simp add: line_frame_def)
  then show "posix_pending (noisy_device polls) = noisy_bytes (plat_order host_platform) noisy_items"
    by (simp add: host_platform_def) (simp add: noisy_device_def posix_views ln_pending_def)
  show "noisy_ok host_platform (\<lambda>_. granting) (sample_context d) noisy_items"
    using plain sample_args_fit
    by (simp add: noisy_ok_def noisy_items_def line_result_def compute_checksum_def args_valid_def
        sample_args_wire_length rx_room_def decoder_fits_def sample_context_def message_wire_def sample_facts
        empty_message_facts)
qed

lemma granting_sane: "sane (al_decoder_buf granting)"
  by (simp add: sane_def)

lemma noisy_items_journal:
  "noisy_journal noisy_items = [Failed SMP_ERROR_BAD_MESSAGE, Received 33 (Some sample_args)]"
  by (simp add: noisy_journal_def noisy_items_def item_report_def)

theorem host_noisy_line_witness:
  "\<exists>c'. smp_context_process_fd host_platform (\<lambda>_. granting) recorder
      (Some (sample_context (host_device [Inr [0x00, START_BYTE, 0x41, 0x42, END_BYTE],
        Inr (serial_frame (message_wire LittleEndian 33 sample_args))] []))) = Some (Inr (), Some c') \<and>
    ctx_userdata c' = [Failed SMP_ERROR_BAD_MESSAGE, Received 33 (Some sample_args)]"
proof -
  have device: "host_device [Inr [0x00, START_BYTE, 0x41, 0x42, END_BYTE],
        Inr (serial_frame (message_wire LittleEndian 33 sample_args))] [] = noisy_device []"
    by (simp add: host_device_def noisy_device_def sample_os_def)
  show ?thesis
    unfolding device
    using host_noisy_line [of host_platform True True "\<lambda>_. granting" "sample_context (noisy_device [])" noisy_items]
    by (auto simp: sample_context_facts platform_facts noisy_device_facts noisy_items_arrive granting_sane
        sample_receiver(1) posix_ops_for_all noisy_items_journal)
qed

end
