(* ===== verification/Smp_System_Desktop.thy ===== *)
theory Smp_System_Desktop
  imports Smp_System_Noise
begin

text \<open>
  \<open>smp_context_wait_and_process\<close> on the desktop devices, and the messages that a host sends to one
  that runs Windows or gets from it.
\<close>

section \<open>Waiting on a POSIX host\<close>

lemma posix_wait_line:
  "posix_device_wait d t = Some (r, d') \<Longrightarrow> posix_is_open d \<Longrightarrow> os_line (pd_os d') = os_line (pd_os d)"
  by (auto simp: posix_device_wait_def sys_poll_def posix_views Let_def
      split: option.splits list.splits poll_answer.splits if_splits)

interpretation posix_attended: attended_device "posix_ops_for have_termios have_poll" posix_is_open
  posix_sent posix_pending "\<lambda>_. True" clean_line "\<lambda>k. 0 < k" for have_termios have_poll
proof (unfold_locales, goal_cases)
  case (1 d t r d')
  then show ?case
    using posix_wait_line [of d t r d'] by (cases have_poll) (auto simp: clean_line_def posix_ops_def)
qed

text \<open>
  C9: Waiting and processing on a POSIX host, in every configuration of its device, for an application
  that keeps what it is told, on a line that has no read error and on which whole frames arrive for
  which there is room, some of them perhaps damaged. The call fails to return only when it was given
  no timeout and \<open>poll\<close> has nothing to report, ever. Otherwise it returns what the wait returned; where
  there is no \<open>poll\<close> that is \<open>SMP_ERROR_NOT_SUPPORTED\<close>. When it is success, an event was seen and all
  that was pending has been reported, in order; when it is an error, nothing was read, decoded
  or reported.
\<close>

theorem host_wait_and_process:
  assumes "plat_ops plat = posix_ops_for have_termios have_poll" and "0 < plat_chunk plat"
    and "\<forall>k. sane (al_decoder_buf (als k))" and "posix_is_open (ctx_device c)"
    and "clean_line (ctx_device c)" and "ctx_opened c" and "rx_idle c" and "noisy_ok plat als c items"
    and "posix_pending (ctx_device c) = noisy_bytes (plat_order plat) items"
  shows "let silent = have_poll \<and> sint t < 0 \<and> set (os_polls (pd_os (ctx_device c))) \<subseteq> {PollNothing} in
    case smp_context_wait_and_process plat als recorder (Some c) t of
      None \<Rightarrow> silent
    | Some (ret, ctx) \<Rightarrow> \<not> silent \<and>
        (\<exists>d. dev_wait (posix_ops_for have_termios have_poll) (ctx_device c) t = Some (ret, d)) \<and>
        (\<not> have_poll \<longrightarrow> ret = Inl SMP_ERROR_NOT_SUPPORTED) \<and>
        (\<exists>c'. ctx = Some c' \<and> (case ret of
            Inr _ \<Rightarrow> (\<exists>evs. PollEvents evs \<in> set (os_polls (pd_os (ctx_device c))) \<and> POLLERR \<notin> evs) \<and>
              ctx_userdata c' = ctx_userdata c @ noisy_journal items \<and>
              dec_state (ctx_decoder c') = WAIT_HEADER \<and> posix_pending (ctx_device c') = []
          | Inl e \<Rightarrow> ctx_userdata c' = ctx_userdata c \<and> ctx_decoder c' = ctx_decoder c \<and>
              posix_pending (ctx_device c') = posix_pending (ctx_device c)))"
proof -
  note run = posix_attended.wait_and_process_clean [OF assms(1,4,5,2,6,7,3,8,9), of t]
  show ?thesis
  proof (cases have_poll)
    case False
    with run show ?thesis by (simp add: Let_def)
  next
    case poll: True
    then have ops: "dev_wait (posix_ops_for have_termios have_poll) = posix_device_wait" by (simp add: posix_ops_def)
    note wait = posix_wait_outcome [OF assms(4), of t] and run = run [unfolded ops]
    show ?thesis
    proof (cases "posix_device_wait (ctx_device c) t")
      case None
      with wait run poll show ?thesis by (simp add: Let_def)
    next
      case (Some w)
      obtain r d where w: "w = (r, d)" by (cases w)
      have returns: "\<not> (sint t < 0 \<and> set (os_polls (pd_os (ctx_device c))) \<subseteq> {PollNothing})"
        using wait Some by auto
      show ?thesis
      proof (cases r)
        case (Inl e)
        with run Some w returns poll ops show ?thesis by (simp add: Let_def)
      next
        case (Inr u)
        from wait Some w Inr
        have "\<exists>evs. PollEvents evs \<in> set (os_polls (pd_os (ctx_device c))) \<and> POLLERR \<notin> evs" by simp
        with run Some w Inr returns poll ops show ?thesis by (auto simp: Let_def)
      qed
    qed
  qed
qed

text \<open>The line of two bursts, polled without a timeout; then never anything to report.\<close>

theorem host_wait_and_process_witness:
  "(\<exists>c'. smp_context_wait_and_process host_platform (\<lambda>_. granting) recorder
      (Some (sample_context (noisy_device [PollNothing, PollEvents {POLLIN}]))) (-1) = Some (Inr (), Some c') \<and>
    ctx_userdata c' = [Failed SMP_ERROR_BAD_MESSAGE, Received 33 (Some sample_args)]) \<and>
   smp_context_wait_and_process host_platform (\<lambda>_. granting) recorder
      (Some (sample_context (noisy_device [PollNothing]))) (-1) = None"
proof -
  let ?run = "\<lambda>polls. smp_context_wait_and_process host_platform (\<lambda>_. granting) recorder
      (Some (sample_context (noisy_device polls))) (-1)"
  have facts: "plat_ops host_platform = posix_ops_for True True" "plat_chunk host_platform = 16"
    using platform_facts by (simp_all add: posix_ops_for_all)
  have applied: "case ?run polls of
      None \<Rightarrow> set polls \<subseteq> {PollNothing}
    | Some (ret, ctx) \<Rightarrow> (\<exists>d. posix_device_wait (noisy_device polls) (-1) = Some (ret, d)) \<and>
        \<not> set polls \<subseteq> {PollNothing} \<and>
        (\<exists>c'. ctx = Some c' \<and> (ret = Inr () \<longrightarrow> ctx_userdata c' = noisy_journal noisy_items))" for polls
    using host_wait_and_process [of host_platform True True "\<lambda>_. granting" "sample_context (noisy_device polls)"
        noisy_items "-1"]
    by (cases "?run polls"; cases "fst (the (?run polls))")
      (auto simp: facts posix_ops_def Let_def sample_context_facts noisy_device_facts noisy_items_arrive granting_sane
        sample_receiver(1))
  have "\<exists>d. posix_device_wait (noisy_device [PollNothing, PollEvents {POLLIN}]) (-1) = Some (Inr (), d)"
    by (simp add: posix_device_wait_def sys_poll_def noisy_device_def fd_open_def sample_os_def Let_def)
  with applied [of "[PollNothing, PollEvents {POLLIN}]"] applied [of "[PollNothing]"] show ?thesis
    by (auto simp: noisy_items_journal split: option.splits)
qed

section \<open>Hosts that run Windows\<close>

text \<open>A line on which bytes arrive, in bursts, and no error does.\<close>

definition win_clean :: "win_device \<Rightarrow> bool" where
  "win_clean d \<longleftrightarrow> (\<forall>a\<in>set (ln_in (w_line (wd_os d))). \<exists>bs. a = Inr bs \<and> bs \<noteq> [])"

lemma win_wait_line:
  "win_device_wait d t = Some (r, d') \<Longrightarrow> w_line (wd_os d') = w_line (wd_os d)"
  by (auto simp: win_device_wait_def WaitForSingleObject_def win_fails_def Let_def
      split: option.splits list.splits wait_answer.splits if_splits)

text \<open>A read with nothing pending returns no byte and no error, and the context takes this for the end.\<close>

lemma win_read_clean:
  assumes "win_is_open d" and "win_clean d" and "0 < k" and "k < 2 ^ 32"
  obtains (idle) d' where "win_device_read d k = (Inr [], d')" "win_pending d' = []" "win_clean d'"
  | (data) bs d' where "win_device_read d k = (Inr bs, d')" "bs \<noteq> []" "win_clean d'"
proof (cases "ln_in (w_line (wd_os d))")
  case Nil
  with assms(1,4) show thesis
    by (intro idle [of "snd (win_device_read d k)"])
      (simp_all add: win_device_read_def ReadFile_def line_read_def win_views MAXDWORD_def ln_pending_def
        win_clean_def)
next
  case (Cons a q)
  with assms(2) obtain bs where bs: "a = Inr bs" "bs \<noteq> []" by (auto simp: win_clean_def)
  with Cons assms show thesis
    by (intro data [of "take k bs" "snd (win_device_read d k)"])
      (auto simp: win_device_read_def ReadFile_def line_read_def win_views MAXDWORD_def win_clean_def)
qed

interpretation win_attended: attended_device win_ops win_is_open win_sent win_pending "\<lambda>_. True" win_clean
  "\<lambda>k. 0 < k \<and> k < 2 ^ 32"
proof (unfold_locales, goal_cases)
  case (2 d k a d')
  then have k: "0 < k" "k < 2 ^ 32" by simp_all
  from 2(1,2) k show ?case by (cases rule: win_read_clean) (use 2(4) in \<open>auto simp: win_ops_def\<close>)
next
  case (3 d t r d')
  then show ?case using win_wait_line [of d t r d'] by (simp add: win_clean_def win_ops_def)
qed simp

interpretation host_windows: connection "posix_ops_for have_termios have_poll" posix_is_open posix_sent
  posix_pending "\<lambda>_. True" win_ops win_is_open win_sent win_pending "\<lambda>_. True" win_clean
  "\<lambda>k. 0 < k \<and> k < 2 ^ 32" for have_termios have_poll
  by unfold_locales

interpretation windows_host: connection win_ops win_is_open win_sent win_pending "\<lambda>_. True"
  "posix_ops_for have_termios have_poll" posix_is_open posix_sent posix_pending "\<lambda>_. True" clean_line
  "\<lambda>k. 0 < k" for have_termios have_poll
  by unfold_locales

text \<open>
  C22: Delivery from a POSIX host to one that runs Windows, of the same byte order: when the messages
  were sent with success and their bytes reach the port in order, in whatever bursts, processing
  the input returns success and reports exactly these messages, in order, and no error.
\<close>

theorem host_to_windows_delivery:
  assumes "plat_ops pa = posix_ops_for have_termios have_poll" and "posix_is_open (ctx_device a)"
    and "ctx_opened a" and "tx_ready a"
    and "\<And>m. m \<in> set ms \<Longrightarrow> sendable pa m" and "send_all pa al a ms = Some (Inr (), a')"
    and "posix_sent (ctx_device a') = posix_sent (ctx_device a) @ win_pending (ctx_device b)"
    and "plat_ops pb = win_ops" and "plat_order pb = plat_order pa"
    and "0 < plat_chunk pb \<and> plat_chunk pb < 2 ^ 32"
    and "win_is_open (ctx_device b)" and "win_clean (ctx_device b)" and "ctx_opened b"
    and "rx_idle b" and "receivable pb als b ms"
  shows "\<exists>b'. smp_context_process_fd pb als recorder (Some b) = Some (Inr (), Some b') \<and>
    ctx_userdata b' = ctx_userdata b @
      map (\<lambda>m. Received (msgid m) (Some (filter arg_fits (the (message_args m))))) ms"
  by (rule host_windows.delivery [OF assms])

definition windows_platform :: "win_device platform" where
  "windows_platform = \<lparr>plat_ops = win_ops, plat_order = LittleEndian, plat_chunk = 16, plat_avr = False\<rparr>"

definition windows_device :: "(win_error + byte list) list \<Rightarrow> win_device" where
  "windows_device ins = (sample_win [])\<lparr>wd_handle := 4, wd_os := (wd_os (sample_win []))
     \<lparr>w_line := \<lparr>ln_in = ins, ln_out = [], ln_sent = []\<rparr>\<rparr>\<rparr>"

theorem host_to_windows_delivery_witness:
  "\<exists>b'. smp_context_process_fd windows_platform (\<lambda>_. granting) recorder
       (Some (sample_context (windows_device [Inr (frame_of host_platform sample_message)]))) =
       Some (Inr (), Some b') \<and>
     ctx_userdata b' = [Received 33 (Some sample_args)]"
proof -
  let ?f = "frame_of host_platform sample_message"
  let ?b = "windows_device [Inr ?f]"
  obtain a' where a': "send_all host_platform granting (sample_context (host_device [] [Inr 100])) [sample_message] =
      Some (Inr (), a')" "posix_sent (ctx_device a') = ?f" by (rule host_sends_sample)
  have b: "win_pending ?b = ?f" "win_clean ?b" "win_is_open ?b"
    using sample_frame_length(2)
    by (simp_all add: windows_device_def sample_win_def win_views ln_pending_def win_clean_def)
  have plat: "plat_ops host_platform = posix_ops_for True True" "plat_ops windows_platform = win_ops"
    "plat_order windows_platform = plat_order host_platform" "plat_chunk windows_platform = 16"
    by (simp_all add: windows_platform_def host_platform_def posix_ops_for_all)
  have "\<exists>b'. smp_context_process_fd windows_platform (\<lambda>_. granting) recorder (Some (sample_context ?b)) =
      Some (Inr (), Some b') \<and>
    ctx_userdata b' = ctx_userdata (sample_context ?b) @
      map (\<lambda>m. Received (msgid m) (Some (filter arg_fits (the (message_args m))))) [sample_message]"
    by (rule host_to_windows_delivery [where pa = host_platform and al = granting and a' = a' and
          a = "sample_context (host_device [] [Inr 100])"])
      (use a' b plat sample_receiver sample_context_ready(2)
        in \<open>simp_all add: host_device_facts sample_context_facts\<close>)
  then show ?thesis by (auto simp: sample_context_facts sample_message_args sample_facts)
qed

end
