(* ===== verification/Smp_System_Echo.thy ===== *)
theory Smp_System_Echo
  imports Smp_Hosted Smp_System_Noise
begin

text \<open>A POSIX host whose application answers every message from its callback.\<close>

lemma posix_write_line:
  assumes "posix_is_open d" and "clean_line d"
  shows "posix_is_open (snd (posix_device_write d bs)) \<and> clean_line (snd (posix_device_write d bs)) \<and>
    posix_pending (snd (posix_device_write d bs)) = posix_pending d"
  using assms
  by (cases rule: line_write_cases [of "os_line (pd_os d)" bs])
    (auto simp: posix_device_write_def sys_write_def posix_views clean_line_def ln_pending_def)

text \<open>The next answers of the line that take any frame in full.\<close>

definition posix_offers :: "posix_device \<Rightarrow> nat" where
  "posix_offers d = length (takeWhile (\<lambda>a. case a of Inl e \<Rightarrow> False | Inr n \<Rightarrow> FRAME_BOUND \<le> n)
     (ln_out (os_line (pd_os d))))"

lemma posix_write_offered:
  assumes "posix_is_open d" and "0 < posix_offers d" and "length bs \<le> FRAME_BOUND"
  shows "\<exists>d'. posix_device_write d bs = (Inr (of_nat (length bs)), d') \<and> posix_offers d = Suc (posix_offers d')"
proof -
  from assms(2) obtain n q where out: "ln_out (os_line (pd_os d)) = Inr n # q" "FRAME_BOUND \<le> n"
    by (cases "ln_out (os_line (pd_os d))") (auto simp: posix_offers_def split: if_splits sum.splits)
  have "min n (min (length bs) PTRDIFF_MAX) = length bs"
    using assms(3) out(2) by (simp add: FRAME_BOUND_def PTRDIFF_MAX_def)
  with out assms(1) show ?thesis
    by (simp add: posix_device_write_def sys_write_def line_write_def posix_views posix_offers_def)
qed

lemma posix_read_offers:
  "posix_is_open d \<Longrightarrow> posix_offers (snd (posix_device_read d k)) = posix_offers d"
  by (auto simp: posix_device_read_def sys_read_def line_read_def posix_views posix_offers_def
      split: list.split sum.split)

interpretation posix_duplex: duplex_device "posix_ops_for have_termios have_poll" posix_is_open posix_sent
  posix_pending "\<lambda>_. True" clean_line "\<lambda>k. 0 < k" posix_offers for have_termios have_poll
proof (unfold_locales, goal_cases)
  case (1 d bs)
  with posix_write_line [of d bs] posix_write_offered [of d bs] show ?case
    by (cases "posix_device_write d bs") (auto simp: posix_ops_def)
next
  case (2 d k a d')
  with posix_read_offers [of d k] show ?case by (simp add: posix_ops_def)
qed

interpretation posix_echo: hosted_application "posix_ops_for have_termios have_poll" posix_is_open posix_sent
  posix_pending "\<lambda>_. True" clean_line "\<lambda>k. 0 < k"
  "echo \<lparr>plat_ops = posix_ops_for have_termios have_poll, plat_order = bo, plat_chunk = k, plat_avr = v\<rparr> tx" bo
  "posix_duplex.echo_good start bo tx sure n" "\<lambda>c. fst (ctx_userdata c)" for have_termios have_poll bo k v tx start sure n
  by (rule posix_duplex.echo_hosted) simp_all

text \<open>What an application that answers puts on the line, for what arrives.\<close>

definition answers_to :: "byte_order \<Rightarrow> (byte list \<times> line_item) list \<Rightarrow> byte list" where
  "answers_to bo items = concat (map (\<lambda>(noise, it). case it of
       Inl w \<Rightarrow> [] | Inr (ident, as) \<Rightarrow> serial_frame (message_wire bo ident as)) items)"

lemma journal_answers: "concat (map (event_frame bo) (noisy_journal items)) = answers_to bo items"
  by (auto simp: noisy_journal_def answers_to_def item_report_def
      intro!: arg_cong [where f = concat] split: sum.split)

lemma echo_run:
  assumes "plat_ops plat = posix_ops_for have_termios have_poll" and "0 < plat_chunk plat"
    and "\<forall>k. sane (al_decoder_buf (als k))" and "posix_is_open (ctx_device c)"
    and "clean_line (ctx_device c)" and "ctx_opened c" and "tx_ready c" and "rx_idle c"
    and "noisy_ok plat als c items" and "posix_pending (ctx_device c) = noisy_bytes (plat_order plat) items"
    and "ctx_userdata c = ([], [])"
  shows "\<exists>c'. smp_context_process_fd plat als (echo plat al) (Some c) = Some (Inr (), Some c') \<and>
    fst (ctx_userdata c') = noisy_journal items \<and>
    dec_state (ctx_decoder c') = WAIT_HEADER \<and> posix_pending (ctx_device c') = [] \<and> tx_ready c' \<and>
    (answered (snd (ctx_userdata c')) \<longrightarrow>
      posix_sent (ctx_device c') = posix_sent (ctx_device c) @ answers_to (plat_order plat) items) \<and>
    (willing al c \<and> messages_heard (noisy_journal items) \<le> posix_offers (ctx_device c) \<longrightarrow>
      answered (snd (ctx_userdata c')))"
proof -
  let ?bo = "plat_order plat" and ?n = "messages_heard (noisy_journal items)"
  let ?sure = "willing al c \<and> ?n \<le> posix_offers (ctx_device c)"
  let ?good = "posix_duplex.echo_good (posix_sent (ctx_device c)) ?bo al ?sure ?n"
  have plat: "\<lparr>plat_ops = posix_ops_for have_termios have_poll, plat_order = ?bo,
      plat_chunk = plat_chunk plat, plat_avr = plat_avr plat\<rparr> = plat"
    using assms(1) by (cases plat) simp
  have good: "?good c"
    using assms(4-7,11) by (simp add: posix_duplex.echo_good_def answered_def messages_heard_def)
  from posix_echo.process_fd_told [where k = "plat_chunk plat" and v = "plat_avr plat" and tx = al,
      OF assms(1) refl assms(2,3,6,8) good assms(9,10), unfolded plat]
  obtain c' where "smp_context_process_fd plat als (echo plat al) (Some c) = Some (Inr (), Some c')"
    "?good c'" "fst (ctx_userdata c') = noisy_journal items" "dec_state (ctx_decoder c') = WAIT_HEADER"
    "posix_pending (ctx_device c') = []"
    by (auto simp: assms(11))
  then show ?thesis by (auto simp: posix_duplex.echo_good_def journal_answers)
qed

text \<open>
  C8: Sending from a callback while the input is processed: on a POSIX host whose application sends
  every message it is given back on the same context, processing returns success, all messages
  and errors are reported in order, and, unless a send failed, the bytes put on the line
  are, byte for byte, the frames of the messages that arrived, in order, without the noise
  and the damaged frames between them. No send fails when the context allocates its transmit
  buffers and gets the memory for them, and the line takes as many frames as messages arrive.
\<close>

theorem echo_server:
  assumes "plat_ops plat = posix_ops_for have_termios have_poll" and "0 < plat_chunk plat"
    and "\<forall>k. sane (al_decoder_buf (als k))" and "posix_is_open (ctx_device c)"
    and "clean_line (ctx_device c)" and "ctx_opened c" and "tx_ready c" and "rx_idle c"
    and "noisy_ok plat als c items" and "posix_pending (ctx_device c) = noisy_bytes (plat_order plat) items"
    and "ctx_userdata c = ([], [])"
  shows "\<exists>c'. smp_context_process_fd plat als (echo plat al) (Some c) = Some (Inr (), Some c') \<and>
    fst (ctx_userdata c') = noisy_journal items \<and>
    dec_state (ctx_decoder c') = WAIT_HEADER \<and> posix_pending (ctx_device c') = [] \<and> tx_ready c' \<and>
    (answered (snd (ctx_userdata c')) \<longrightarrow>
      posix_sent (ctx_device c') = posix_sent (ctx_device c) @ answers_to (plat_order plat) items) \<and>
    (willing al c \<and> messages_heard (noisy_journal items) \<le> posix_offers (ctx_device c) \<longrightarrow>
      answered (snd (ctx_userdata c')))"
  using assms by (rule echo_run)

text \<open>The noisy line of two bursts, answered.\<close>

lemma noisy_answer: "answers_to LittleEndian noisy_items = frame_of host_platform sample_message"
proof -
  have "filter arg_fits sample_args = sample_args"
    using sample_args_fit by (auto intro!: filter_True)
  then show ?thesis
    by (simp add: answers_to_def noisy_items_def frame_of_def sample_message_args outgoing_def sample_facts
        host_platform_def)
qed

definition echo_context :: "posix_device \<Rightarrow> (posix_device, echo_log) smp_context" where
  "echo_context d = \<lparr>ctx_decoder = ctx_decoder (sample_context d), ctx_device = d, ctx_userdata = ([], []),
     ctx_opened = True, ctx_static = True, ctx_msg_tx = None, ctx_serial_tx = None,
     ctx_msg_rx = Some (empty_message True)\<rparr>"

lemma echo_context_facts:
  "rx_idle (echo_context d)" "tx_ready (echo_context d)" "willing granting (echo_context d)"
  "noisy_ok host_platform (\<lambda>_. granting) (echo_context d) noisy_items"
  "ctx_device (echo_context d) = d" "ctx_opened (echo_context d)" "ctx_userdata (echo_context d) = ([], [])"
proof -
  have same: "ctx_decoder (echo_context d) = ctx_decoder (sample_context d)"
    "rx_room als (echo_context d) as = rx_room als (sample_context d) as" for als as
    by (simp_all add: echo_context_def sample_context_def rx_room_def)
  show "noisy_ok host_platform (\<lambda>_. granting) (echo_context d) noisy_items"
    using noisy_items_arrive(1) [of d] unfolding noisy_ok_def same .
  show "rx_idle (echo_context d)"
    using sample_receiver(1) [of d] unfolding rx_idle_def rx_ready_def same
    by (simp add: echo_context_def sample_context_def)
  show "willing granting (echo_context d)"
    by (simp add: willing_def echo_context_def FRAME_BOUND_def SIZEOF_BUFFER_def PTRDIFF_MAX_def)
qed (simp_all add: tx_ready_def echo_context_def)

definition answering_device :: posix_device where
  "answering_device = (let d = noisy_device []; os = pd_os d in
     d\<lparr>pd_os := os\<lparr>os_line := (os_line os)\<lparr>ln_out := [Inr (2 ^ 40)]\<rparr>\<rparr>\<rparr>)"

lemma answering_device_facts:
  "posix_is_open answering_device" "clean_line answering_device" "posix_offers answering_device = 1"
  "posix_sent answering_device = []"
  "posix_pending answering_device = noisy_bytes (plat_order host_platform) noisy_items"
  using noisy_device_facts(1,2) [of "[]"] noisy_items_arrive(2) [of "[]"]
  by (simp_all add: answering_device_def Let_def posix_views clean_line_def ln_pending_def posix_offers_def
      FRAME_BOUND_def) (simp add: noisy_device_def)

theorem echo_server_witness:
  "\<exists>c'. smp_context_process_fd host_platform (\<lambda>_. granting) (echo host_platform granting)
      (Some (echo_context answering_device)) = Some (Inr (), Some c') \<and>
    fst (ctx_userdata c') = [Failed SMP_ERROR_BAD_MESSAGE, Received 33 (Some sample_args)] \<and>
    posix_sent (ctx_device c') = frame_of host_platform sample_message"
proof -
  have plat: "plat_ops host_platform = posix_ops_for True True" "plat_chunk host_platform = 16"
    "plat_order host_platform = LittleEndian"
    by (simp_all add: host_platform_def posix_ops_for_all)
  have "messages_heard (noisy_journal noisy_items) = 1"
    by (simp add: noisy_items_journal messages_heard_def)
  with echo_server [of host_platform True True "\<lambda>_. granting" "echo_context answering_device" noisy_items granting]
  show ?thesis
    by (auto simp: plat echo_context_facts answering_device_facts granting_sane noisy_answer
        noisy_items_journal)
qed

section \<open>There and back\<close>

lemma delivered_intact:
  "noisy_bytes bo (intact (delivered ms)) = line_bytes bo (delivered ms)"
  "answers_to bo (intact (delivered ms)) = line_bytes bo (delivered ms)"
  "messages_heard (noisy_journal (intact (delivered ms))) = length ms"
proof -
  show "noisy_bytes bo (intact (delivered ms)) = line_bytes bo (delivered ms)" by (rule intact_bytes)
qed (simp_all add: answers_to_def line_bytes_def intact_def delivered_def noisy_journal_def
      messages_heard_def comp_def item_report_def)

lemma delivered_journal:
  "noisy_journal (intact (delivered ms)) =
     map (\<lambda>m. Received (msgid m) (Some (filter arg_fits (the (message_args m))))) ms"
  by (simp add: noisy_journal_def intact_def delivered_def comp_def item_report_def)

text \<open>
  C4: A request and its reply: a host sends messages to another whose application answers each from
  its callback, and the answers come back to the first one. When the sends succeeded, the answering
  host gets the memory and its line takes the frames, then it reports every message and returns
  success, and the first host, processing what came back, reports exactly the messages it sent,
  in order, and no error.
\<close>

theorem echo_round_trip:
  assumes "plat_ops pa = posix_ops_for ta wa" and "posix_is_open (ctx_device a)" and "ctx_opened a"
    and "tx_ready a" and "\<And>m. m \<in> set ms \<Longrightarrow> sendable pa m" and "send_all pa al a ms = Some (Inr (), a')"
    and "posix_sent (ctx_device a') = posix_sent (ctx_device a) @ posix_pending (ctx_device b)"
    and "plat_ops pb = posix_ops_for tb wb" and "plat_order pb = plat_order pa" and "0 < plat_chunk pb"
    and "posix_is_open (ctx_device b)" and "clean_line (ctx_device b)" and "ctx_opened b" and "tx_ready b"
    and "rx_idle b" and "receivable pb als b ms" and "ctx_userdata b = ([], [])"
    and "willing alb b" and "length ms \<le> posix_offers (ctx_device b)"
  shows "\<exists>b'. smp_context_process_fd pb als (echo pb alb) (Some b) = Some (Inr (), Some b') \<and>
    fst (ctx_userdata b') =
      map (\<lambda>m. Received (msgid m) (Some (filter arg_fits (the (message_args m))))) ms \<and>
    posix_sent (ctx_device b') = posix_sent (ctx_device b) @ posix_pending (ctx_device b) \<and>
    (\<forall>c alc. posix_sent (ctx_device b') = posix_sent (ctx_device b) @ posix_pending (ctx_device c) \<and>
       0 < plat_chunk pa \<and> posix_is_open (ctx_device c) \<and> clean_line (ctx_device c) \<and> ctx_opened c \<and>
       rx_idle c \<and> receivable pa alc c ms \<longrightarrow>
       (\<exists>c'. smp_context_process_fd pa alc recorder (Some c) = Some (Inr (), Some c') \<and>
          ctx_userdata c' = ctx_userdata c @
            map (\<lambda>m. Received (msgid m) (Some (filter arg_fits (the (message_args m))))) ms))"
proof -
  let ?items = "intact (delivered ms)" and ?bo = "plat_order pa"
  have "posix_pending (ctx_device b) = concat (map (frame_of pa) ms)"
    using posix_conf.send_all_sent [OF assms(1-6)] assms(7) by simp
  then have line: "posix_pending (ctx_device b) = line_bytes ?bo (delivered ms)"
    by (simp add: line_bytes_delivered)
  then have pending: "posix_pending (ctx_device b) = noisy_bytes (plat_order pb) ?items"
    by (simp add: delivered_intact assms(9))
  have sane: "sane (al_decoder_buf (f k))" if "receivable plat f x ms" for f k x and plat :: "posix_device platform"
    using that by (simp add: receivable_def)
  note ok = intact_ok [OF receivable_segments]
  have "\<forall>k. sane (al_decoder_buf (als k))" using sane [OF assms(16)] by blast
  from echo_run [OF assms(8,10) this assms(11-15) ok [OF assms(16)] pending assms(17), of alb]
  obtain b' where b': "smp_context_process_fd pb als (echo pb alb) (Some b) = Some (Inr (), Some b')"
    "fst (ctx_userdata b') = noisy_journal ?items"
    "posix_sent (ctx_device b') = posix_sent (ctx_device b) @ line_bytes ?bo (delivered ms)"
    using assms(18,19) by (auto simp: delivered_intact assms(9))
  have "\<exists>c'. smp_context_process_fd pa alc recorder (Some c) = Some (Inr (), Some c') \<and>
      ctx_userdata c' = ctx_userdata c @ noisy_journal ?items"
    if c: "posix_sent (ctx_device b') = posix_sent (ctx_device b) @ posix_pending (ctx_device c)"
      "0 < plat_chunk pa" "posix_is_open (ctx_device c)" "clean_line (ctx_device c)" "ctx_opened c"
      "rx_idle c" "receivable pa alc c ms" for c alc
  proof -
    have "posix_pending (ctx_device c) = noisy_bytes ?bo ?items"
      using b'(3) c(1) by (simp add: delivered_intact)
    moreover have "\<forall>k. sane (al_decoder_buf (alc k))" using sane [OF c(7)] by blast
    ultimately show ?thesis
      using posix_dry.process_fd_clean [OF assms(1) c(3,4,2,5,6) _ ok [OF c(7)]] by blast
  qed
  with b' line show ?thesis unfolding delivered_journal by auto
qed

text \<open>The sample message, there and back.\<close>

definition replying_device :: posix_device where
  "replying_device = host_device [Inr (frame_of host_platform sample_message)] [Inr (2 ^ 40)]"

theorem echo_round_trip_witness:
  "\<exists>b' c'. smp_context_process_fd host_platform (\<lambda>_. granting) (echo host_platform granting)
      (Some (echo_context replying_device)) = Some (Inr (), Some b') \<and>
    smp_context_process_fd host_platform (\<lambda>_. granting) recorder
      (Some (sample_context (host_device [Inr (posix_sent (ctx_device b'))] []))) = Some (Inr (), Some c') \<and>
    ctx_userdata c' = [Received 33 (Some sample_args)]"
proof -
  let ?f = "frame_of host_platform sample_message"
  obtain a' where a': "send_all host_platform granting (sample_context (host_device [] [Inr 100])) [sample_message] =
      Some (Inr (), a')" "posix_sent (ctx_device a') = ?f" by (rule host_sends_sample)
  have plat: "plat_ops host_platform = posix_ops_for True True" "plat_chunk host_platform = 16"
    by (simp_all add: host_platform_def posix_ops_for_all)
  have line: "posix_pending (host_device [Inr ?f] out) = ?f" "clean_line (host_device [Inr ?f] out)"
    "posix_is_open (host_device [Inr ?f] out)" "posix_sent (host_device [Inr ?f] out) = []" for out
    using sample_frame_length(2)
    by (simp_all add: host_device_def posix_views sample_os_def ln_pending_def clean_line_def)
  have offers: "posix_offers replying_device = 1"
    by (simp add: replying_device_def host_device_def posix_offers_def FRAME_BOUND_def)
  have room: "receivable host_platform (\<lambda>_. granting) (echo_context d) [sample_message]" for d
    using sample_receiver(2) [of host_platform d]
    by (simp add: receivable_def echo_context_def rx_room_def sample_context_def)
  note dev = line [of "[Inr (2 ^ 40)]", folded replying_device_def]
  note facts = a' plat line dev offers room sample_receiver sample_context_ready(2) host_device_facts
    sample_context_facts echo_context_facts
  obtain b' where b': "smp_context_process_fd host_platform (\<lambda>_. granting) (echo host_platform granting)
      (Some (echo_context replying_device)) = Some (Inr (), Some b')"
    "posix_sent (ctx_device b') = ?f"
    "\<And>c alc. posix_sent (ctx_device b') = posix_pending (ctx_device c) \<and>
       posix_is_open (ctx_device c) \<and> clean_line (ctx_device c) \<and> ctx_opened c \<and>
       rx_idle c \<and> receivable host_platform alc c [sample_message] \<Longrightarrow>
       (\<exists>c'. smp_context_process_fd host_platform alc recorder (Some c) = Some (Inr (), Some c') \<and>
          ctx_userdata c' = ctx_userdata c @
            map (\<lambda>m. Received (msgid m) (Some (filter arg_fits (the (message_args m))))) [sample_message])"
    using echo_round_trip [of host_platform True True "sample_context (host_device [] [Inr 100])" "[sample_message]"
        granting a' "echo_context replying_device" host_platform True True "\<lambda>_. granting" granting]
    by (auto simp: facts simp del: send_all.simps)
  from b'(3) [of "sample_context (host_device [Inr ?f] [])" "\<lambda>_. granting"] show ?thesis
    using b'(1,2) by (auto simp: facts sample_message_args sample_facts)
qed

end
