(* ===== verification/Smp_Device_Arduino.thy ===== *)
theory Smp_Device_Arduino
  imports Smp_Device
begin

text \<open>
  \<open>src/serial-device-arduino.cpp\<close>: a device is a serial port of an Arduino board. The Arduino core
  is not part of the repository: it is a parameter, the functions of \<open>ArduinoSerialCompatIface\<close> for
  the port with a given index of the table, the clock and the constants of the modes, over a type
  of the state of the board.
\<close>

section \<open>State\<close>

record 'h arduino_core =
  core_begin :: "nat \<Rightarrow> u32 \<Rightarrow> 'h \<Rightarrow> 'h"
  core_begin_config :: "nat \<Rightarrow> u32 \<Rightarrow> byte \<Rightarrow> 'h \<Rightarrow> 'h"
  core_end :: "nat \<Rightarrow> 'h \<Rightarrow> 'h"
  core_available :: "nat \<Rightarrow> 'h \<Rightarrow> int \<times> 'h"
  core_read :: "nat \<Rightarrow> 'h \<Rightarrow> int \<times> 'h"
  core_write :: "nat \<Rightarrow> byte list \<Rightarrow> 'h \<Rightarrow> size_t \<times> 'h"
  core_ready :: "nat \<Rightarrow> 'h \<Rightarrow> bool \<times> 'h"
  core_millis :: "'h \<Rightarrow> u32 \<times> 'h"
  core_8N1 :: u32
  core_8O1 :: u32
  core_8E1 :: u32

record 'h arduino_device =
  ad_fd :: int
  ad_board :: 'h

text \<open>The names of the ports, per board; the last table depends on the ports the board has.\<close>

definition devmap_due :: "string list" where
  "devmap_due = [''serial0'', ''serial1'', ''serial2'', ''serial3'', ''serialUSB'']"

definition devmap_teensy :: "string list" where
  "devmap_teensy = [''serial0'', ''serial1'', ''serial2'', ''serial3'']"

definition devmap_other :: "bool \<Rightarrow> bool \<Rightarrow> bool \<Rightarrow> bool \<Rightarrow> string list" where
  "devmap_other hw0 hw1 hw2 hw3 =
     (if hw0 then [''serial0''] else []) @ (if hw1 then [''serial1''] else [])
     @ (if hw2 then [''serial2''] else []) @ (if hw3 then [''serial3''] else [])"

fun fd_by_name_loop :: "string list \<Rightarrow> string \<Rightarrow> nat \<Rightarrow> smp_error + int" where
  "fd_by_name_loop [] name i = Inl SMP_ERROR_NO_DEVICE"
| "fd_by_name_loop (n # ns) name i =
     (if name = n then Inr (int i) else fd_by_name_loop ns name (Suc i))"

definition get_device_fd_by_name :: "string list \<Rightarrow> string \<Rightarrow> smp_error + int" where
  "get_device_fd_by_name devmap name = fd_by_name_loop devmap name 0"

text \<open>The descriptor is converted to \<open>size_t\<close>, so that a negative one is too large.\<close>

definition ard_device_from_fd :: "string list \<Rightarrow> int \<Rightarrow> nat option" where
  "ard_device_from_fd devmap fd =
     (let i = unat (of_int fd :: size_t) in if i \<ge> length devmap then None else Some i)"

section \<open>Life\<close>

text \<open>\<open>while (!(*serial))\<close>; \<^const>\<open>None\<close> when the port never gets ready.\<close>

partial_function (option) ard_wait_ready :: "'h arduino_core \<Rightarrow> nat \<Rightarrow> 'h \<Rightarrow> 'h option" where
  "ard_wait_ready core i h =
     (case core_ready core i h of (ready, h) \<Rightarrow> if ready then Some h else ard_wait_ready core i h)"

definition ard_device_init :: "'h arduino_device \<Rightarrow> 'h arduino_device" where
  "ard_device_init d = d\<lparr>ad_fd := -1\<rparr>"

text \<open>The descriptor found is an index of the table: the second look-up does not fail.\<close>

definition ard_device_open ::
  "'h arduino_core \<Rightarrow> string list \<Rightarrow> 'h arduino_device \<Rightarrow> string
   \<Rightarrow> ((smp_error + int) \<times> 'h arduino_device) option" where
  "ard_device_open core devmap d path =
     (case get_device_fd_by_name devmap path of
        Inl e \<Rightarrow> Some (Inl e, d)
      | Inr fd \<Rightarrow>
          do {
            i \<leftarrow> ard_device_from_fd devmap fd;
            h \<leftarrow> ard_wait_ready core i (core_begin core i 115200 (ad_board d));
            Some (Inr 0, d\<lparr>ad_fd := fd, ad_board := h\<rparr>)
          })"

definition ard_device_close ::
  "'h arduino_core \<Rightarrow> string list \<Rightarrow> 'h arduino_device \<Rightarrow> 'h arduino_device" where
  "ard_device_close core devmap d =
     (case ard_device_from_fd devmap (ad_fd d) of
        None \<Rightarrow> d
      | Some i \<Rightarrow> d\<lparr>ad_board := core_end core i (ad_board d), ad_fd := -1\<rparr>)"

definition ard_device_get_fd :: "'h arduino_device \<Rightarrow> smp_error + int" where
  "ard_device_get_fd d = (if ad_fd d < 0 then Inl SMP_ERROR_BAD_FD else Inr (ad_fd d))"

section \<open>Configuration\<close>

fun ard_baudrate :: "smp_serial_baudrate \<Rightarrow> u32 option" where
  "ard_baudrate BAUDRATE_1200 = Some 1200"
| "ard_baudrate BAUDRATE_2400 = Some 2400"
| "ard_baudrate BAUDRATE_4800 = Some 4800"
| "ard_baudrate BAUDRATE_9600 = Some 9600"
| "ard_baudrate BAUDRATE_19200 = Some 19200"
| "ard_baudrate BAUDRATE_38400 = Some 38400"
| "ard_baudrate BAUDRATE_57600 = Some 57600"
| "ard_baudrate BAUDRATE_115200 = Some 115200"
| "ard_baudrate BAUDRATE_230400 = Some 230400"
| "ard_baudrate BAUDRATE_460800 = Some 460800"
| "ard_baudrate BAUDRATE_921600 = Some 921600"
| "ard_baudrate BAUDRATE_1000000 = Some 1000000"
| "ard_baudrate BAUDRATE_2000000 = Some 2000000"
| "ard_baudrate BAUDRATE_4000000 = Some 4000000"
| "ard_baudrate (BAUDRATE_OTHER _) = None"

fun ard_mode :: "'h arduino_core \<Rightarrow> smp_serial_parity \<Rightarrow> u32 option" where
  "ard_mode core PARITY_NONE = Some (core_8N1 core)"
| "ard_mode core PARITY_ODD = Some (core_8O1 core)"
| "ard_mode core PARITY_EVEN = Some (core_8E1 core)"
| "ard_mode core (PARITY_OTHER _) = None"

text \<open>The mode, a \<open>long\<close>, is passed as an \<open>uint8_t\<close>: its low eight bits.\<close>

definition ard_device_set_config ::
  "'h arduino_core \<Rightarrow> string list \<Rightarrow> 'h arduino_device \<Rightarrow> smp_serial_baudrate \<Rightarrow> smp_serial_parity \<Rightarrow> bool
   \<Rightarrow> ((smp_error + unit) \<times> 'h arduino_device) option" where
  "ard_device_set_config core devmap d baudrate parity flow_control =
     (case ard_device_from_fd devmap (ad_fd d) of
        None \<Rightarrow> Some (Inl SMP_ERROR_NO_DEVICE, d)
      | Some i \<Rightarrow>
          if flow_control then Some (Inl SMP_ERROR_INVALID_PARAM, d)
          else (case ard_baudrate baudrate of
              None \<Rightarrow> Some (Inl SMP_ERROR_INVALID_PARAM, d)
            | Some br \<Rightarrow> (case ard_mode core parity of
                None \<Rightarrow> Some (Inl SMP_ERROR_INVALID_PARAM, d)
              | Some mode \<Rightarrow>
                  do {
                    let h = core_end core i (ad_board d);
                    let h = core_begin_config core i br (ucast mode) h;
                    h \<leftarrow> ard_wait_ready core i h;
                    Some (Inr (), d\<lparr>ad_board := h\<rparr>)
                  })))"

section \<open>Transfers\<close>

definition ard_device_write ::
  "'h arduino_core \<Rightarrow> string list \<Rightarrow> 'h arduino_device \<Rightarrow> byte list
   \<Rightarrow> (smp_error + size_t) \<times> 'h arduino_device" where
  "ard_device_write core devmap d bs =
     (case ard_device_from_fd devmap (ad_fd d) of
        None \<Rightarrow> (Inl SMP_ERROR_NO_DEVICE, d)
      | Some i \<Rightarrow> (case core_write core i bs (ad_board d) of (n, h) \<Rightarrow> (Inr n, d\<lparr>ad_board := h\<rparr>)))"

fun ard_read_loop :: "'h arduino_core \<Rightarrow> nat \<Rightarrow> 'h \<Rightarrow> nat \<Rightarrow> byte list \<times> 'h" where
  "ard_read_loop core i h 0 = ([], h)"
| "ard_read_loop core i h (Suc k) =
     (case core_available core i h of (n, h) \<Rightarrow>
        if n = 0 then ([], h)
        else (case core_read core i h of (b, h) \<Rightarrow>
            if b < 0 then ([], h)
            else (case ard_read_loop core i h k of (bs, h) \<Rightarrow> (of_int b # bs, h))))"

definition ard_device_read ::
  "'h arduino_core \<Rightarrow> string list \<Rightarrow> 'h arduino_device \<Rightarrow> nat
   \<Rightarrow> (smp_error + byte list) \<times> 'h arduino_device" where
  "ard_device_read core devmap d k =
     (case ard_device_from_fd devmap (ad_fd d) of
        None \<Rightarrow> (Inl SMP_ERROR_NO_DEVICE, d)
      | Some i \<Rightarrow> (case ard_read_loop core i (ad_board d) k of (bs, h) \<Rightarrow> (Inr bs, d\<lparr>ad_board := h\<rparr>)))"

section \<open>Waiting\<close>

partial_function (option) ard_wait_forever :: "'h arduino_core \<Rightarrow> nat \<Rightarrow> 'h \<Rightarrow> 'h option" where
  "ard_wait_forever core i h =
     (case core_available core i h of (n, h) \<Rightarrow> if n \<le> 0 then ard_wait_forever core i h else Some h)"

text \<open>
  The loop with a timeout reads the clock, which wraps around; \<^const>\<open>None\<close> when the clock stands
  still for ever.
\<close>

partial_function (option) ard_wait_loop ::
  "'h arduino_core \<Rightarrow> nat \<Rightarrow> u32 \<Rightarrow> u32 \<Rightarrow> u32 \<Rightarrow> 'h \<Rightarrow> ((smp_error + unit) \<times> 'h) option" where
  "ard_wait_loop core i timeout start_time current_time h =
     (if current_time - start_time < timeout then
        (case core_available core i h of (n, h) \<Rightarrow>
           if n > 0 then Some (Inr (), h)
           else (case core_millis core h of (current_time, h) \<Rightarrow>
               ard_wait_loop core i timeout start_time current_time h))
      else
        (case core_available core i h of (n, h) \<Rightarrow>
           Some (if n > 0 then Inr () else Inl SMP_ERROR_TIMEDOUT, h)))"

definition ard_device_wait ::
  "'h arduino_core \<Rightarrow> string list \<Rightarrow> 'h arduino_device \<Rightarrow> 32 word
   \<Rightarrow> ((smp_error + unit) \<times> 'h arduino_device) option" where
  "ard_device_wait core devmap d timeout_ms =
     (case ard_device_from_fd devmap (ad_fd d) of
        None \<Rightarrow> Some (Inl SMP_ERROR_NO_DEVICE, d)
      | Some i \<Rightarrow> (case core_available core i (ad_board d) of (n, h) \<Rightarrow>
          if n > 0 then Some (Inr (), d\<lparr>ad_board := h\<rparr>)
          else if sint timeout_ms < 0 then
            do { h \<leftarrow> ard_wait_forever core i h; Some (Inr (), d\<lparr>ad_board := h\<rparr>) }
          else
            (case core_millis core h of (start_time, h) \<Rightarrow>
             case core_millis core h of (start_time, h) \<Rightarrow>
             case core_millis core h of (current_time, h) \<Rightarrow>
               do {
                 (ret, h) \<leftarrow> ard_wait_loop core i timeout_ms start_time current_time h;
                 Some (ret, d\<lparr>ad_board := h\<rparr>)
               })))"

definition ard_ops :: "'h arduino_core \<Rightarrow> string list \<Rightarrow> 'h arduino_device device_ops" where
  "ard_ops core devmap = \<lparr>
     dev_init = ard_device_init,
     dev_open = ard_device_open core devmap,
     dev_close = (\<lambda>d. Some (ard_device_close core devmap d)),
     dev_get_fd = ard_device_get_fd,
     dev_set_config = ard_device_set_config core devmap,
     dev_write = (\<lambda>d bs. Some (ard_device_write core devmap d bs)),
     dev_read = (\<lambda>d k. Some (ard_device_read core devmap d k)),
     dev_wait = ard_device_wait core devmap\<rparr>"

end
