(* ===== verification/Smp_Arduino_Spec.thy ===== *)
theory Smp_Arduino_Spec
  imports Smp_Device_Arduino Smp_Context_Receive Smp_Context_Safe
begin

text \<open>
  What the serial device of an Arduino board guarantees, given what the Arduino core documents of
  its ports and of its clock.
\<close>

section \<open>The core\<close>

text \<open>
  A call on a port that takes the bytes \<open>got\<close> from its receive buffer and puts the bytes \<open>put\<close> on its
  line. \<open>rx\<close> are the bytes that were received or will be and were not read; \<open>fine\<close> says that none was
  lost because the buffer was full.
\<close>

definition port_call ::
  "(nat \<Rightarrow> 'h \<Rightarrow> byte list) \<Rightarrow> (nat \<Rightarrow> 'h \<Rightarrow> byte list) \<Rightarrow> (nat \<Rightarrow> 'h \<Rightarrow> bool)
   \<Rightarrow> nat \<Rightarrow> 'h \<Rightarrow> 'h \<Rightarrow> byte list \<Rightarrow> byte list \<Rightarrow> bool" where
  "port_call rx tx fine i h h' got put \<longleftrightarrow>
     tx i h' = tx i h @ put \<and> length (rx i h') + length got \<le> length (rx i h) \<and>
     (fine i h' \<longrightarrow> fine i h \<and> rx i h = got @ rx i h')"

text \<open>
  The documentation of \<open>Serial\<close>: \<open>available\<close> takes no byte, \<open>read\<close> takes the first one or returns a
  negative number, \<open>write\<close> returns how many bytes it wrote; reading the clock takes none.
\<close>

definition core_ports ::
  "'h arduino_core \<Rightarrow> (nat \<Rightarrow> 'h \<Rightarrow> byte list) \<Rightarrow> (nat \<Rightarrow> 'h \<Rightarrow> byte list) \<Rightarrow> (nat \<Rightarrow> 'h \<Rightarrow> bool) \<Rightarrow> bool" where
  "core_ports core rx tx fine \<longleftrightarrow>
     (\<forall>i h n h'. core_available core i h = (n, h') \<longrightarrow> port_call rx tx fine i h h' [] []) \<and>
     (\<forall>i h b h'. core_read core i h = (b, h') \<longrightarrow>
        (if b < 0 then port_call rx tx fine i h h' [] [] else port_call rx tx fine i h h' [of_int b] [])) \<and>
     (\<forall>i h bs n h'. core_write core i bs h = (n, h') \<longrightarrow>
        unat n \<le> length bs \<and> port_call rx tx fine i h h' [] (take (unat n) bs)) \<and>
     (\<forall>i h t h'. core_millis core h = (t, h') \<longrightarrow> port_call rx tx fine i h h' [] [])"

text \<open>
  The clock: \<open>time\<close> are the microseconds since the start, \<open>millis\<close> returns the low 32 bits of the
  milliseconds. Reading it takes some time, and no call takes a thousand million milliseconds.
\<close>

definition core_clock :: "'h arduino_core \<Rightarrow> ('h \<Rightarrow> nat) \<Rightarrow> bool" where
  "core_clock core time \<longleftrightarrow>
     (\<forall>i h n h'. core_available core i h = (n, h') \<longrightarrow> time h \<le> time h' \<and> time h' < time h + 10 ^ 12) \<and>
     (\<forall>h t h'. core_millis core h = (t, h') \<longrightarrow>
        time h < time h' \<and> time h' < time h + 10 ^ 12 \<and> t = of_nat (time h' div 1000))"

lemma port_call_trans:
  "port_call rx tx fine i h h1 got put \<Longrightarrow> port_call rx tx fine i h1 h' got' put' \<Longrightarrow>
   port_call rx tx fine i h h' (got @ got') (put @ put')"
  by (auto simp: port_call_def)

lemma core_portsD:
  assumes "core_ports core rx tx fine"
  shows "core_available core i h = (n, h') \<Longrightarrow> port_call rx tx fine i h h' [] []"
    and "core_read core i h = (b, h') \<Longrightarrow> b < 0 \<Longrightarrow> port_call rx tx fine i h h' [] []"
    and "core_read core i h = (b, h') \<Longrightarrow> \<not> b < 0 \<Longrightarrow> port_call rx tx fine i h h' [of_int b] []"
    and "core_write core i bs h = (k, h') \<Longrightarrow> unat k \<le> length bs \<and> port_call rx tx fine i h h' [] (take (unat k) bs)"
    and "core_millis core h = (t, h') \<Longrightarrow> port_call rx tx fine i h h' [] []"
  using assms unfolding core_ports_def by (blast, metis, metis, blast, blast)

section \<open>The loops\<close>

lemma ard_read_loop_call:
  "core_ports core rx tx fine \<Longrightarrow> ard_read_loop core i h k = (bs, h') \<Longrightarrow>
   length bs \<le> k \<and> port_call rx tx fine i h h' bs []"
proof (induction core i h k arbitrary: bs h' rule: ard_read_loop.induct)
  case (1 core i h)
  then show ?case by (simp add: port_call_def)
next
  case (2 core i h k)
  obtain n h1 where av: "core_available core i h = (n, h1)" by fastforce
  obtain b h2 where rd: "core_read core i h1 = (b, h2)" by fastforce
  obtain bs' h3 where rest: "ard_read_loop core i h2 k = (bs', h3)" by fastforce
  note laws = core_portsD [OF 2(2)]
  show ?case
  proof (cases "n = 0 \<or> b < 0")
    case True
    then have "bs = []" and "port_call rx tx fine i h h' [] []"
      using 2(3) av rd laws(1) [OF av] laws(2) [OF rd] port_call_trans [of rx tx fine i h h1 "[]" "[]" h2 "[]" "[]"]
      by (auto split: if_splits)
    then show ?thesis by simp
  next
    case False
    with 2(3) av rd rest have out: "bs = of_int b # bs'" "h' = h3" by simp_all
    from 2(1) [OF av [symmetric] _ rd [symmetric]] False 2(2) rest
    have ih: "length bs' \<le> k" "port_call rx tx fine i h2 h3 bs' []" by auto
    have "port_call rx tx fine i h h2 [of_int b] []"
      using port_call_trans [OF laws(1) [OF av] laws(3) [OF rd]] False by simp
    from port_call_trans [OF this ih(2)] ih(1) show ?thesis by (simp add: out)
  qed
qed

lemma ard_wait_forever_call:
  assumes "core_ports core rx tx fine" and "ard_wait_forever core i h = Some h'"
  shows "port_call rx tx fine i h h' [] []"
proof -
  have "core_ports core rx tx fine \<longrightarrow> port_call rx tx fine i h h' [] []"
    using assms(2)
  proof (rule ard_wait_forever.raw_induct [rotated], goal_cases)
    case (1 f core i h h')
    obtain n h1 where av: "core_available core i h = (n, h1)" by fastforce
    show ?case
    proof
      assume core: "core_ports core rx tx fine"
      note av' = core_portsD(1) [OF core av]
      show "port_call rx tx fine i h h' [] []"
      proof (cases "n \<le> 0")
        case True
        with 1(2) av have "f core i h1 = Some h'" by simp
        from 1(1) [OF this] core have "port_call rx tx fine i h1 h' [] []" by blast
        from port_call_trans [OF av' this] show ?thesis by simp
      next
        case False
        with 1(2) av av' show ?thesis by simp
      qed
    qed
  qed
  with assms(1) show ?thesis by blast
qed

lemma ard_wait_loop_call:
  assumes "core_ports core rx tx fine" and "ard_wait_loop core i timeout start current h = Some (r, h')"
  shows "port_call rx tx fine i h h' [] []"
proof -
  have "core_ports core rx tx fine \<longrightarrow> port_call rx tx fine i h (snd (r, h')) [] []"
    using assms(2)
  proof (rule ard_wait_loop.raw_induct [rotated], goal_cases)
    case (1 f core i timeout start current h y)
    obtain n h1 where av: "core_available core i h = (n, h1)" by fastforce
    obtain t h2 where mi: "core_millis core h1 = (t, h2)" by fastforce
    show ?case
    proof
      assume core: "core_ports core rx tx fine"
      note av' = core_portsD(1) [OF core av] and mi' = core_portsD(5) [OF core mi, of i]
      show "port_call rx tx fine i h (snd y) [] []"
      proof (cases "current - start < timeout \<and> n \<le> 0")
        case True
        with 1(2) av mi have "f core i timeout start t h2 = Some y" by simp
        from 1(1) [OF this] core have "port_call rx tx fine i h2 (snd y) [] []" by blast
        from port_call_trans [OF port_call_trans [OF av' mi'] this] show ?thesis by simp
      next
        case False
        with 1(2) av av' show ?thesis by (auto split: if_splits)
      qed
    qed
  qed
  with assms(1) show ?thesis by simp
qed

section \<open>The contracts\<close>

text \<open>The index of the port a device uses, and what the device has sent and will read.\<close>

definition ard_port :: "'h arduino_device \<Rightarrow> nat" where
  "ard_port d = unat (of_int (ad_fd d) :: size_t)"

definition ard_is_open :: "string list \<Rightarrow> 'h arduino_device \<Rightarrow> bool" where
  "ard_is_open devmap d \<longleftrightarrow> ard_device_from_fd devmap (ad_fd d) \<noteq> None"

definition ard_view :: "(nat \<Rightarrow> 'h \<Rightarrow> 'x) \<Rightarrow> 'h arduino_device \<Rightarrow> 'x" where
  "ard_view f d = f (ard_port d) (ad_board d)"

lemma ard_open_port: "ard_is_open devmap d \<longleftrightarrow> ard_device_from_fd devmap (ad_fd d) = Some (ard_port d)"
  by (auto simp: ard_is_open_def ard_device_from_fd_def ard_port_def Let_def)

lemma ard_update [simp]:
  "ard_port (d\<lparr>ad_board := h\<rparr>) = ard_port d"
  "ard_is_open devmap (d\<lparr>ad_board := h\<rparr>) = ard_is_open devmap d"
  by (simp_all add: ard_port_def ard_is_open_def)

lemma ard_device_wait_call:
  assumes "core_ports core rx tx fine" and "ard_is_open devmap d"
    and "ard_device_wait core devmap d timeout = Some (r, d')"
  shows "\<exists>h. d' = d\<lparr>ad_board := h\<rparr> \<and> port_call rx tx fine (ard_port d) (ad_board d) h [] []"
proof -
  let ?i = "ard_port d"
  note call = core_portsD [OF assms(1)]
  obtain n h1 where av: "core_available core ?i (ad_board d) = (n, h1)" by fastforce
  obtain t2 h2 where m2: "core_millis core h1 = (t2, h2)" by fastforce
  obtain t3 h3 where m3: "core_millis core h2 = (t3, h3)" by fastforce
  obtain t4 h4 where m4: "core_millis core h3 = (t4, h4)" by fastforce
  have clock: "port_call rx tx fine ?i (ad_board d) h4 [] []"
    using port_call_trans [OF port_call_trans [OF port_call_trans [OF call(1) [OF av] call(5) [OF m2]]
        call(5) [OF m3]] call(5) [OF m4]] by simp
  note run = assms(3) [unfolded ard_device_wait_def assms(2) [unfolded ard_open_port], simplified, unfolded av, simplified]
  consider "n > 0" | "\<not> n > 0" "sint timeout < 0" | "\<not> n > 0" "\<not> sint timeout < 0" by blast
  then show ?thesis
  proof cases
    case 1
    with run call(1) [OF av] show ?thesis by auto
  next
    case 2
    with run obtain h where h: "ard_wait_forever core ?i h1 = Some h" "d' = d\<lparr>ad_board := h\<rparr>"
      by (auto simp: bind_eq_Some_conv)
    from port_call_trans [OF call(1) [OF av] ard_wait_forever_call [OF assms(1) h(1)]] h(2)
    show ?thesis by auto
  next
    case 3
    with run obtain h where h: "ard_wait_loop core ?i timeout t3 t4 h4 = Some (r, h)" "d' = d\<lparr>ad_board := h\<rparr>"
      by (auto simp: bind_eq_Some_conv m2 m3 m4)
    from port_call_trans [OF clock ard_wait_loop_call [OF assms(1) h(1)]] h(2)
    show ?thesis by auto
  qed
qed

text \<open>With a core as documented, the device is one a context can be used with.\<close>

lemma ard_waiting_device:
  assumes "core_ports core rx tx fine"
  shows "waiting_device (ard_ops core devmap) (ard_is_open devmap) (ard_view tx) (ard_view rx) (ard_view fine)"
proof (unfold_locales, goal_cases)
  case (1 d bs n d')
  then obtain h where "core_write core (ard_port d) bs (ad_board d) = (n, h)" "d' = d\<lparr>ad_board := h\<rparr>"
    by (auto simp: ard_ops_def ard_device_write_def ard_open_port split: prod.splits)
  with core_portsD(4) [OF assms this(1)] 1(1) show ?case by (simp add: ard_view_def port_call_def)
next
  case (2 d k bs d')
  then obtain h where "ard_read_loop core (ard_port d) (ad_board d) k = (bs, h)" "d' = d\<lparr>ad_board := h\<rparr>"
    by (auto simp: ard_ops_def ard_device_read_def ard_open_port split: prod.splits)
  with ard_read_loop_call [OF assms this(1)] 2(1) show ?case by (simp add: ard_view_def port_call_def)
next
  case (3 d k e d')
  then show ?case by (auto simp: ard_ops_def ard_device_read_def ard_open_port split: prod.splits)
next
  case (4 d k)
  then show ?case by (simp add: ard_ops_def)
next
  case (5 d k bs d')
  then obtain h where "ard_read_loop core (ard_port d) (ad_board d) k = (bs, h)" "d' = d\<lparr>ad_board := h\<rparr>"
    by (auto simp: ard_ops_def ard_device_read_def ard_open_port split: prod.splits)
  with ard_read_loop_call [OF assms this(1)] show ?case by (simp add: ard_view_def port_call_def)
next
  case (6 d t r d')
  then have "ard_device_wait core devmap d t = Some (r, d')" by (simp add: ard_ops_def)
  from ard_device_wait_call [OF assms 6(1) this] 6(1) show ?case by (auto simp: ard_view_def port_call_def)
qed

lemma fd_by_name_loop_index:
  "fd_by_name_loop ns name i = Inr fd \<Longrightarrow> \<exists>k < length ns. fd = int (i + k) \<and> ns ! k = name"
proof (induction ns name i rule: fd_by_name_loop.induct)
  case (2 n ns name i)
  show ?case
  proof (cases "name = n")
    case True
    with 2(2) show ?thesis by (intro exI [of _ 0]) simp
  next
    case False
    with 2 obtain k where "k < length ns" "fd = int (Suc i + k)" "ns ! k = name" by auto
    then show ?thesis by (intro exI [of _ "Suc k"]) simp
  qed
qed simp

lemma fd_by_name_loop_missing:
  "fd_by_name_loop ns name i = Inl e \<longleftrightarrow> name \<notin> set ns \<and> e = SMP_ERROR_NO_DEVICE"
  by (induction ns name i rule: fd_by_name_loop.induct) auto

lemma ard_device_index:
  "k < length devmap \<Longrightarrow> length devmap < 2 ^ 64 \<Longrightarrow> ard_device_from_fd devmap (int k) = Some k"
  by (simp add: ard_device_from_fd_def unat_of_nat_size)

interpretation ard_life: managed_device "ard_ops core devmap" "ard_is_open devmap" "\<lambda>_. length devmap < 2 ^ 64"
  for core devmap
proof (unfold_locales, goal_cases)
  case (2 d path r d')
  then show ?case
    by (auto simp: ard_ops_def ard_device_open_def get_device_fd_by_name_def bind_eq_Some_conv ard_is_open_def
        split: sum.splits)
next
  case (4 d baudrate parity fc s d')
  then show ?case
    by (auto simp: ard_ops_def ard_device_set_config_def bind_eq_Some_conv Let_def split: option.splits if_splits)
next
  case (5 d bs w d')
  then show ?case
    by (auto simp: ard_ops_def ard_device_write_def split: option.splits prod.splits)
next
  case (6 d k a d')
  then show ?case
    by (auto simp: ard_ops_def ard_device_read_def split: option.splits prod.splits)
next
  case (7 d t s d')
  then show ?case
    by (auto simp: ard_ops_def ard_device_wait_def bind_eq_Some_conv split: option.splits prod.splits if_splits)
qed simp_all

section \<open>Waiting\<close>

lemma of_nat_diff_u32:
  "s \<le> c \<Longrightarrow> c - s < 2 ^ 32 \<Longrightarrow> unat (of_nat c - of_nat s :: u32) = c - s"
  by (simp add: unat_of_nat take_bit_nat_eq_self flip: of_nat_diff)

text \<open>
  The last look of a wait at the port \<open>i\<close>, at \<open>h0\<close> or later: success if it saw a byte, a timeout
  otherwise, and then not before the time \<open>limit\<close> (in milliseconds).
\<close>

definition last_look ::
  "'h arduino_core \<Rightarrow> ('h \<Rightarrow> nat) \<Rightarrow> nat \<Rightarrow> 'h \<Rightarrow> nat \<Rightarrow> (smp_error + unit) \<Rightarrow> 'h \<Rightarrow> bool" where
  "last_look core time i h0 limit r h' \<longleftrightarrow>
     (\<exists>h n. time h0 \<le> time h \<and> core_available core i h = (n, h') \<and>
       (if 0 < n then r = Inr () else r = Inl SMP_ERROR_TIMEDOUT \<and> limit \<le> time h' div 1000))"

lemma last_look_later: "time h0 \<le> time h1 \<Longrightarrow> last_look core time i h1 limit r h' \<Longrightarrow> last_look core time i h0 limit r h'"
  unfolding last_look_def by (meson le_trans)

lemma ard_wait_loop_returns:
  assumes "core_clock core time" and "T < 2 ^ 31" and "s \<le> c" and "c < s + T + 2 * 10 ^ 9"
    and "c = time h div 1000"
  shows "\<exists>r h'. ard_wait_loop core i (of_nat T) (of_nat s) (of_nat c) h = Some (r, h') \<and>
    last_look core time i h (s + T) r h'"
  using assms(3-5)
proof (induction "1000 * (s + T) - time h" arbitrary: c h rule: less_induct)
  case less
  obtain n h1 where av: "core_available core i h = (n, h1)" by fastforce
  obtain t h2 where mi: "core_millis core h1 = (t, h2)" by fastforce
  have t1: "time h \<le> time h1" "time h1 < time h + 10 ^ 12"
    and t2: "time h1 < time h2" "time h2 < time h1 + 10 ^ 12" "t = of_nat (time h2 div 1000)"
    using assms(1) av mi by (auto simp: core_clock_def)
  have elapsed: "(of_nat c - of_nat s :: u32) < of_nat T \<longleftrightarrow> c - s < T"
    using less.prems assms(2)
    by (simp add: word_less_nat_alt of_nat_diff_u32 unat_of_nat take_bit_nat_eq_self)
  show ?case
  proof (cases "c - s < T \<and> \<not> n > 0")
    case False
    have "\<not> n > 0 \<longrightarrow> s + T \<le> time h1 div 1000"
      using False t1 less.prems by (auto simp: not_less le_diff_conv2 intro: order_trans [OF _ div_le_mono])
    then have "last_look core time i h (s + T) (if n > 0 then Inr () else Inl SMP_ERROR_TIMEDOUT) h1"
      unfolding last_look_def using av by (intro exI [of _ h] exI [of _ n]) auto
    with False av elapsed show ?thesis by (subst ard_wait_loop.simps) (auto simp: not_less)
  next
    case True
    let ?c = "time h2 div 1000"
    have near: "c + 1 \<le> s + T" "time h < 1000 * c + 1000"
      using True less.prems(1) by linarith (simp add: less.prems(3))
    have "s \<le> ?c" using less.prems t1 t2 by (auto intro: order_trans [OF _ div_le_mono])
    moreover have "?c < s + T + 2 * 10 ^ 9" 
    proof (rule less_mult_imp_div_less)
      show "time h2 < (s + T + 2 * 10 ^ 9) * 1000" using t1 t2 near by simp
    qed
    moreover have "1000 * (s + T) - time h2 < 1000 * (s + T) - time h"
    proof (rule diff_less_mono2)
      show "time h < time h2" using t1 t2 by simp
      show "time h < 1000 * (s + T)" using near by simp
    qed
    ultimately obtain r h' where "ard_wait_loop core i (of_nat T) (of_nat s) (of_nat ?c) h2 = Some (r, h')"
      and look: "last_look core time i h2 (s + T) r h'"
      using less.hyps [of h2 ?c] by blast
    then have "ard_wait_loop core i (of_nat T) (of_nat s) (of_nat c) h = Some (r, h')"
      using True av mi elapsed t2(3) by (subst ard_wait_loop.simps) simp
    moreover have "time h \<le> time h2" using t1 t2 by simp
    then have "last_look core time i h (s + T) r h'" using look by (rule last_look_later)
    ultimately show ?thesis by blast
  qed
qed

text \<open>
  C39: Waiting with a timeout returns, whenever the clock of the board wraps around. It ends with a
  look at the port: success means that this look saw a byte, and \<open>SMP_ERROR_TIMEDOUT\<close> that it saw
  none and that the timeout has passed.
\<close>

theorem arduino_wait_returns:
  assumes "core_clock core time" and "ard_is_open devmap d" and "0 \<le> sint timeout"
  shows "\<exists>r d' h n. ard_device_wait core devmap d timeout = Some (r, d') \<and>
    time (ad_board d) \<le> time h \<and> core_available core (ard_port d) h = (n, ad_board d') \<and>
    (if 0 < n then r = Inr ()
     else r = Inl SMP_ERROR_TIMEDOUT \<and>
       time (ad_board d) div 1000 + nat (sint timeout) \<le> time (ad_board d') div 1000)"
proof -
  let ?i = "ard_port d" and ?T = "nat (sint timeout)" and ?limit = "time (ad_board d) div 1000 + nat (sint timeout)"
  obtain n h1 where av: "core_available core ?i (ad_board d) = (n, h1)" by fastforce
  obtain t2 h2 where m2: "core_millis core h1 = (t2, h2)" by fastforce
  obtain t3 h3 where m3: "core_millis core h2 = (t3, h3)" by fastforce
  obtain t4 h4 where m4: "core_millis core h3 = (t4, h4)" by fastforce
  have times: "time (ad_board d) \<le> time h1" "time h1 < time h2" "time h2 < time h3" "time h3 < time h4"
    "time h4 < time h3 + 10 ^ 12" "t3 = of_nat (time h3 div 1000)" "t4 = of_nat (time h4 div 1000)"
    using assms(1) av m2 m3 m4 by (auto simp: core_clock_def)
  have T: "?T < 2 ^ 31" "timeout = of_nat ?T"
    using sint_less [of timeout] assms(3) by (simp_all add: nat_less_iff)
  have "time h3 div 1000 \<le> time h4 div 1000" using times by (intro div_le_mono) simp
  moreover have "time h4 div 1000 < time h3 div 1000 + ?T + 2 * 10 ^ 9"
  proof (rule less_mult_imp_div_less)
    have "time h3 < 1000 * (time h3 div 1000) + 1000" by simp
    then show "time h4 < (time h3 div 1000 + ?T + 2 * 10 ^ 9) * 1000"
      using times(5) by (simp only: add_mult_distrib) (simp add: algebra_simps)
  qed
  ultimately obtain r h' where loop: "ard_wait_loop core ?i timeout t3 t4 h4 = Some (r, h')"
    "last_look core time ?i h4 (time h3 div 1000 + ?T) r h'"
    using ard_wait_loop_returns [OF assms(1) T(1), of "time h3 div 1000" "time h4 div 1000" h4 ?i] times T(2) by auto
  have start: "time (ad_board d) div 1000 \<le> time h3 div 1000" "time (ad_board d) \<le> time h4"
    using times by (auto intro: div_le_mono)
  show ?thesis
  proof (cases "n > 0")
    case True
    with assms(2) av show ?thesis
      by (intro exI [of _ "Inr ()"] exI [of _ "d\<lparr>ad_board := h1\<rparr>"] exI [of _ "ad_board d"] exI [of _ n])
        (simp add: ard_device_wait_def ard_open_port)
  next
    case False
    with assms(2,3) av m2 m3 m4 loop(1)
    have run: "ard_device_wait core devmap d timeout = Some (r, d\<lparr>ad_board := h'\<rparr>)"
      by (simp add: ard_device_wait_def ard_open_port)
    from loop(2) start(2) obtain h n' where "time (ad_board d) \<le> time h" "core_available core ?i h = (n', h')"
      "if 0 < n' then r = Inr () else r = Inl SMP_ERROR_TIMEDOUT \<and> time h3 div 1000 + ?T \<le> time h' div 1000"
      by (auto simp: last_look_def intro: le_trans)
    with run start(1) show ?thesis
      by (intro exI [of _ r] exI [of _ "d\<lparr>ad_board := h'\<rparr>"] exI [of _ h] exI [of _ n']) (auto split: if_splits)
  qed
qed

section \<open>Reading everything\<close>

text \<open>A core whose bytes have all arrived: a port says it has none only if it has none.\<close>

definition core_prompt :: "'h arduino_core \<Rightarrow> (nat \<Rightarrow> 'h \<Rightarrow> byte list) \<Rightarrow> bool" where
  "core_prompt core rx \<longleftrightarrow>
     (\<forall>i h h'. core_available core i h = (0, h') \<longrightarrow> rx i h = []) \<and>
     (\<forall>i h b h'. core_read core i h = (b, h') \<longrightarrow> b < 0 \<longrightarrow> rx i h = [])"

lemma ard_read_prompt:
  assumes "core_ports core rx tx fine" and "core_prompt core rx"
    and "ard_read_loop core i h (Suc k) = ([], h')"
  shows "rx i h' = []"
proof -
  obtain n h1 where av: "core_available core i h = (n, h1)" by fastforce
  obtain b h2 where rd: "core_read core i h1 = (b, h2)" by fastforce
  obtain bs h3 where rest: "ard_read_loop core i h2 k = (bs, h3)" by fastforce
  note av' = core_portsD(1) [OF assms(1) av]
  show ?thesis
  proof (cases "n = 0")
    case True
    with av assms(2) have "rx i h = []" by (simp add: core_prompt_def)
    with av' assms(3) av True show ?thesis by (simp add: port_call_def)
  next
    case False
    with assms(3) av rd rest have b: "b < 0" "h' = h2" by (simp_all split: if_splits)
    with rd assms(2) have "rx i h1 = []" by (auto simp: core_prompt_def)
    with core_portsD(2) [OF assms(1) rd b(1)] b(2) show ?thesis by (simp add: port_call_def)
  qed
qed

lemma ard_drains_prompt:
  assumes "drains (ard_ops core devmap) k d chunks r d'" and "ard_is_open devmap d" and "0 < k"
    and "core_ports core rx tx fine" and "core_prompt core rx"
  shows "r = Inr () \<and> ard_view rx d' = []"
  using assms
proof (induction rule: drains.induct)
  case (error d e d')
  then show ?case by (auto simp: ard_ops_def ard_device_read_def ard_open_port split: prod.splits)
next
  case (empty d d')
  then obtain h where h: "ard_read_loop core (ard_port d) (ad_board d) k = ([], h)" "d' = d\<lparr>ad_board := h\<rparr>"
    by (auto simp: ard_ops_def ard_device_read_def ard_open_port split: prod.splits)
  from empty(3) obtain j where "k = Suc j" by (cases k) auto
  with ard_read_prompt [OF empty(4,5)] h show ?case by (simp add: ard_view_def)
next
  case (chunk d bs d1 chunks r d')
  then have "ard_is_open devmap d1"
    by (auto simp: ard_ops_def ard_device_read_def ard_open_port split: prod.splits)
  with chunk show ?case by blast
qed

section \<open>A sample board\<close>

text \<open>One port, all of whose bytes have arrived; each call takes a millisecond.\<close>

record board =
  bd_rx :: "byte list"
  bd_tx :: "byte list"
  bd_time :: nat

definition tick :: "board \<Rightarrow> board" where
  "tick b = b\<lparr>bd_time := bd_time b + 1000\<rparr>"

definition sample_core :: "board arduino_core" where
  "sample_core = \<lparr>core_begin = (\<lambda>i br b. b), core_begin_config = (\<lambda>i br mode b. b), core_end = (\<lambda>i b. b),
     core_available = (\<lambda>i b. (int (length (bd_rx b)), tick b)),
     core_read = (\<lambda>i b. case bd_rx b of [] \<Rightarrow> (-1, b) | x # xs \<Rightarrow> (uint x, b\<lparr>bd_rx := xs\<rparr>)),
     core_write = (\<lambda>i bs b. let n = min (length bs) 100 in (of_nat n, b\<lparr>bd_tx := bd_tx b @ take n bs\<rparr>)),
     core_ready = (\<lambda>i b. (True, b)),
     core_millis = (\<lambda>b. (of_nat (bd_time (tick b) div 1000), tick b)),
     core_8N1 = 6, core_8O1 = 54, core_8E1 = 38\<rparr>"

lemma sample_core_ports: "core_ports sample_core (\<lambda>_. bd_rx) (\<lambda>_. bd_tx) (\<lambda>_ _. True)"
  by (auto simp: core_ports_def sample_core_def port_call_def tick_def Let_def unat_of_nat_size
      split: list.split)

lemma sample_core_clock: "core_clock sample_core bd_time"
  by (auto simp: core_clock_def sample_core_def tick_def)

lemma sample_core_prompt: "core_prompt sample_core (\<lambda>_. bd_rx)"
  by (auto simp: core_prompt_def sample_core_def split: list.splits)

text \<open>A wait of 20 ms while the clock wraps around, on a port with no byte.\<close>

theorem arduino_wait_returns_witness:
  "\<exists>r d' h n. ard_device_wait sample_core devmap_teensy
       \<lparr>ad_fd = 1, ad_board = \<lparr>bd_rx = [], bd_tx = [], bd_time = 4294967290000\<rparr>\<rparr> 20 = Some (r, d') \<and>
     core_available sample_core 1 h = (n, ad_board d') \<and> (r = Inr () \<longleftrightarrow> 0 < n)"
proof -
  let ?d = "\<lparr>ad_fd = 1, ad_board = \<lparr>bd_rx = [], bd_tx = [], bd_time = 4294967290000\<rparr>\<rparr> :: board arduino_device"
  have "ard_is_open devmap_teensy ?d" "ard_port ?d = 1"
    by (simp_all add: ard_is_open_def ard_port_def ard_device_from_fd_def devmap_teensy_def)
  with arduino_wait_returns [OF sample_core_clock this(1), of 20] show ?thesis
    by (fastforce split: if_splits)
qed

end
