(* ===== verification/Smp_System_Arduino.thy ===== *)
theory Smp_System_Arduino
  imports Smp_System Smp_Arduino_Spec
begin

text \<open>Contexts on an Arduino board, and what a host sends them.\<close>

section \<open>Delivery\<close>

text \<open>
  C18: Delivery from a host to an Arduino board of the same byte order, outside the AVR family (so that its
  compiler has a \<open>double\<close> of 8 bytes, as the codec of the library needs), and whose core behaves as
  it is documented. If no byte was lost in the receive buffer by the time the port says it is empty, the
  messages complete in what was read are reported, in order and nothing else, and when nothing is
  still to arrive these are all. If everything had arrived before, processing returns success
  with the port read empty.
\<close>

theorem host_to_arduino_delivery:
  assumes "plat_ops pa = posix_ops" and "posix_is_open (ctx_device a)" and "ctx_opened a" and "tx_ready a"
    and "\<And>m. m \<in> set ms \<Longrightarrow> sendable pa m" and "send_all pa al a ms = Some (Inr (), a')"
    and "core_ports core rx tx fine"
    and "posix_sent (ctx_device a') = posix_sent (ctx_device a) @ ard_view rx (ctx_device b)"
    and "plat_ops pb = ard_ops core devmap" and "\<not> plat_avr pb" and "plat_order pb = plat_order pa" and "0 < plat_chunk pb"
    and "ard_is_open devmap (ctx_device b)" and "ctx_opened b" and "rx_idle b" and "receivable pb als b ms"
  shows "\<exists>chunks r d'. drains (ard_ops core devmap) (plat_chunk pb) (ctx_device b) chunks r d' \<and>
    (ard_view fine d' \<longrightarrow> (\<exists>b' n. smp_context_process_fd pb als recorder (Some b) = Some (r, Some b') \<and>
      ctx_device b' = d' \<and> ctx_userdata b' = ctx_userdata b @
        map (\<lambda>m. Received (msgid m) (Some (filter arg_fits (the (message_args m))))) (take n ms) \<and>
      (ard_view rx d' = [] \<longrightarrow> n = length ms))) \<and>
    (core_prompt core rx \<longrightarrow> r = Inr () \<and> ard_view rx d' = [])"
proof -
  have dev: "serial_device (ard_ops core devmap) (ard_is_open devmap) (ard_view tx) (ard_view rx) (ard_view fine)"
    by (rule waiting_device.axioms(1) [OF ard_waiting_device [OF assms(7)]])
  have "ard_view rx (ctx_device b) = concat (map (frame_of pa) ms)"
    using posix.send_all_sent [OF assms(1-6)] assms(8) by simp
  moreover have "frame_of pb = frame_of pa"
    by (simp add: frame_of_def [abs_def] outgoing_def assms(11))
  ultimately have pending: "ard_view rx (ctx_device b) = line_bytes (plat_order pb) (delivered ms)"
    by (simp add: line_bytes_delivered)
  have idle: "decoder_inv (ctx_decoder b)" "dec_state (ctx_decoder b) = WAIT_HEADER"
      "sized (ctx_decoder b)" "rx_ready b"
    using assms(15) by (simp_all add: rx_idle_def)
  have sane: "\<forall>k. sane (al_decoder_buf (als k))" using assms(16) by (simp add: receivable_def)
  from serial_device.process_fd_stream [OF dev assms(9,13,14) idle(1-3) sane idle(4)
      receivable_segments [OF assms(16)] pending]
  obtain chunks r d' where dr: "drains (ard_ops core devmap) (plat_chunk pb) (ctx_device b) chunks r d'"
    and run: "ard_view fine d' \<Longrightarrow> \<exists>b' n. smp_context_process_fd pb als recorder (Some b) = Some (r, Some b') \<and>
      ctx_device b' = d' \<and> ctx_userdata b' = ctx_userdata b @ journal (take n (delivered ms)) \<and>
      (ard_view rx d' = [] \<longrightarrow> n = length (delivered ms))"
    by blast
  have "journal (take n (delivered ms)) =
      map (\<lambda>m. Received (msgid m) (Some (filter arg_fits (the (message_args m))))) (take n ms)" for n
    by (simp add: journal_def delivered_def comp_def take_map)
  with run have "ard_view fine d' \<longrightarrow> (\<exists>b' n. smp_context_process_fd pb als recorder (Some b) = Some (r, Some b') \<and>
      ctx_device b' = d' \<and> ctx_userdata b' = ctx_userdata b @
        map (\<lambda>m. Received (msgid m) (Some (filter arg_fits (the (message_args m))))) (take n ms) \<and>
      (ard_view rx d' = [] \<longrightarrow> n = length ms))"
    by (simp add: delivered_def)
  with dr ard_drains_prompt [OF dr assms(13,12,7)] show ?thesis by blast
qed

definition ard_platform :: "board arduino_device platform" where
  "ard_platform = \<lparr>plat_ops = ard_ops sample_core devmap_teensy, plat_order = LittleEndian, plat_chunk = 1, plat_avr = False\<rparr>"

definition sample_board :: "byte list \<Rightarrow> board arduino_device" where
  "sample_board bs = \<lparr>ad_fd = 1, ad_board = \<lparr>bd_rx = bs, bd_tx = [], bd_time = 0\<rparr>\<rparr>"

lemma sample_board_facts:
  "ard_is_open devmap_teensy (sample_board bs)" "ard_view (\<lambda>_. bd_rx) (sample_board bs) = bs"
  by (simp_all add: ard_is_open_def ard_device_from_fd_def devmap_teensy_def sample_board_def ard_view_def)

lemma ard_platform_facts:
  "plat_ops ard_platform = ard_ops sample_core devmap_teensy" "plat_chunk ard_platform = 1"
  "plat_order ard_platform = plat_order host_platform" "\<not> plat_avr ard_platform"
  by (simp_all add: ard_platform_def host_platform_def)

theorem host_to_arduino_delivery_witness:
  "\<exists>b'. smp_context_process_fd ard_platform (\<lambda>_. granting) recorder
       (Some (sample_context (sample_board (frame_of host_platform sample_message)))) =
       Some (Inr (), Some b') \<and>
     ctx_userdata b' = [Received 33 (Some sample_args)]"
proof -
  let ?f = "frame_of host_platform sample_message"
  let ?b = "sample_board ?f"
  obtain a' where a': "send_all host_platform granting (sample_context (host_device [] [Inr 100])) [sample_message] =
      Some (Inr (), a')" "posix_sent (ctx_device a') = ?f" by (rule host_sends_sample)
  have "\<exists>chunks r d'. drains (ard_ops sample_core devmap_teensy) (plat_chunk ard_platform)
      (ctx_device (sample_context ?b)) chunks r d' \<and>
    (ard_view (\<lambda>_ _. True) d' \<longrightarrow> (\<exists>b' n. smp_context_process_fd ard_platform (\<lambda>_. granting) recorder
        (Some (sample_context ?b)) = Some (r, Some b') \<and>
      ctx_device b' = d' \<and> ctx_userdata b' = ctx_userdata (sample_context ?b) @
        map (\<lambda>m. Received (msgid m) (Some (filter arg_fits (the (message_args m))))) (take n [sample_message]) \<and>
      (ard_view (\<lambda>_. bd_rx) d' = [] \<longrightarrow> n = length [sample_message]))) \<and>
    (core_prompt sample_core (\<lambda>_. bd_rx) \<longrightarrow> r = Inr () \<and> ard_view (\<lambda>_. bd_rx) d' = [])"
    by (rule host_to_arduino_delivery [where pa = host_platform and al = granting and a' = a' and
          a = "sample_context (host_device [] [Inr 100])" and tx = "\<lambda>_. bd_tx"])
      (use a' sample_core_ports sample_receiver sample_context_ready(2)
        in \<open>simp_all add: sample_board_facts ard_platform_facts host_device_facts sample_context_facts platform_facts\<close>)
  then show ?thesis
    using sample_core_prompt by (auto simp: ard_view_def sample_context_facts sample_message_args sample_facts)
qed

section \<open>The life of a context\<close>

text \<open>
  On an Arduino board, whatever sequence of calls an application and its callbacks make, a context
  that is opened uses a port of the board's table, and a name that is not in the table is never opened.
\<close>

theorem arduino_context_invariant:
  assumes "plat_ops plat = ard_ops core devmap" and "length devmap < 2 ^ 64" and "restrained plat cbs"
    and "api_reachable (\<lambda>_. length devmap < 2 ^ 64) plat cbs c"
  shows "(ctx_opened c \<longrightarrow> ard_port (ctx_device c) < length devmap) \<and>
    (name \<notin> set devmap \<longrightarrow> \<not> ctx_opened c \<longrightarrow>
      smp_context_open plat (Some c) (Some name) = Some (Inl SMP_ERROR_NO_DEVICE, Some c))"
proof -
  have safe: "ctx_opened c \<longrightarrow> ard_is_open devmap (ctx_device c)"
    using ard_life.life_safe [OF api_reachable_living [OF assms(4,3), unfolded assms(1)]] by simp
  have "name \<notin> set devmap \<Longrightarrow> get_device_fd_by_name devmap name = Inl SMP_ERROR_NO_DEVICE"
    by (simp add: get_device_fd_by_name_def fd_by_name_loop_missing)
  with safe assms(1) show ?thesis
    by (auto simp: ard_is_open_def ard_port_def ard_device_from_fd_def Let_def smp_context_open_def
        ard_ops_def ard_device_open_def split: if_splits)
qed

theorem arduino_context_invariant_witness:
  "\<exists>c. api_reachable (\<lambda>_. length devmap_teensy < 2 ^ 64) ard_platform recorder c \<and> \<not> ctx_opened c \<and>
     smp_context_open ard_platform (Some c) (Some ''com1'') = Some (Inl SMP_ERROR_NO_DEVICE, Some c)"
proof -
  have len: "length devmap_teensy < 2 ^ 64" by (simp add: devmap_teensy_def)
  obtain c where c: "smp_context_new ard_platform granting (sample_board []) (Some recorder) [] = Some c"
    "\<not> ctx_opened c" using ard_platform_facts(4) by (rule new_context)
  have "api_reachable (\<lambda>_. length devmap_teensy < 2 ^ 64) ard_platform recorder c"
    using len c(1) by (rule created)
  with arduino_context_invariant [OF ard_platform_facts(1) len restrained_recorder this, of "''com1''"] c(2)
  show ?thesis by (intro exI [of _ c]) (simp add: devmap_teensy_def)
qed

end
