(* ===== verification/Smp_Avr_Chip.thy ===== *)
theory Smp_Avr_Chip
  imports Smp_Avr_Spec
begin

text \<open>
  The tables of UARTs in \<open>src/serial-device-avr.c\<close>: for each of the two chips the library knows, the
  array \<open>avr_uart_devices\<close> with the UARTs that the macros \<open>AVR_ENABLE_SERIALn\<close> enable, and the vectors
  of their receive interrupts. The preprocessor computes, for each vector, which element of the
  array it serves.

  \<open>en n\<close>: \<open>AVR_ENABLE_SERIALn\<close> is defined; \<open>hw n\<close>: what the registers of USART \<open>n\<close> hold at reset;
  \<open>n_cbuf\<close>: \<open>SMP_SERIAL_DEVICE_AVR_CBUF_SIZE\<close>.
\<close>

section \<open>Tables and vectors\<close>

datatype avr_chip = ATmega328P | ATmega2560

definition define_uart_device :: "nat \<Rightarrow> string \<Rightarrow> uart_registers \<Rightarrow> uart" where
  "define_uart_device n_cbuf sname regs =
     \<lparr>uart_name = sname, uart_regs = regs, cbuf = replicate n_cbuf 0, rindex = 0, windex = 0, uart_out = []\<rparr>"

fun avr_uart_devices :: "avr_chip \<Rightarrow> (nat \<Rightarrow> bool) \<Rightarrow> nat \<Rightarrow> (nat \<Rightarrow> uart_registers) \<Rightarrow> uart list" where
  "avr_uart_devices ATmega328P en n_cbuf hw =
     (if en 0 then [define_uart_device n_cbuf ''serial0'' (hw 0)] else [])"
| "avr_uart_devices ATmega2560 en n_cbuf hw =
     (if en 0 then [define_uart_device n_cbuf ''serial0'' (hw 0)] else []) @
     (if en 1 then [define_uart_device n_cbuf ''serial1'' (hw 1)] else []) @
     (if en 2 then [define_uart_device n_cbuf ''serial2'' (hw 2)] else []) @
     (if en 3 then [define_uart_device n_cbuf ''serial3'' (hw 3)] else [])"

text \<open>\<open>SERIAL_DEVICE_n_INDEX\<close>\<close>

fun serial_device_index :: "(nat \<Rightarrow> bool) \<Rightarrow> nat \<Rightarrow> int" where
  "serial_device_index en 0 = (if en 0 then 0 else -1)"
| "serial_device_index en (Suc n) =
     (if en (Suc n) then serial_device_index en n + 1 else serial_device_index en n)"

fun chip_usarts :: "avr_chip \<Rightarrow> nat" where
  "chip_usarts ATmega328P = 1"
| "chip_usarts ATmega2560 = 4"

text \<open>
  The vector of USART \<open>n\<close>, run when that USART has received the byte \<open>dr\<close>. \<^const>\<open>None\<close>: the library
  defines no handler for the vector, or its handler uses an address outside the array.
\<close>

definition usart_rx_vect ::
  "avr_chip \<Rightarrow> (nat \<Rightarrow> bool) \<Rightarrow> nat \<Rightarrow> byte \<Rightarrow> avr_device \<Rightarrow> avr_device option" where
  "usart_rx_vect chip en n dr d =
     (if n < chip_usarts chip \<and> en n then
        (let i = serial_device_index en n in
         if 0 \<le> i \<and> nat i < length (avr_uarts d)
         then Some (update_uart (nat i) (\<lambda>u. rx_interrupt_handler u dr) d) else None)
      else None)"

text \<open>The name that an application gives for USART \<open>n\<close>.\<close>

definition serial_name :: "nat \<Rightarrow> string" where
  "serial_name n = ''serial'' @ [[CHR ''0'', CHR ''1'', CHR ''2'', CHR ''3''] ! n]"

section \<open>Tables\<close>

lemma chip_usart_cases:
  assumes "n < chip_usarts chip"
  obtains "chip = ATmega328P" "n = 0" | "chip = ATmega2560" "n = 0" | "chip = ATmega2560" "n = 1"
    | "chip = ATmega2560" "n = 2" | "chip = ATmega2560" "n = 3"
proof (cases chip)
  case ATmega2560
  with assms have "n = 0 \<or> n = 1 \<or> n = 2 \<or> n = 3" by auto
  with ATmega2560 that show thesis by blast
qed (use assms that in auto)

lemmas chip_simps = define_uart_device_def serial_name_def numeral_2_eq_2 numeral_3_eq_3

text \<open>The element of the table that a vector serves is the one with the name of its USART.\<close>

lemma chip_enabled:
  assumes "n < chip_usarts chip" and "en n"
  shows "0 \<le> serial_device_index en n"
    and "nat (serial_device_index en n) < length (avr_uart_devices chip en n_cbuf hw)"
    and "uart_name (avr_uart_devices chip en n_cbuf hw ! nat (serial_device_index en n)) = serial_name n"
    and "uart_regs (avr_uart_devices chip en n_cbuf hw ! nat (serial_device_index en n)) = hw n"
  using assms by (cases rule: chip_usart_cases [OF assms(1)]; auto simp: chip_simps)+

lemma chip_disabled:
  assumes "n < chip_usarts chip" and "\<not> en n"
  shows "serial_name n \<notin> uart_name ` set (avr_uart_devices chip en n_cbuf hw)"
  using assms by (cases rule: chip_usart_cases [OF assms(1)]; auto simp: chip_simps)

lemma chip_distinct: "distinct (map uart_name (avr_uart_devices chip en n_cbuf hw))"
  by (cases chip) (auto simp: define_uart_device_def)

lemma chip_uart_inv:
  assumes "2 \<le> n_cbuf" and "n_cbuf \<le> 256"
  shows "\<forall>u \<in> set (avr_uart_devices chip en n_cbuf hw). uart_inv u \<and> ring_size u = 0"
  using assms by (cases chip) (auto simp: define_uart_device_def uart_inv_def ring_size_def)

section \<open>Interrupts\<close>

lemma table_slot:
  assumes "map uart_name us = map uart_name vs" and "i < length vs"
  shows "i < length us \<and> uart_name (us ! i) = uart_name (vs ! i)"
proof -
  have len: "length us = length vs" using assms(1) by (metis length_map)
  moreover have "map uart_name us ! i = map uart_name vs ! i" using assms(1) by simp
  ultimately show ?thesis using assms(2) by simp
qed

lemma distinct_names_slot:
  assumes "distinct (map uart_name us)" and "i < length us" and "j < length us"
    and "uart_name (us ! i) = uart_name (us ! j)"
  shows "i = j"
  using assms nth_eq_iff_index_eq [of "map uart_name us" i j] by simp

text \<open>Opening by name leaves the names and gives the index of the only element with that name.\<close>

lemma open_by_name:
  assumes "distinct (map uart_name (avr_uarts d))" and "i < length (avr_uarts d)"
    and "avr_device_open setbaud d (uart_name (avr_uarts d ! i)) = (Inr ret, d')"
  shows "avr_fd d' = int i \<and> map uart_name (avr_uarts d') = map uart_name (avr_uarts d)"
proof (cases rule: open_loop_cases [of setbaud "uart_name (avr_uarts d ! i)" 0 "avr_uarts d"])
  case missing
  then show ?thesis using assms(2) by auto
next
  case (found n)
  have n: "n = i" using distinct_names_slot [OF assms(1) found(1) assms(2)] found(2) by simp
  show ?thesis
  proof (cases rule: init_uart_cases [of setbaud "avr_uarts d ! n"])
    case busy
    then show ?thesis using assms(3) found(4) by (simp add: avr_device_open_def)
  next
    case (ready u')
    then have "(map uart_name (avr_uarts d))[i := uart_name u'] = map uart_name (avr_uarts d)"
      using n assms(2) by (intro list_update_same_conv [THEN iffD2]) (auto simp: same_ring_def)
    with ready assms(3) found(4) n show ?thesis by (auto simp: avr_device_open_def map_update)
  qed
qed

lemma open_missing:
  assumes "path \<notin> uart_name ` set (avr_uarts d)"
  shows "avr_device_open setbaud d path = (Inl SMP_ERROR_NO_DEVICE, d)"
  using assms
  by (cases rule: open_loop_cases [of setbaud path 0 "avr_uarts d"]) (auto simp: avr_device_open_def)

text \<open>
  C40: The index that the preprocessor computes for the vector of USART \<open>n\<close> is that of the element
  with this USART's name, for every choice of enabled UARTs on both chips: a byte that the USART
  receives goes to the ring buffer of the device that the name opens, and to no other. A USART that
  is not enabled has no handler and its name cannot be opened.
\<close>

theorem avr_interrupt_own_uart:
  assumes "n < chip_usarts chip"
    and "map uart_name (avr_uarts d) = map uart_name (avr_uart_devices chip en n_cbuf hw)"
  shows "if en n then \<exists>i. serial_device_index en n = int i \<and> i < length (avr_uarts d) \<and>
      uart_regs (avr_uart_devices chip en n_cbuf hw ! i) = hw n \<and>
      usart_rx_vect chip en n dr d =
        Some (d\<lparr>avr_uarts := (avr_uarts d)[i := rx_interrupt_handler (avr_uarts d ! i) dr]\<rparr>) \<and>
      (\<forall>ret d'. avr_device_open setbaud d (serial_name n) = (Inr ret, d') \<longrightarrow>
        avr_fd d' = int i \<and> map uart_name (avr_uarts d') = map uart_name (avr_uarts d))
    else usart_rx_vect chip en n dr d = None \<and>
      avr_device_open setbaud d (serial_name n) = (Inl SMP_ERROR_NO_DEVICE, d)"
proof (cases "en n")
  case True
  define i where "i = nat (serial_device_index en n)"
  have slot: "serial_device_index en n = int i" "i < length (avr_uart_devices chip en n_cbuf hw)"
    "uart_name (avr_uart_devices chip en n_cbuf hw ! i) = serial_name n"
    "uart_regs (avr_uart_devices chip en n_cbuf hw ! i) = hw n"
    using chip_enabled [where en = en, OF assms(1) True] by (simp_all add: i_def)
  note here = table_slot [OF assms(2) slot(2)]
  have "distinct (map uart_name (avr_uarts d))" using assms(2) chip_distinct by simp
  with open_by_name [of d i] here slot(3) have
    "avr_device_open setbaud d (serial_name n) = (Inr ret, d') \<Longrightarrow>
      avr_fd d' = int i \<and> map uart_name (avr_uarts d') = map uart_name (avr_uarts d)" for ret d'
    by metis
  then show ?thesis
    using True assms(1) here slot by (auto simp: usart_rx_vect_def update_uart_def)
next
  case False
  have "uart_name ` set (avr_uarts d) = uart_name ` set (avr_uart_devices chip en n_cbuf hw)"
    using assms(2) by (metis list.set_map)
  with chip_disabled [where en = en, OF assms(1) False] have "serial_name n \<notin> uart_name ` set (avr_uarts d)" by simp
  with False show ?thesis by (simp add: usart_rx_vect_def open_missing)
qed

text \<open>The mega with its UARTs 1 and 3: the vector of USART 3 serves the second element.\<close>

definition example_chip :: avr_device where
  "example_chip = \<lparr>avr_fd = -1, avr_uarts = avr_uart_devices ATmega2560 (\<lambda>n. n = 1 \<or> n = 3) 4
       (\<lambda>n. \<lparr>csr_a = 0, csr_b = 0, csr_c = 0, br_l = 0, br_h = 0\<rparr>),
     avr_irq = [], avr_udre = [], avr_lost = []\<rparr>"

theorem avr_interrupt_own_uart_witness:
  "usart_rx_vect ATmega2560 (\<lambda>n. n = 1 \<or> n = 3) 3 0x41 example_chip =
     Some (example_chip\<lparr>avr_uarts := (avr_uarts example_chip)
       [1 := rx_interrupt_handler (avr_uarts example_chip ! 1) 0x41]\<rparr>)"
  using avr_interrupt_own_uart [of 3 ATmega2560 example_chip "\<lambda>n. n = 1 \<or> n = 3" 4
    "\<lambda>n. \<lparr>csr_a = 0, csr_b = 0, csr_c = 0, br_l = 0, br_h = 0\<rparr>" "0x41"]
  by (auto simp: example_chip_def numeral_3_eq_3)

end
