(* ===== verification/Smp_Arduino_Ports.thy ===== *)
theory Smp_Arduino_Ports
  imports Smp_Device_Arduino
begin

unbundle bit_operations_syntax

text \<open>
  The ports behind the table of \<open>src/serial-device-arduino.cpp\<close>: the wrapper
  \<open>ArduinoSerialCompat\<close>, the class \<open>TeensyUSBSerial\<close> and, for each kind of board, the table with the
  objects of the Arduino core that its entries wrap. The classes of the core are not part of the
  repository: they are parameters, the methods of each object over the state of the board.
\<close>

section \<open>Wrappers\<close>

text \<open>An object of the core. The configuration is an \<open>uint8_t\<close> or an enumeration, a word here.\<close>

record 'h core_serial =
  cs_begin :: "u32 \<Rightarrow> 'h \<Rightarrow> 'h"
  cs_begin_config :: "u32 \<Rightarrow> u32 \<Rightarrow> 'h \<Rightarrow> 'h"
  cs_end :: "'h \<Rightarrow> 'h"
  cs_available :: "'h \<Rightarrow> int \<times> 'h"
  cs_read :: "'h \<Rightarrow> int \<times> 'h"
  cs_write :: "byte list \<Rightarrow> 'h \<Rightarrow> size_t \<times> 'h"
  cs_ready :: "'h \<Rightarrow> bool \<times> 'h"

record 'h compat_iface =
  if_begin :: "u32 \<Rightarrow> 'h \<Rightarrow> 'h"
  if_begin_config :: "u32 \<Rightarrow> byte \<Rightarrow> 'h \<Rightarrow> 'h"
  if_end :: "'h \<Rightarrow> 'h"
  if_available :: "'h \<Rightarrow> int \<times> 'h"
  if_read :: "'h \<Rightarrow> int \<times> 'h"
  if_write :: "byte list \<Rightarrow> 'h \<Rightarrow> size_t \<times> 'h"
  if_ready :: "'h \<Rightarrow> bool \<times> 'h"

text \<open>The cast to the type of the configuration keeps the value of the byte.\<close>

definition begin_internal :: "'h core_serial \<Rightarrow> u32 \<Rightarrow> u32 \<Rightarrow> 'h \<Rightarrow> 'h" where
  "begin_internal p baudrate config = cs_begin_config p baudrate config"

definition serial_compat :: "'h core_serial \<Rightarrow> 'h compat_iface" where
  "serial_compat p = \<lparr>
     if_begin = cs_begin p,
     if_begin_config = (\<lambda>baudrate config. begin_internal p baudrate (ucast config)),
     if_end = cs_end p,
     if_available = cs_available p,
     if_read = cs_read p,
     if_write = cs_write p,
     if_ready = cs_ready p\<rparr>"

definition teensy_usb_serial :: "'h core_serial \<Rightarrow> 'h core_serial" where
  "teensy_usb_serial p = p\<lparr>cs_begin_config := (\<lambda>baudrate config. cs_begin p baudrate)\<rparr>"

section \<open>Tables\<close>

datatype core_object = Serial | Serial1 | Serial2 | Serial3 | SerialUSB

definition ports_due :: "(core_object \<Rightarrow> 'h core_serial) \<Rightarrow> (string \<times> 'h compat_iface) list" where
  "ports_due core =
     [(''serial0'', serial_compat (core Serial)), (''serial1'', serial_compat (core Serial1)),
      (''serial2'', serial_compat (core Serial2)), (''serial3'', serial_compat (core Serial3)),
      (''serialUSB'', serial_compat (core SerialUSB))]"

definition ports_teensy :: "(core_object \<Rightarrow> 'h core_serial) \<Rightarrow> (string \<times> 'h compat_iface) list" where
  "ports_teensy core =
     [(''serial0'', serial_compat (teensy_usb_serial (core Serial))), (''serial1'', serial_compat (core Serial1)),
      (''serial2'', serial_compat (core Serial2)), (''serial3'', serial_compat (core Serial3))]"

definition ports_other ::
  "bool \<Rightarrow> bool \<Rightarrow> bool \<Rightarrow> bool \<Rightarrow> (core_object \<Rightarrow> 'h core_serial) \<Rightarrow> (string \<times> 'h compat_iface) list" where
  "ports_other hw0 hw1 hw2 hw3 core =
     (if hw0 then [(''serial0'', serial_compat (core Serial))] else []) @
     (if hw1 then [(''serial1'', serial_compat (core Serial1))] else []) @
     (if hw2 then [(''serial2'', serial_compat (core Serial2))] else []) @
     (if hw3 then [(''serial3'', serial_compat (core Serial3))] else [])"

lemma ports_names:
  "map fst (ports_due core) = devmap_due"
  "map fst (ports_teensy core) = devmap_teensy"
  "map fst (ports_other hw0 hw1 hw2 hw3 core) = devmap_other hw0 hw1 hw2 hw3"
  by (simp_all add: ports_due_def ports_teensy_def ports_other_def devmap_due_def devmap_teensy_def
      devmap_other_def)

text \<open>The functions the device calls, through the pointer of the entry with the given index.\<close>

definition ports_core ::
  "(string \<times> 'h compat_iface) list \<Rightarrow> ('h \<Rightarrow> u32 \<times> 'h) \<Rightarrow> u32 \<times> u32 \<times> u32 \<Rightarrow> 'h arduino_core" where
  "ports_core ports millis modes = \<lparr>
     core_begin = (\<lambda>i. if_begin (snd (ports ! i))),
     core_begin_config = (\<lambda>i. if_begin_config (snd (ports ! i))),
     core_end = (\<lambda>i. if_end (snd (ports ! i))),
     core_available = (\<lambda>i. if_available (snd (ports ! i))),
     core_read = (\<lambda>i. if_read (snd (ports ! i))),
     core_write = (\<lambda>i. if_write (snd (ports ! i))),
     core_ready = (\<lambda>i. if_ready (snd (ports ! i))),
     core_millis = millis,
     core_8N1 = fst modes, core_8O1 = fst (snd modes), core_8E1 = snd (snd modes)\<rparr>"

datatype arduino_board = Due | Teensy | Other bool bool bool bool

fun board_ports :: "arduino_board \<Rightarrow> (core_object \<Rightarrow> 'h core_serial) \<Rightarrow> (string \<times> 'h compat_iface) list" where
  "board_ports Due core = ports_due core"
| "board_ports Teensy core = ports_teensy core"
| "board_ports (Other hw0 hw1 hw2 hw3) core = ports_other hw0 hw1 hw2 hw3 core"

text \<open>What the names stand for: the object with the name's number, if the board has it.\<close>

fun object_name :: "core_object \<Rightarrow> string" where
  "object_name Serial = ''serial0''"
| "object_name Serial1 = ''serial1''"
| "object_name Serial2 = ''serial2''"
| "object_name Serial3 = ''serial3''"
| "object_name SerialUSB = ''serialUSB''"

fun board_has :: "arduino_board \<Rightarrow> core_object \<Rightarrow> bool" where
  "board_has Due s \<longleftrightarrow> True"
| "board_has Teensy s \<longleftrightarrow> s \<noteq> SerialUSB"
| "board_has (Other hw0 hw1 hw2 hw3) s \<longleftrightarrow>
     (case s of Serial \<Rightarrow> hw0 | Serial1 \<Rightarrow> hw1 | Serial2 \<Rightarrow> hw2 | Serial3 \<Rightarrow> hw3 | SerialUSB \<Rightarrow> False)"

definition board_object :: "arduino_board \<Rightarrow> (core_object \<Rightarrow> 'h core_serial) \<Rightarrow> core_object \<Rightarrow> 'h core_serial" where
  "board_object board core s =
     (if board = Teensy \<and> s = Serial then teensy_usb_serial (core s) else core s)"

lemmas ports_defs = ports_due_def ports_teensy_def ports_other_def board_object_def

lemma port_by_name:
  assumes "board_has board s"
  obtains i where "i < 5" "get_device_fd_by_name (map fst (board_ports board core)) (object_name s) = Inr (int i)"
    "i < length (board_ports board core)" "snd (board_ports board core ! i) = serial_compat (board_object board core s)"
proof -
  have "\<exists>i<5. get_device_fd_by_name (map fst (board_ports board core)) (object_name s) = Inr (int i) \<and>
    i < length (board_ports board core) \<and> snd (board_ports board core ! i) = serial_compat (board_object board core s)"
    using assms
    by (cases board; cases s) (auto simp: get_device_fd_by_name_def ports_defs Ex_less_Suc numeral_eq_Suc)
  with that show thesis by blast
qed

lemma port_missing:
  assumes "\<not> board_has board s"
  shows "get_device_fd_by_name (map fst (board_ports board core)) (object_name s) = Inl SMP_ERROR_NO_DEVICE"
  using assms by (cases board; cases s) (auto simp: get_device_fd_by_name_def ports_defs)

section \<open>Opening and configuring by name\<close>

lemma port_from_fd:
  "i < 5 \<Longrightarrow> i < length devmap \<Longrightarrow> ard_device_from_fd devmap (int i) = Some i"
  by (simp add: ard_device_from_fd_def unat_of_nat_size Let_def)

lemma wait_ready_now: "core_ready core i h = (True, h') \<Longrightarrow> ard_wait_ready core i h = Some h'"
  by (subst ard_wait_ready.simps) simp

lemma low_byte: "ucast (ucast (w :: u32) :: byte) = w AND 0xFF"
proof -
  have "(0xFF :: u32) = mask 8" by (simp add: mask_eq_exp_minus_1)
  then show ?thesis by (auto intro!: bit_eqI simp only: bit_simps bit_mask_iff) (simp_all add: possible_bit_word)
qed

text \<open>
  On every kind of board the name \<open>serialN\<close> opens the core's object of that number, whichever of
  the others are missing, and configuring the descriptor it gave ends that object and starts it with the
  speed asked for and the low eight bits of the core's constant for the parity: constants that differ
  only above them select the same format. The USB port of the Teensy boards is started with the speed
  alone. A name the board does not have leaves the board as it is.
\<close>

theorem arduino_named_port:
  "let ports = board_ports board core; p = board_object board core s;
       C = ports_core ports millis modes; names = map fst ports
   in if board_has board s then \<exists>i.
      (\<forall>d h. cs_ready p (cs_begin p 115200 (ad_board d)) = (True, h) \<longrightarrow>
        ard_device_open C names d (object_name s) = Some (Inr 0, d\<lparr>ad_fd := int i, ad_board := h\<rparr>)) \<and>
      (\<forall>d h baudrate parity br mode. ad_fd d = int i \<and> ard_baudrate baudrate = Some br \<and>
        ard_mode C parity = Some mode \<and>
        cs_ready p (cs_begin_config p br (mode AND 0xFF) (cs_end p (ad_board d))) = (True, h) \<longrightarrow>
        ard_device_set_config C names d baudrate parity False = Some (Inr (), d\<lparr>ad_board := h\<rparr>))
    else \<forall>d. ard_device_open C names d (object_name s) = Some (Inl SMP_ERROR_NO_DEVICE, d)"
proof -
  define ports where "ports = board_ports board core"
  define p where "p = board_object board core s"
  define C where "C = ports_core ports millis modes"
  define names where "names = map fst ports"
  note folds = Let_def ports_def [symmetric] p_def [symmetric] C_def [symmetric] names_def [symmetric]
  show ?thesis
  proof (cases "board_has board s")
    case True
    from port_by_name [OF True, of core] obtain i where i: "i < 5"
      "get_device_fd_by_name names (object_name s) = Inr (int i)" "i < length ports"
      "snd (ports ! i) = serial_compat p"
      unfolding ports_def names_def p_def by blast
    have fd: "ard_device_from_fd names (int i) = Some i"
      using i(1,3) by (simp add: port_from_fd names_def)
    have C: "core_begin C i = cs_begin p" "core_end C i = cs_end p" "core_ready C i = cs_ready p"
      "core_begin_config C i br w = cs_begin_config p br (ucast w)" for br w
      using i(4) by (simp_all add: C_def ports_core_def serial_compat_def begin_internal_def)
    have "ard_device_open C names d (object_name s) = Some (Inr 0, d\<lparr>ad_fd := int i, ad_board := h\<rparr>)"
      if "cs_ready p (cs_begin p 115200 (ad_board d)) = (True, h)" for d h
      using that by (simp add: ard_device_open_def i(2) fd C wait_ready_now)
    moreover have "ard_device_set_config C names d baudrate parity False = Some (Inr (), d\<lparr>ad_board := h\<rparr>)"
      if "ad_fd d = int i" "ard_baudrate baudrate = Some br" "ard_mode C parity = Some mode"
        "cs_ready p (cs_begin_config p br (mode AND 0xFF) (cs_end p (ad_board d))) = (True, h)"
      for d h baudrate parity br mode
      using that by (simp add: ard_device_set_config_def fd C low_byte wait_ready_now)
    ultimately show ?thesis using True unfolding folds by auto
  next
    case False
    from port_missing [OF False, of core] have
      "get_device_fd_by_name names (object_name s) = Inl SMP_ERROR_NO_DEVICE"
      unfolding ports_def names_def .
    with False show ?thesis unfolding folds by (simp add: ard_device_open_def)
  qed
qed

text \<open>A board whose state lists the calls it has had.\<close>

definition logged_serial :: "nat \<Rightarrow> (nat \<times> u32 \<times> u32) list core_serial" where
  "logged_serial n = \<lparr>
     cs_begin = (\<lambda>b h. h @ [(n, b, 0)]), cs_begin_config = (\<lambda>b c h. h @ [(n, b, c)]),
     cs_end = (\<lambda>h. h), cs_available = (\<lambda>h. (0, h)), cs_read = (\<lambda>h. (-1, h)),
     cs_write = (\<lambda>bs h. (0, h)), cs_ready = (\<lambda>h. (True, h))\<rparr>"

text \<open>A board with its first and third port: the name \<open>serial2\<close> starts the third.\<close>

theorem arduino_named_port_witness:
  "ard_device_open (ports_core (board_ports (Other True False True False)
      (\<lambda>s. logged_serial (if s = Serial2 then 2 else 0))) (\<lambda>h. (0, h)) (0x800, 0x200, 0))
     [''serial0'', ''serial2''] \<lparr>ad_fd = -1, ad_board = []\<rparr> ''serial2''
   = Some (Inr 0, \<lparr>ad_fd = 1, ad_board = [(2, 115200, 0)]\<rparr>)"
proof -
  let ?core = "\<lambda>s. logged_serial (if s = Serial2 then 2 else 0)"
  let ?ports = "board_ports (Other True False True False) ?core"
  let ?d = "\<lparr>ad_fd = -1, ad_board = []\<rparr> :: (nat \<times> u32 \<times> u32) list arduino_device"
  have names: "map fst ?ports = [''serial0'', ''serial2'']" by (simp add: ports_other_def)
  obtain i where "ard_device_open (ports_core ?ports (\<lambda>h. (0, h)) (0x800, 0x200, 0)) (map fst ?ports) ?d
      (object_name Serial2) = Some (Inr 0, ?d\<lparr>ad_fd := int i, ad_board := [(2, 115200, 0)]\<rparr>)"
    using arduino_named_port [where board = "Other True False True False" and core = ?core and s = Serial2
        and millis = "\<lambda>h. (0, h)" and modes = "(0x800, 0x200, 0)"]
    by (auto simp: board_object_def logged_serial_def Let_def)
  then show ?thesis
    unfolding names
    by (auto simp: ard_device_open_def get_device_fd_by_name_def bind_eq_Some_conv)
qed

end
