(* ===== verification/Spec2Isabelle.thy ===== *)
theory Spec2Isabelle
  imports Smp_Buffer Smp_Serial_Sync Smp_Message_Transfer Smp_Narrow Smp_Static Smp_System_Desktop
    Smp_System_Echo Smp_System_Arduino Smp_Avr_Chip Smp_Arduino_Ports
begin

text \<open>
  A verification library for libsmp, a C library that exchanges typed messages over a serial line.

  \<^bold>\<open>The program.\<close> An application builds a message (\<open>src/message.c\<close>) and gives it to a context
  (\<open>src/context.c\<close>). The context encodes it into a transmit buffer (\<open>src/buffer.c\<close>), wraps the bytes
  into a frame with escapes and a checksum (\<open>src/serial-protocol.c\<close>) and writes the frame to a serial
  device (one of the files \<open>src/serial-device-*\<close>). On the other side the context reads chunks from its
  device until it has nothing more, feeds each byte to the frame decoder, parses a complete payload
  into a message and calls back the application. All state is in the structures the functions are
  given, except the table of UARTs of the AVR back end; errors are negative return values.

  \<^bold>\<open>Conventions.\<close> A structure is a record, an enumeration a datatype, \<open>size_t\<close> a word of 64 bits and
  every integer of fixed width a word of that width, so arithmetic wraps as in C. Memory objects are
  lists of bytes, read and written with bounds; a pointer into an object is the rest of it. A
  function that returns an error or a value returns \<open>smp_error + 'a\<close>. The outer \<^typ>\<open>'a option\<close> is
  for executions without a result: \<^const>\<open>None\<close> is an access out of bounds, other undefined
  behaviour, or a loop that does not end, so that every theorem with \<open>= Some\<close> says that the code
  returns and accesses memory in bounds only. An allocator is a predicate on the requested size; a
  theorem about every predicate is one about every failure. The byte order of the machine is a
  parameter.
\<close>

text \<open>
  \<^bold>\<open>Theories.\<close>
  \<^item> \<open>Smp_Prelude\<close>: types, bounded memory access, byte representation of words; shared lemmas.
    \<open>Smp_Machine\<close>: runs of a step function, the locales of a machine with an invariant and of a
    machine that cuts a stream into frames.
  \<^item> \<open>Smp_Error\<close>: \<open>SmpError\<close> of \<open>include/libsmp.h\<close> and \<open>src/libsmp.c\<close>. \<open>Smp_Buffer\<close>: \<open>src/buffer.c\<close>.
  \<^item> \<open>Smp_Serial_Protocol\<close>: every function of \<open>src/serial-protocol.c\<close>. \<open>Smp_Serial_Decoder\<close>: the
    invariant of the decoder and the simulation of an abstract machine. \<open>Smp_Serial_Framing\<close>: the
    frame format, the encoder against it, the decoder on frames. \<open>Smp_Serial_Spec\<close>: properties.
    \<open>Smp_Serial_Sync\<close>: how the decoder gets back in step, from any state.
  \<^item> \<open>Smp_Wire\<close>, \<open>Smp_Value\<close>, \<open>Smp_Message\<close>: loads and stores, one argument, and the life, parser and
    encoder of \<open>src/message.c\<close>. \<open>Smp_Message_Codec\<close>, \<open>Smp_Message_Parse\<close>, \<open>Smp_Message_Safety\<close>: the wire
    format as a function of a list of arguments, the encoder and the parser against it, and the
    parser on arbitrary bytes. \<open>Smp_Message_Spec\<close>: properties. \<open>Smp_Narrow\<close>: the size checks of
    the parser for a \<open>size_t\<close> of any width, and a \<open>double\<close> of fewer than 8 bytes.
  \<^item> \<open>Smp_Message_Api\<close>: the typed, generic and variadic getters and setters; \<open>Smp_Float\<close>: the
    promotion of \<open>float\<close> in a variable argument list; \<open>Smp_Message_Access\<close> and
    \<open>Smp_Message_Api_Spec\<close>: what they do to the list of values, and properties.
    \<open>Smp_Message_Transfer\<close>: from the setters of one application to the getters of another.
  \<^item> \<open>Smp_Device\<close>: the interface of \<open>src/serial-device.h\<close> as a table of functions and its contracts as
    locales: \<open>serial_device\<close> (what was sent and what is read), \<open>waiting_device\<close>, \<open>managed_device\<close>
    (opened and closed); \<open>device_life\<close> are the uses that a context makes of its device.
  \<^item> \<open>Smp_Context\<close>: every function of \<open>src/context.c\<close>. \<open>Smp_Context_Run\<close>: sending.
    \<open>Smp_Application\<close>: from a chunk of bytes to the callbacks, for any application that keeps the
    contract of the locale \<open>application\<close>. \<open>Smp_Context_Receive\<close>: receiving, for any device that keeps
    its contract and an application that keeps a journal. \<open>Smp_Context_Safe\<close>: sequences
    of calls, by the application and by its callbacks, and the life of the device meanwhile. \<open>Smp_Context_Spec\<close>: properties for every device.
    \<open>Smp_Link\<close>: devices that can be read empty (\<open>draining_device\<close>), waited for (\<open>attended_device\<close>) and
    two of them at the ends of a line (\<open>connection\<close>). \<open>Smp_Hosted\<close>: applications that use the context
    from their callbacks (\<open>hosted_application\<close>), and one that answers every message.
    \<open>Smp_Static\<close>: the functions that the macros of the static API define, and that such a context
    does not use the heap.
  \<^item> \<open>Smp_Device_Posix\<close>, \<open>Smp_Posix_Spec\<close>: \<open>src/serial-device-posix.c\<close> on an explicit state of the
    operating system; \<open>Smp_Posix_Config\<close>: its builds without \<open>termios.h\<close> or \<open>poll.h\<close>.
    \<open>Smp_Device_Win32\<close>, \<open>Smp_Win_Spec\<close>: \<open>src/serial-device-win32.c\<close>. \<open>Smp_Line\<close>: the far end both
    read from and write to, a script of answers.
  \<^item> \<open>Smp_Device_Avr\<close>, \<open>Smp_Avr_Ring\<close>, \<open>Smp_Avr_Transfer\<close>, \<open>Smp_Avr_Spec\<close>: \<open>src/serial-device-avr.c\<close>,
    registers, ring buffer and interrupt handler; bytes arrive between the accesses of the main
    program to volatile variables. \<open>Smp_Avr_Chip\<close>: the tables of UARTs and the interrupt vectors
    that the preprocessor selects for each chip.
  \<^item> \<open>Smp_Device_Arduino\<close>, \<open>Smp_Arduino_Spec\<close>: \<open>src/serial-device-arduino.cpp\<close>, with the Arduino core
    as a parameter and what it documents as the hypotheses \<open>core_ports\<close>, \<open>core_clock\<close>, \<open>core_prompt\<close>.
    \<open>Smp_Arduino_Ports\<close>: the wrapper classes and the tables of ports of each kind of board.
  \<^item> \<open>Smp_System\<close>, \<open>Smp_System_Arduino\<close>: two contexts with their devices, and the life of a context on
    each kind of device. \<open>Smp_System_Noise\<close>: a host on a line that damages frames.
    \<open>Smp_System_Desktop\<close>: waiting on POSIX hosts, and hosts that run Windows. \<open>Smp_System_Echo\<close>: hosts
    whose application answers from its callback, and a request that comes back.
\<close>

text \<open>
  \<^bold>\<open>What is shown.\<close> For the frame decoder: memory safety in every reachable
  state, refinement of an abstract machine, round trip with the encoder, resynchronisation from
  every state by one whole frame, the detection of a changed byte, the state after each error, and the growth of its buffer. For
  messages: round trip, from the encoder to the parser and from the setters to the getters, the
  exact result of the encoder, memory safety of the parser on all input in which it does not arrive at
  an unterminated string of size zero and its failure on that, rejection of truncated input, for which widths of \<open>size_t\<close>
  its size checks are exact, the typing of the getters, and the equivalence of variadic calls with
  single ones. For the context: the outcome and the releases of a send on every path, delivery of
  the messages on a line, with noise and damaged frames between them, to the callbacks, sending from
  inside a callback and the reply that comes back, waiting and processing as one step, invariants
  over all sequences of calls (callbacks may call everything but closing and processing), the independence of a static context from the allocator, and what a
  rejected frame leaves behind. For the devices: what opening, configuring, reading and waiting do
  and report, and that each is an instance of the contract the context relies on, so that what a
  host sends is reported by a host, by one that runs Windows and by an Arduino board outside the AVR
  family, and is read byte for byte by an AVR. For the tables of the
  microcontrollers: that a name, its index and the hardware behind it belong together in every
  configuration.

  \<^bold>\<open>Bounds.\<close> No fuel is used. Loops that end are recursive functions with a measure or on the
  structure of a list; the loops that may not end (the receive loop, waiting without a timeout,
  polling of \<open>UDRE0\<close>, waiting for an Arduino port to be ready or for its clock) are partial functions
  into the option type, and where they do end this is proved. Objects are at most \<open>PTRDIFF_MAX\<close> bytes
  long. Message payloads are below \<open>2 ^ 32\<close> bytes, the range of their size field.

  \<^bold>\<open>Not modelled.\<close> The memory that a pointer shares: an argument that is a string or raw
  data is the rest of the object it points into at the time it is stored, so a later change of that object
  is not seen (the library asks the application not to make one). The values of
  \<open>util/setbaud.h\<close>, the classes of the Arduino core, the addresses of the registers, and the
  sizes that the build writes into \<open>libsmp-static.h\<close> are parameters. The messages, the
  frames and the context are modelled with a \<open>size_t\<close> of 64 bits and a \<open>double\<close> of 8 bytes. What is shown of the
  AVR, where they have 16 bits and 4 bytes, are its device, the bytes it reads, the checks and loads of
  \<open>Smp_Narrow\<close>, and that the limit of the decoder there is below its first buffer, so that
  \<open>smp_context_new\<close> fails; no property is about messages parsed or encoded on an AVR. The chunk that
  \<open>smp_context_process_fd\<close> reads into is a static array in the code and a local list in the model, so
  callbacks that process input themselves are outside it. The variant of the loads and stores for hosts with unaligned access
  moves the same bytes and is not modelled apart. The tests, the scripts, the build files and the
  documentation are left out.
\<close>

end
